(* ===== verification/Prelude.thy ===== *)
theory Prelude
  imports Main "HOL-Library.Word"
begin

text \<open>
  Shared vocabulary of the development: the machine integer types of the Rust sources, the
  outcome of a call (a normal result, an error value, a panic), the program monad in which
  every stateful routine of the library is written, and the generic facts about lists and
  big-endian words that the components share.

  A routine with state \<open>'s\<close>, error type \<open>'e\<close> and result \<open>'a\<close> is a function
  from states to \<open>None\<close> (the call does not return) or to \<open>Some\<close> of an outcome
  and the state it leaves behind. Rust's \<^verbatim>\<open>try!\<close> and \<^verbatim>\<open>?\<close> are
  \<open>pbind\<close>: an error or a panic of the first part is the outcome of the whole.
\<close>

named_theorems outcome_simps \<open>evaluation of the program monad on results\<close>
named_theorems prog_defs \<open>definitions of the primitive program steps\<close>

subsection \<open>Machine integers\<close>

type_synonym u8 = "8 word"
type_synonym u16 = "16 word"
type_synonym u32 = "32 word"
type_synonym u64 = "64 word"

type_synonym bytes = "8 word list"

subsection \<open>Outcomes and programs\<close>

datatype ('a, 'e) outcome =
    Ok 'a     \<comment> \<open>\<^verbatim>\<open>Ok(a)\<close>\<close>
  | Err 'e    \<comment> \<open>\<^verbatim>\<open>Err(e)\<close>\<close>
  | Panic     \<comment> \<open>the call unwinds: failed slice index, \<^verbatim>\<open>unwrap\<close>, arithmetic check\<close>

type_synonym ('s, 'e, 'a) prog = "'s \<Rightarrow> (('a, 'e) outcome \<times> 's) option"

definition pret :: "'a \<Rightarrow> ('s, 'e, 'a) prog" where
  "pret a s = Some (Ok a, s)"

definition pthrow :: "'e \<Rightarrow> ('s, 'e, 'a) prog" where
  "pthrow e s = Some (Err e, s)"

definition ppanic :: "('s, 'e, 'a) prog" where
  "ppanic s = Some (Panic, s)"

text \<open>\<^verbatim>\<open>xs[i]\<close> panics out of range.\<close>

definition pindex :: "'a list \<Rightarrow> nat \<Rightarrow> ('s, 'e, 'a) prog" where
  "pindex xs i = (if i < length xs then pret (xs ! i) else ppanic)"

definition pbind :: "('s, 'e, 'a) prog \<Rightarrow> ('a \<Rightarrow> ('s, 'e, 'b) prog) \<Rightarrow> ('s, 'e, 'b) prog" where
  "pbind m k s =
     (case m s of
        None \<Rightarrow> None
      | Some (out, s') \<Rightarrow>
          (case out of
             Ok a \<Rightarrow> k a s'
           | Err e \<Rightarrow> Some (Err e, s')
           | Panic \<Rightarrow> Some (Panic, s')))"

text \<open>\<^verbatim>\<open>for x in xs { try!(f(x)) }\<close>\<close>

primrec pfor :: "('x \<Rightarrow> ('s, 'e, unit) prog) \<Rightarrow> 'x list \<Rightarrow> ('s, 'e, unit) prog" where
  "pfor f [] = pret ()"
| "pfor f (x # xs) = pbind (f x) (\<lambda>_. pfor f xs)"

text \<open>\<^verbatim>\<open>for _ in 0..n { v.push(try!(m)) }\<close>, starting with an empty vector\<close>

primrec prepeat :: "nat \<Rightarrow> ('s, 'e, 'a) prog \<Rightarrow> ('s, 'e, 'a list) prog" where
  "prepeat 0 m = pret []"
| "prepeat (Suc n) m = pbind m (\<lambda>x. pbind (prepeat n m) (\<lambda>xs. pret (x # xs)))"

lemma pret_apply [outcome_simps]: "pret a s = Some (Ok a, s)"
  by (simp add: pret_def)

lemma pthrow_apply [outcome_simps]: "pthrow e s = Some (Err e, s)"
  by (simp add: pthrow_def)

lemma ppanic_apply [outcome_simps]: "ppanic s = Some (Panic, s)"
  by (simp add: ppanic_def)

lemma pbind_None [outcome_simps]: "m s = None \<Longrightarrow> pbind m k s = None"
  by (simp add: pbind_def)

lemma pbind_Ok [outcome_simps]: "m s = Some (Ok a, s') \<Longrightarrow> pbind m k s = k a s'"
  by (simp add: pbind_def)

lemma pbind_Err [outcome_simps]: "m s = Some (Err e, s') \<Longrightarrow> pbind m k s = Some (Err e, s')"
  by (simp add: pbind_def)

lemma pbind_Panic [outcome_simps]: "m s = Some (Panic, s') \<Longrightarrow> pbind m k s = Some (Panic, s')"
  by (simp add: pbind_def)

lemma pbind_assoc: "pbind (pbind m f) g = pbind m (\<lambda>a. pbind (f a) g)"
  by (rule ext) (simp add: pbind_def split: option.splits prod.splits outcome.splits)

lemma pbind_pret: "pbind (pret a) k = k a"
  by (rule ext) (simp add: pbind_def pret_def)

text \<open>Inversion: how a sequence can end with a result, and when it returns at all.\<close>

lemma pbind_OkE:
  assumes "pbind m k s = Some (Ok b, t)"
  obtains a s' where "m s = Some (Ok a, s')" and "k a s' = Some (Ok b, t)"
  using assms by (auto simp: pbind_def split: option.splits outcome.splits prod.splits)

lemma pbind_cases:
  assumes "pbind m k s = Some (out, t)"
  obtains (Ok) a s' where "m s = Some (Ok a, s')" and "k a s' = Some (out, t)"
  | (Err) e where "m s = Some (Err e, t)" and "out = Err e"
  | (Panic) "m s = Some (Panic, t)" and "out = Panic"
  using assms by (auto simp: pbind_def split: option.splits outcome.splits prod.splits)

lemma pbind_defined:
  assumes "m s \<noteq> None" and "\<And>a s'. m s = Some (Ok a, s') \<Longrightarrow> k a s' \<noteq> None"
  shows "pbind m k s \<noteq> None"
  using assms by (auto simp: pbind_def split: option.splits outcome.splits)

lemma pbind_NoneE:
  assumes "pbind m k s = None"
  obtains "m s = None" | a s' where "m s = Some (Ok a, s')" and "k a s' = None"
  using assms by (auto simp: pbind_def split: option.splits outcome.splits prod.splits)

lemma prepeat_length:
  "prepeat n m s = Some (Ok xs, t) \<Longrightarrow> length xs = n"
  by (induction n arbitrary: s xs) (auto simp: pret_def elim!: pbind_OkE)

text \<open>\<open>pbind\<close> is monotone, so loops over programs can be defined as least fixed points.\<close>

lemma pbind_mono [partial_function_mono]:
  fixes m :: "('x \<Rightarrow> 'y option) \<Rightarrow> ('s, 'e, 'a) prog"
    and k :: "('x \<Rightarrow> 'y option) \<Rightarrow> 'a \<Rightarrow> ('s, 'e, 'b) prog"
  assumes m: "\<And>s. mono_option (\<lambda>f. m f s)"
    and k: "\<And>a s. mono_option (\<lambda>f. k f a s)"
  shows "mono_option (\<lambda>f. pbind (m f) (k f) s)"
proof (rule monotoneI)
  fix f g :: "'x \<Rightarrow> 'y option"
  assume fg: "fun_ord option_ord f g"
  have mfg: "option_ord (m f s) (m g s)" for s
    using m [of s] fg by (blast dest: monotoneD)
  have kfg: "option_ord (k f a s) (k g a s)" for a s
    using k [of a s] fg by (blast dest: monotoneD)
  show "option_ord (pbind (m f) (k f) s) (pbind (m g) (k g) s)"
  proof (cases "m f s")
    case None
    then show ?thesis by (simp add: flat_ord_def pbind_def)
  next
    case (Some r)
    then have "m g s = Some r" using mfg [of s] by (auto simp: flat_ord_def)
    with Some show ?thesis using kfg
      by (auto simp: pbind_def flat_ord_def split: prod.splits outcome.splits)
  qed
qed

subsection \<open>Big-endian words\<close>

text \<open>
  \<^verbatim>\<open>u16::from_be(transmute(buf))\<close> and \<^verbatim>\<open>transmute(x.to_be())\<close>: on every
  target, byte 0 of the buffer is the most significant byte of the integer.
\<close>

definition u16_of_be :: "u8 \<Rightarrow> u8 \<Rightarrow> u16" where
  "u16_of_be b0 b1 = word_of_nat (unat b0 * 256 + unat b1)"

definition be_of_u16 :: "u16 \<Rightarrow> bytes" where
  "be_of_u16 x = [word_of_nat (unat x div 256), word_of_nat (unat x mod 256)]"

definition u32_of_be :: "u8 \<Rightarrow> u8 \<Rightarrow> u8 \<Rightarrow> u8 \<Rightarrow> u32" where
  "u32_of_be b0 b1 b2 b3 =
     word_of_nat (((unat b0 * 256 + unat b1) * 256 + unat b2) * 256 + unat b3)"

definition be_of_u32 :: "u32 \<Rightarrow> bytes" where
  "be_of_u32 x =
     [word_of_nat (unat x div 16777216), word_of_nat (unat x div 65536 mod 256),
      word_of_nat (unat x div 256 mod 256), word_of_nat (unat x mod 256)]"

lemma unat_u8_lt [simp]: "unat (b :: u8) < 256"
  using unsigned_less [of b] by simp

lemma unat_u16_lt [simp]: "unat (x :: u16) < 65536"
  using unsigned_less [of x] by simp

lemma unat_u32_lt [simp]: "unat (x :: u32) < 4294967296"
  using unsigned_less [of x] by simp

lemma unat_u16_of_nat: "n < 65536 \<Longrightarrow> unat (word_of_nat n :: u16) = n"
  by (simp add: unat_of_nat take_bit_eq_mod)

lemma unat_u8_of_nat: "n < 256 \<Longrightarrow> unat (word_of_nat n :: u8) = n"
  by (simp add: unat_of_nat take_bit_eq_mod)

lemma length_be_of_u16 [simp]: "length (be_of_u16 x) = 2"
  by (simp add: be_of_u16_def)

lemma length_be_of_u32 [simp]: "length (be_of_u32 x) = 4"
  by (simp add: be_of_u32_def)

lemma u16_be_roundtrip [simp]:
  "u16_of_be (word_of_nat (unat x div 256)) (word_of_nat (unat x mod 256)) = x"
proof -
  have "unat x div 256 < 256" using unat_u16_lt [of x] by (simp add: less_mult_imp_div_less)
  then show ?thesis by (simp add: u16_of_be_def unat_u8_of_nat)
qed

lemma be_u16_roundtrip: "be_of_u16 (u16_of_be a b) = [a, b]"
proof -
  have "unat a * 256 + unat b < 65536"
    using unat_u8_lt [of a] unat_u8_lt [of b] by linarith
  then have "unat (u16_of_be a b) = unat a * 256 + unat b"
    unfolding u16_of_be_def by (rule unat_u16_of_nat)
  then show ?thesis by (simp add: be_of_u16_def)
qed

lemma u32_be_roundtrip [simp]:
  "u32_of_be (word_of_nat (unat x div 16777216)) (word_of_nat (unat x div 65536 mod 256))
     (word_of_nat (unat x div 256 mod 256)) (word_of_nat (unat x mod 256)) = x"
proof -
  have "unat x div 16777216 < 256"
    using unat_u32_lt [of x] by (simp add: less_mult_imp_div_less)
  moreover have "((n div 16777216 * 256 + n div 65536 mod 256) * 256 + n div 256 mod 256) * 256
      + n mod 256 = n" for n :: nat
  proof -
    have "n div 16777216 = n div 65536 div 256" and "n div 65536 = n div 256 div 256"
      by (simp_all flip: div_mult2_eq)
    then show ?thesis by (metis div_mult_mod_eq)
  qed
  ultimately show ?thesis by (simp add: u32_of_be_def unat_u8_of_nat)
qed

subsection \<open>Lists\<close>

lemma take_drop_middle:
  "length pre = n \<Longrightarrow> length xs = m \<Longrightarrow> take m (drop n (pre @ xs @ post)) = xs"
  by simp

lemma find_Some_split:
  "List.find P xs = Some x \<longleftrightarrow> (\<exists>pre post. xs = pre @ x # post \<and> P x \<and> (\<forall>y \<in> set pre. \<not> P y))"
proof
  assume "List.find P xs = Some x"
  then show "\<exists>pre post. xs = pre @ x # post \<and> P x \<and> (\<forall>y \<in> set pre. \<not> P y)"
  proof (induction xs)
    case (Cons z zs)
    show ?case
    proof (cases "P z")
      case True
      with Cons.prems show ?thesis by (intro exI [of _ "[]"] exI [of _ zs]) simp
    next
      case False
      with Cons obtain pre post where "zs = pre @ x # post" "P x" "\<forall>y \<in> set pre. \<not> P y" by auto
      with False show ?thesis by (intro exI [of _ "z # pre"] exI [of _ post]) simp
    qed
  qed simp
next
  assume "\<exists>pre post. xs = pre @ x # post \<and> P x \<and> (\<forall>y \<in> set pre. \<not> P y)"
  then obtain pre post where "xs = pre @ x # post" "P x" "\<forall>y \<in> set pre. \<not> P y" by blast
  then show "List.find P xs = Some x" by (induction pre arbitrary: xs) simp_all
qed

lemma length_4_conv: "length xs = 4 \<longleftrightarrow> (\<exists>a b c d. xs = [a, b, c, d])"
  by (auto simp: length_Suc_conv eval_nat_numeral)

lemma length_2_conv: "length xs = 2 \<longleftrightarrow> (\<exists>a b. xs = [a, b])"
  by (auto simp: length_Suc_conv eval_nat_numeral)

end
