(* ===== verification/Text.thy ===== *)
theory Text
  imports Prelude
begin

text \<open>
  The part of Rust's \<^verbatim>\<open>str\<close>, \<^verbatim>\<open>char\<close> and integer parsing and formatting
  that the library uses. A \<^verbatim>\<open>String\<close> is the list of its Unicode scalar values;
  \<^verbatim>\<open>len\<close> and \<^verbatim>\<open>as_bytes\<close> go through the UTF-8 encoding. Character classes
  (\<^verbatim>\<open>is_whitespace\<close>, \<^verbatim>\<open>is_control\<close>) are those of the Unicode tables the
  standard library uses.
\<close>

type_synonym ustr = "nat list"

text \<open>A literal of the sources, as its code points.\<close>

definition lit :: "string \<Rightarrow> ustr" where
  "lit s = map of_char s"

abbreviation dot :: nat where "dot \<equiv> 46"
abbreviation hyphen :: nat where "hyphen \<equiv> 45"
abbreviation colon :: nat where "colon \<equiv> 58"

subsection \<open>Characters and UTF-8\<close>

definition is_whitespace :: "nat \<Rightarrow> bool" where
  "is_whitespace c \<longleftrightarrow>
     (9 \<le> c \<and> c \<le> 13) \<or> c = 32 \<or> c = 133 \<or> c = 160 \<or> c = 5760 \<or>
     (8192 \<le> c \<and> c \<le> 8202) \<or> c = 8232 \<or> c = 8233 \<or> c = 8239 \<or> c = 8287 \<or> c = 12288"

definition is_control :: "nat \<Rightarrow> bool" where
  "is_control c \<longleftrightarrow> c < 32 \<or> (127 \<le> c \<and> c < 160)"

definition utf8_char :: "nat \<Rightarrow> bytes" where
  "utf8_char c =
     (if c < 128 then [word_of_nat c]
      else if c < 2048 then [word_of_nat (192 + c div 64), word_of_nat (128 + c mod 64)]
      else if c < 65536 then
        [word_of_nat (224 + c div 4096), word_of_nat (128 + c div 64 mod 64),
         word_of_nat (128 + c mod 64)]
      else
        [word_of_nat (240 + c div 262144), word_of_nat (128 + c div 4096 mod 64),
         word_of_nat (128 + c div 64 mod 64), word_of_nat (128 + c mod 64)])"

definition as_bytes :: "ustr \<Rightarrow> bytes" where
  "as_bytes s = concat (map utf8_char s)"

definition str_len :: "ustr \<Rightarrow> nat" where
  "str_len s = length (as_bytes s)"

definition is_ascii :: "ustr \<Rightarrow> bool" where
  "is_ascii s = list_all (\<lambda>c. c < 128) s"

subsection \<open>Searching and splitting\<close>

definition starts_with :: "ustr \<Rightarrow> ustr \<Rightarrow> bool" where
  "starts_with p s \<longleftrightarrow> take (length p) s = p"

definition ends_with :: "ustr \<Rightarrow> ustr \<Rightarrow> bool" where
  "ends_with p s \<longleftrightarrow> starts_with (rev p) (rev s)"

fun contains_str :: "ustr \<Rightarrow> ustr \<Rightarrow> bool" where
  "contains_str p [] = (p = [])"
| "contains_str p (c # s) = (starts_with p (c # s) \<or> contains_str p s)"

text \<open>\<^verbatim>\<open>s.split(c)\<close>: always at least one piece, empty pieces are kept.\<close>

fun split_on :: "'a \<Rightarrow> 'a list \<Rightarrow> 'a list list" where
  "split_on c [] = [[]]"
| "split_on c (x # xs) =
     (if x = c then [] # split_on c xs
      else (case split_on c xs of [] \<Rightarrow> [[x]] | seg # segs \<Rightarrow> (x # seg) # segs))"

text \<open>\<^verbatim>\<open>s.split_whitespace()\<close>: maximal runs of non-whitespace characters.\<close>

fun split_whitespace_from :: "ustr \<Rightarrow> ustr \<Rightarrow> ustr list" where
  "split_whitespace_from acc [] = (if acc = [] then [] else [rev acc])"
| "split_whitespace_from acc (c # s) =
     (if is_whitespace c
      then (if acc = [] then split_whitespace_from [] s else rev acc # split_whitespace_from [] s)
      else split_whitespace_from (c # acc) s)"

definition split_whitespace :: "ustr \<Rightarrow> ustr list" where
  "split_whitespace s = split_whitespace_from [] s"

text \<open>
  \<^verbatim>\<open>s.lines()\<close>: pieces between line feeds, a carriage return before the line feed is
  dropped, and there is no empty last line after a final line feed.
\<close>

definition strip_cr :: "ustr \<Rightarrow> ustr" where
  "strip_cr s = (if s \<noteq> [] \<and> last s = 13 then butlast s else s)"

definition lines :: "ustr \<Rightarrow> ustr list" where
  "lines s =
     (let ps = split_on 10 s
      in map strip_cr (butlast ps) @ (if last ps = [] then [] else [last ps]))"

text \<open>\<^verbatim>\<open>s.find(c)\<close> with both halves around the first occurrence.\<close>

fun split_first :: "nat \<Rightarrow> ustr \<Rightarrow> (ustr \<times> ustr) option" where
  "split_first c [] = None"
| "split_first c (x # xs) =
     (if x = c then Some ([], xs)
      else map_option (\<lambda>(a, b). (x # a, b)) (split_first c xs))"

text \<open>\<^verbatim>\<open>s.replace(pat, rep)\<close> for a nonempty pattern: leftmost, non-overlapping.\<close>

function replace_str :: "ustr \<Rightarrow> ustr \<Rightarrow> ustr \<Rightarrow> ustr" where
  "replace_str p q s =
     (if s = [] then []
      else if p \<noteq> [] \<and> starts_with p s then q @ replace_str p q (drop (length p) s)
      else hd s # replace_str p q (tl s))"
  by pat_completeness auto
termination
  by (relation "measure (\<lambda>(p, q, s). length s)") auto

declare replace_str.simps [simp del]

subsection \<open>Integers in text\<close>

definition digit_val :: "nat \<Rightarrow> nat \<Rightarrow> nat option" where
  "digit_val radix c =
     (let d = (if 48 \<le> c \<and> c \<le> 57 then Some (c - 48)
               else if 97 \<le> c \<and> c \<le> 122 then Some (c - 97 + 10)
               else if 65 \<le> c \<and> c \<le> 90 then Some (c - 65 + 10)
               else None)
      in (case d of None \<Rightarrow> None | Some v \<Rightarrow> if v < radix then Some v else None))"

fun digits_val :: "nat \<Rightarrow> nat \<Rightarrow> ustr \<Rightarrow> nat option" where
  "digits_val radix acc [] = Some acc"
| "digits_val radix acc (c # cs) =
     (case digit_val radix c of
        None \<Rightarrow> None
      | Some d \<Rightarrow> digits_val radix (acc * radix + d) cs)"

text \<open>
  \<^verbatim>\<open>uN::from_str_radix(s, radix)\<close>: an optional plus sign, at least one digit, and the
  value must fit. \<^verbatim>\<open>str::parse::<uN>()\<close> is the case of radix ten.
\<close>

definition parse_unsigned :: "nat \<Rightarrow> nat \<Rightarrow> ustr \<Rightarrow> nat option" where
  "parse_unsigned radix limit s =
     (let ds = (if s \<noteq> [] \<and> hd s = 43 then tl s else s)
      in if ds = [] then None
         else (case digits_val radix 0 ds of
                 None \<Rightarrow> None
               | Some v \<Rightarrow> if v < limit then Some v else None))"

definition digit_char :: "nat \<Rightarrow> nat" where
  "digit_char d = (if d < 10 then 48 + d else 97 + (d - 10))"

definition upper_digit_char :: "nat \<Rightarrow> nat" where
  "upper_digit_char d = (if d < 10 then 48 + d else 65 + (d - 10))"

text \<open>\<^verbatim>\<open>format!("{}", n)\<close> and \<^verbatim>\<open>format!("{:x}", n)\<close>\<close>

fun show_radix :: "nat \<Rightarrow> nat \<Rightarrow> ustr" where
  "show_radix radix n =
     (if radix \<le> 1 \<or> n < radix then [digit_char n]
      else show_radix radix (n div radix) @ [digit_char (n mod radix)])"

declare show_radix.simps [simp del]

abbreviation show_nat :: "nat \<Rightarrow> ustr" where
  "show_nat \<equiv> show_radix 10"

subsection \<open>Facts about the text functions\<close>

lemma is_ascii_simps [simp]:
  "is_ascii []"
  "is_ascii (c # s) \<longleftrightarrow> c < 128 \<and> is_ascii s"
  "is_ascii (s @ t) \<longleftrightarrow> is_ascii s \<and> is_ascii t"
  by (simp_all add: is_ascii_def)

lemma as_bytes_simps [simp]:
  "as_bytes [] = []"
  "as_bytes (c # s) = utf8_char c @ as_bytes s"
  "as_bytes (s @ t) = as_bytes s @ as_bytes t"
  by (simp_all add: as_bytes_def)

lemma as_bytes_ascii: "is_ascii s \<Longrightarrow> as_bytes s = map word_of_nat s"
  by (induction s) (simp_all add: utf8_char_def)

lemma str_len_ascii: "is_ascii s \<Longrightarrow> str_len s = length s"
  by (simp add: str_len_def as_bytes_ascii)

lemma utf8_char_nonempty [simp]: "utf8_char c \<noteq> []"
  by (simp add: utf8_char_def)

lemma as_bytes_Nil_iff [simp]: "as_bytes s = [] \<longleftrightarrow> s = []"
  by (cases s) simp_all

lemma str_len_0 [simp]: "str_len s = 0 \<longleftrightarrow> s = []"
  by (cases s) (simp_all add: str_len_def)

lemma unat_as_bytes_ascii: "is_ascii s \<Longrightarrow> map unat (as_bytes s) = s"
  by (induction s) (simp_all add: utf8_char_def unat_u8_of_nat)

lemma split_on_nonempty [simp]: "split_on c s \<noteq> []"
  by (induction s) (simp_all split: list.splits)

lemma length_split_on_pos [simp]: "0 < length (split_on c s)"
  by simp

lemma split_on_no_sep: "c \<notin> set s \<Longrightarrow> split_on c s = [s]"
  by (induction s) auto

lemma split_on_append_sep:
  "split_on c (s @ c # t) = split_on c s @ split_on c t"
  by (induction s) (auto split: list.splits)

lemma split_on_segs: "seg \<in> set (split_on c s) \<Longrightarrow> c \<notin> set seg"
  by (induction s arbitrary: seg) (fastforce split: if_splits list.splits)+

lemma split_on_subset: "seg \<in> set (split_on c s) \<Longrightarrow> set seg \<subseteq> set s"
  by (induction s arbitrary: seg) (fastforce split: if_splits list.splits)+

lemma split_on_ascii: "is_ascii s \<Longrightarrow> seg \<in> set (split_on c s) \<Longrightarrow> is_ascii seg"
  using split_on_subset [of seg c s] by (auto simp: is_ascii_def list_all_iff)

text \<open>Joining the pieces with the separator gives the string back.\<close>

fun join :: "'a \<Rightarrow> 'a list list \<Rightarrow> 'a list" where
  "join c [] = []"
| "join c [s] = s"
| "join c (s # t # ss) = s @ c # join c (t # ss)"

lemma join_Cons: "ss \<noteq> [] \<Longrightarrow> join c (s # ss) = s @ c # join c ss"
  by (cases ss) simp_all

lemma join_split_on: "join c (split_on c s) = s"
proof (induction s)
  case Nil
  then show ?case by simp
next
  case (Cons x s)
  obtain seg segs where sp: "split_on c s = seg # segs"
    by (cases "split_on c s") simp_all
  with Cons.IH show ?case
    by (cases segs) (simp_all add: join_Cons)
qed

lemma split_on_join:
  assumes "ss \<noteq> []" and "\<And>s. s \<in> set ss \<Longrightarrow> c \<notin> set s"
  shows "split_on c (join c ss) = ss"
  using assms
proof (induction ss rule: join.induct)
  case (3 c s t ss)
  then show ?case by (simp add: split_on_append_sep split_on_no_sep)
qed (simp_all add: split_on_no_sep)

lemma digit_val_digit_char: "d < radix \<Longrightarrow> radix \<le> 36 \<Longrightarrow> digit_val radix (digit_char d) = Some d"
  by (auto simp: digit_val_def digit_char_def Let_def)

lemma digits_val_append:
  "digits_val radix acc (s @ t) = (case digits_val radix acc s of None \<Rightarrow> None | Some v \<Rightarrow> digits_val radix v t)"
  by (induction s arbitrary: acc) (simp_all split: option.splits)

lemma show_radix_nonempty [simp]: "show_radix radix n \<noteq> []"
  by (subst show_radix.simps) simp

lemma digits_val_show_radix:
  assumes "2 \<le> radix" and "radix \<le> 36"
  shows "digits_val radix 0 (show_radix radix n) = Some n"
  using assms
proof (induction radix n rule: show_radix.induct)
  case (1 radix n)
  show ?case
  proof (cases "n < radix")
    case True
    with 1 show ?thesis by (subst show_radix.simps) (simp add: digit_val_digit_char)
  next
    case False
    with 1 have "digits_val radix 0 (show_radix radix (n div radix)) = Some (n div radix)"
      by simp
    with False "1.prems" show ?thesis
      by (subst show_radix.simps) (simp add: digits_val_append digit_val_digit_char)
  qed
qed

lemma show_radix_digits:
  assumes "2 \<le> radix" and "radix \<le> 36" and "c \<in> set (show_radix radix n)"
  shows "\<exists>d < radix. c = digit_char d"
  using assms
proof (induction radix n rule: show_radix.induct)
  case (1 radix n)
  show ?case
  proof (cases "n < radix")
    case True
    with "1.prems" show ?thesis by (auto simp: show_radix.simps [of radix n])
  next
    case False
    with "1.prems" have "c \<in> set (show_radix radix (n div radix)) \<or> c = digit_char (n mod radix)"
      by (auto simp: show_radix.simps [of radix n])
    then show ?thesis
    proof
      assume "c \<in> set (show_radix radix (n div radix))"
      with False "1.prems" show ?thesis by (intro "1.IH") auto
    next
      assume "c = digit_char (n mod radix)"
      with "1.prems" show ?thesis by (intro exI [of _ "n mod radix"]) simp
    qed
  qed
qed

lemma digit_char_bounds: "d < 36 \<Longrightarrow> 48 \<le> digit_char d \<and> digit_char d \<le> 122 \<and> digit_char d \<noteq> colon"
  by (auto simp: digit_char_def)

lemma show_radix_chars:
  assumes "2 \<le> radix" and "radix \<le> 36" and "c \<in> set (show_radix radix n)"
  shows "48 \<le> c \<and> c \<le> 122 \<and> c \<noteq> colon"
  using show_radix_digits [OF assms] digit_char_bounds assms(2) by fastforce

lemma parse_show_radix:
  assumes "2 \<le> radix" and "radix \<le> 36" and "n < limit"
  shows "parse_unsigned radix limit (show_radix radix n) = Some n"
proof -
  have "hd (show_radix radix n) \<noteq> 43"
    using show_radix_chars [OF assms(1,2), of "hd (show_radix radix n)" n]
    by (auto simp: hd_in_set)
  with assms show ?thesis
    by (simp add: parse_unsigned_def digits_val_show_radix)
qed

lemma parse_unsigned_bound: "parse_unsigned radix limit s = Some v \<Longrightarrow> v < limit"
  by (auto simp: parse_unsigned_def Let_def split: if_splits option.splits)

lemma split_whitespace_from_word:
  "list_all (\<lambda>c. \<not> is_whitespace c) w \<Longrightarrow>
   split_whitespace_from acc (w @ s) = split_whitespace_from (rev w @ acc) s"
  by (induction w arbitrary: acc) simp_all

end
