(* ===== verification/Address.thy ===== *)
theory Address
  imports Text
begin

unbundle bit_operations_syntax

text \<open>
  \<^verbatim>\<open>resolve/address.rs\<close> and the part of \<^verbatim>\<open>std::net\<close> it and the other modules use:
  IPv4 and IPv6 addresses, socket addresses, comparison across the two families, the reverse
  lookup name of an address, and the standard library's address parser.
\<close>

subsection \<open>Addresses of \<open>std::net\<close>\<close>

datatype ipv4_addr = Ipv4Addr u8 u8 u8 u8

datatype ipv6_addr = Ipv6Addr u16 u16 u16 u16 u16 u16 u16 u16

datatype ip_addr = V4 ipv4_addr | V6 ipv6_addr

datatype socket_addr =
    SockV4 ipv4_addr u16
  | SockV6 ipv6_addr u16 u32 u32   \<comment> \<open>address, port, flow info, scope id\<close>

fun octets :: "ipv4_addr \<Rightarrow> bytes" where
  "octets (Ipv4Addr a b c d) = [a, b, c, d]"

fun segments :: "ipv6_addr \<Rightarrow> u16 list" where
  "segments (Ipv6Addr a b c d e f g h) = [a, b, c, d, e, f, g, h]"

fun sa_ip :: "socket_addr \<Rightarrow> ip_addr" where
  "sa_ip (SockV4 a p) = V4 a"
| "sa_ip (SockV6 a p fl sc) = V6 a"

fun sa_port :: "socket_addr \<Rightarrow> u16" where
  "sa_port (SockV4 a p) = p"
| "sa_port (SockV6 a p fl sc) = p"

text \<open>\<^verbatim>\<open>SocketAddr::new\<close>\<close>

fun socket_addr_new :: "ip_addr \<Rightarrow> u16 \<Rightarrow> socket_addr" where
  "socket_addr_new (V4 a) p = SockV4 a p"
| "socket_addr_new (V6 a) p = SockV6 a p 0 0"

text \<open>
  \<^verbatim>\<open>Ipv6Addr::to_ipv4\<close> accepts IPv4-compatible and IPv4-mapped addresses;
  \<^verbatim>\<open>Ipv4Addr::to_ipv6_mapped\<close> and \<^verbatim>\<open>to_ipv6_compatible\<close> make them.
\<close>

fun to_ipv4 :: "ipv6_addr \<Rightarrow> ipv4_addr option" where
  "to_ipv4 (Ipv6Addr a b c d e f g h) =
     (if a = 0 \<and> b = 0 \<and> c = 0 \<and> d = 0 \<and> e = 0 \<and> (f = 0 \<or> f = 0xffff)
      then (case be_of_u16 g @ be_of_u16 h of
              [o0, o1, o2, o3] \<Rightarrow> Some (Ipv4Addr o0 o1 o2 o3)
            | _ \<Rightarrow> None)
      else None)"

fun to_ipv6_mapped :: "ipv4_addr \<Rightarrow> ipv6_addr" where
  "to_ipv6_mapped (Ipv4Addr a b c d) =
     Ipv6Addr 0 0 0 0 0 0xffff (u16_of_be a b) (u16_of_be c d)"

fun to_ipv6_compatible :: "ipv4_addr \<Rightarrow> ipv6_addr" where
  "to_ipv6_compatible (Ipv4Addr a b c d) =
     Ipv6Addr 0 0 0 0 0 0 (u16_of_be a b) (u16_of_be c d)"

fun is_loopback :: "ip_addr \<Rightarrow> bool" where
  "is_loopback (V4 (Ipv4Addr a b c d)) \<longleftrightarrow> a = 127"
| "is_loopback (V6 ip) \<longleftrightarrow> ip = Ipv6Addr 0 0 0 0 0 0 0 1"

fun is_unspecified :: "ip_addr \<Rightarrow> bool" where
  "is_unspecified (V4 ip) \<longleftrightarrow> ip = Ipv4Addr 0 0 0 0"
| "is_unspecified (V6 ip) \<longleftrightarrow> ip = Ipv6Addr 0 0 0 0 0 0 0 0"

fun is_ipv6 :: "ip_addr \<Rightarrow> bool" where
  "is_ipv6 (V4 ip) = False"
| "is_ipv6 (V6 ip) = True"

subsection \<open>\<open>resolve/address.rs\<close>\<close>

function address_equal :: "ip_addr \<Rightarrow> ip_addr \<Rightarrow> bool" where
  "address_equal (V4 a) (V4 b) = (a = b)"
| "address_equal (V6 a) (V6 b) = (a = b)"
| "address_equal (V6 a) (V4 b) = (case to_ipv4 a of Some a4 \<Rightarrow> a4 = b | None \<Rightarrow> False)"
| "address_equal (V4 a) (V6 b) = address_equal (V6 b) (V4 a)"
  by pat_completeness auto
termination
  by (relation "measure (\<lambda>(a, b). if is_ipv6 a then 0 else 1)") auto

definition socket_address_equal :: "socket_addr \<Rightarrow> socket_addr \<Rightarrow> bool" where
  "socket_address_equal a b \<longleftrightarrow> sa_port a = sa_port b \<and> address_equal (sa_ip a) (sa_ip b)"

text \<open>The four nibbles of a segment, lowest first, as \<^verbatim>\<open>address_name\<close> masks and shifts them.\<close>

definition segment_nibbles :: "u16 \<Rightarrow> u16 list" where
  "segment_nibbles s =
     [s AND 0xf, drop_bit 4 (s AND 0x00f0), drop_bit 8 (s AND 0x0f00), drop_bit 12 (s AND 0xf000)]"

fun address_name :: "ip_addr \<Rightarrow> ustr" where
  "address_name (V4 (Ipv4Addr o0 o1 o2 o3)) =
     show_nat (unat o3) @ [dot] @ show_nat (unat o2) @ [dot] @ show_nat (unat o1) @ [dot] @
     show_nat (unat o0) @ lit ''.in-addr.arpa''"
| "address_name (V6 ip) =
     concat (map (\<lambda>n. show_radix 16 (unat n) @ [dot])
                 (concat (map segment_nibbles (rev (segments ip))))) @
     lit ''ip6.arpa''"

subsection \<open>Display and \<open>FromStr\<close> of addresses in \<open>std::net\<close>\<close>

text \<open>\<^verbatim>\<open>format!("{}", ipv4)\<close>\<close>

fun show_ipv4 :: "ipv4_addr \<Rightarrow> ustr" where
  "show_ipv4 (Ipv4Addr a b c d) =
     show_nat (unat a) @ [dot] @ show_nat (unat b) @ [dot] @ show_nat (unat c) @ [dot] @
     show_nat (unat d)"

text \<open>
  The parser of \<^verbatim>\<open>core::net::parser\<close>: a reader takes a prefix of the text or fails
  without consuming anything. Octets have no superfluous leading zero; groups are one to four
  hexadecimal digits; an embedded IPv4 tail needs room for two groups.
\<close>

type_synonym 'a ip_reader = "ustr \<Rightarrow> ('a \<times> ustr) option"

definition read_number :: "nat \<Rightarrow> nat \<Rightarrow> bool \<Rightarrow> nat \<Rightarrow> nat ip_reader" where
  "read_number radix max_digits allow_zero_prefix limit s =
     (let ds = takeWhile (\<lambda>c. digit_val radix c \<noteq> None) s
      in if length ds > max_digits \<or> ds = [] then None
         else if \<not> allow_zero_prefix \<and> hd ds = 48 \<and> length ds > 1 then None
         else (case digits_val radix 0 ds of
                 None \<Rightarrow> None
               | Some v \<Rightarrow> if v < limit then Some (v, drop (length ds) s) else None))"

definition read_given_char :: "nat \<Rightarrow> unit ip_reader" where
  "read_given_char c s = (case s of [] \<Rightarrow> None | x # s' \<Rightarrow> if x = c then Some ((), s') else None)"

definition read_separator :: "nat \<Rightarrow> nat \<Rightarrow> 'a ip_reader \<Rightarrow> 'a ip_reader" where
  "read_separator c index inner s =
     (if index > 0
      then (case read_given_char c s of None \<Rightarrow> None | Some (_, s') \<Rightarrow> inner s')
      else inner s)"

primrec read_octets :: "nat \<Rightarrow> nat \<Rightarrow> nat list ip_reader" where
  "read_octets i 0 s = Some ([], s)"
| "read_octets i (Suc n) s =
     (case read_separator dot i (read_number 10 3 False 256) s of
        None \<Rightarrow> None
      | Some (v, s') \<Rightarrow>
          (case read_octets (Suc i) n s' of
             None \<Rightarrow> None
           | Some (vs, s'') \<Rightarrow> Some (v # vs, s'')))"

definition read_ipv4_addr :: "ipv4_addr ip_reader" where
  "read_ipv4_addr s =
     (case read_octets 0 4 s of
        Some ([a, b, c, d], s') \<Rightarrow>
          Some (Ipv4Addr (word_of_nat a) (word_of_nat b) (word_of_nat c) (word_of_nat d), s')
      | _ \<Rightarrow> None)"

primrec read_groups :: "nat \<Rightarrow> nat \<Rightarrow> ustr \<Rightarrow> u16 list \<times> bool \<times> ustr" where
  "read_groups i 0 s = ([], False, s)"
| "read_groups i (Suc n) s =
     (case (if 0 < n then read_separator colon i read_ipv4_addr s else None) of
        Some (Ipv4Addr a b c d, s') \<Rightarrow> ([u16_of_be a b, u16_of_be c d], True, s')
      | None \<Rightarrow>
          (case read_separator colon i (read_number 16 4 True 65536) s of
             None \<Rightarrow> ([], False, s)
           | Some (g, s') \<Rightarrow>
               (case read_groups (Suc i) n s' of
                  (gs, v4, s'') \<Rightarrow> (word_of_nat g # gs, v4, s''))))"

definition ipv6_of_list :: "u16 list \<Rightarrow> ipv6_addr option" where
  "ipv6_of_list gs =
     (case gs of [a, b, c, d, e, f, g, h] \<Rightarrow> Some (Ipv6Addr a b c d e f g h) | _ \<Rightarrow> None)"

definition read_ipv6_addr :: "ipv6_addr ip_reader" where
  "read_ipv6_addr s =
     (case read_groups 0 8 s of
        (head, head_ipv4, s1) \<Rightarrow>
          if length head = 8 then map_option (\<lambda>ip. (ip, s1)) (ipv6_of_list head)
          else if head_ipv4 then None
          else (case read_given_char colon s1 of
                  None \<Rightarrow> None
                | Some (_, s2) \<Rightarrow>
                    (case read_given_char colon s2 of
                       None \<Rightarrow> None
                     | Some (_, s3) \<Rightarrow>
                         (case read_groups 0 (8 - (length head + 1)) s3 of
                            (tail, _, s4) \<Rightarrow>
                              map_option (\<lambda>ip. (ip, s4))
                                (ipv6_of_list
                                  (head @ replicate (8 - length head - length tail) 0 @ tail))))))"

text \<open>\<^verbatim>\<open>str::parse\<close> for the three address types: the whole text must be read.\<close>

definition parse_whole :: "'a ip_reader \<Rightarrow> ustr \<Rightarrow> 'a option" where
  "parse_whole p s = (case p s of Some (a, []) \<Rightarrow> Some a | _ \<Rightarrow> None)"

definition parse_ipv4 :: "ustr \<Rightarrow> ipv4_addr option" where
  "parse_ipv4 s = (if length s > 15 then None else parse_whole read_ipv4_addr s)"

definition parse_ipv6 :: "ustr \<Rightarrow> ipv6_addr option" where
  "parse_ipv6 s = parse_whole read_ipv6_addr s"

definition parse_ip_addr :: "ustr \<Rightarrow> ip_addr option" where
  "parse_ip_addr s =
     parse_whole (\<lambda>s. case read_ipv4_addr s of
                         Some (ip, s') \<Rightarrow> Some (V4 ip, s')
                       | None \<Rightarrow> map_option (\<lambda>(ip, s'). (V6 ip, s')) (read_ipv6_addr s)) s"

subsection \<open>Comparison across families\<close>

lemma to_ipv4_mapped [simp]: "to_ipv4 (to_ipv6_mapped a) = Some a"
  by (cases a) (simp add: be_u16_roundtrip)

lemma to_ipv4_compatible [simp]: "to_ipv4 (to_ipv6_compatible a) = Some a"
  by (cases a) (simp add: be_u16_roundtrip)

lemma u16_of_be_of_u16: "be_of_u16 g = [a, b] \<Longrightarrow> u16_of_be a b = g"
  by (auto simp: be_of_u16_def)

lemma to_ipv4_Some_iff:
  "to_ipv4 b = Some a \<longleftrightarrow> b = to_ipv6_mapped a \<or> b = to_ipv6_compatible a"
proof
  assume "to_ipv4 b = Some a"
  then show "b = to_ipv6_mapped a \<or> b = to_ipv6_compatible a"
    by (cases b; cases a)
      (auto simp: be_of_u16_def split: if_splits)
qed auto

lemma address_equal_V4_V6:
  "address_equal (V4 a) (V6 b) \<longleftrightarrow> b = to_ipv6_mapped a \<or> b = to_ipv6_compatible a"
  using to_ipv4_Some_iff [of b a] by (auto split: option.splits)

lemma address_equal_sym: "address_equal a b = address_equal b a"
  by (cases a; cases b) auto

lemma address_equal_refl: "address_equal a a"
  by (cases a) auto

subsection \<open>The reverse lookup name\<close>

lemma word_nibble: "drop_bit k (s AND push_bit k (mask n)) = take_bit n (drop_bit k (s :: u16))"
  by (rule bit_eqI) (auto simp: bit_simps dest: bit_imp_le_length)

lemma segment_nibbles_unat:
  "map unat (segment_nibbles s) =
     [unat s mod 16, unat s div 16 mod 16, unat s div 256 mod 16, unat s div 4096 mod 16]"
proof -
  have n: "unat (take_bit 4 (drop_bit k s)) = unat s div 2 ^ k mod 16" for k
    by (simp only: unsigned_take_bit_eq unat_drop_bit_eq) (simp add: take_bit_eq_mod drop_bit_eq_div)
  have "(push_bit 4 (mask 4) :: u16) = 0x00f0" "(push_bit 8 (mask 4) :: u16) = 0x0f00"
    "(push_bit 12 (mask 4) :: u16) = 0xf000" "(mask 4 :: u16) = 0xf"
    by (simp_all add: mask_eq_exp_minus_1)
  then have eqs: "s AND 0xf = take_bit 4 (drop_bit 0 s)"
    "drop_bit 4 (s AND 0x00f0) = take_bit 4 (drop_bit 4 s)"
    "drop_bit 8 (s AND 0x0f00) = take_bit 4 (drop_bit 8 s)"
    "drop_bit 12 (s AND 0xf000) = take_bit 4 (drop_bit 12 s)"
    using word_nibble [of 0 s 4] word_nibble [of 4 s 4] word_nibble [of 8 s 4]
      word_nibble [of 12 s 4] by simp_all
  show ?thesis
    unfolding segment_nibbles_def eqs by (simp only: list.map n) simp
qed

lemma segment_nibbles_inj: "segment_nibbles s = segment_nibbles t \<Longrightarrow> s = t"
proof -
  assume "segment_nibbles s = segment_nibbles t"
  then have eq: "map unat (segment_nibbles s) = map unat (segment_nibbles t)" by simp
  have split: "n = n mod 16 + 16 * (n div 16 mod 16) + 256 * (n div 256 mod 16)
      + 4096 * (n div 4096 mod 16)" if "n < 65536" for n :: nat
  proof -
    have d: "n div 256 = n div 16 div 16" "n div 4096 = n div 16 div 16 div 16"
      by (simp_all flip: div_mult2_eq)
    have "n div 4096 mod 16 = n div 4096"
      using that by (simp add: less_mult_imp_div_less)
    then show ?thesis
      unfolding d
      using div_mult_mod_eq [of n 16] div_mult_mod_eq [of "n div 16" 16]
        div_mult_mod_eq [of "n div 16 div 16" 16] by linarith
  qed
  from eq have eqs: "unat s mod 16 = unat t mod 16" "unat s div 16 mod 16 = unat t div 16 mod 16"
    "unat s div 256 mod 16 = unat t div 256 mod 16" "unat s div 4096 mod 16 = unat t div 4096 mod 16"
    unfolding segment_nibbles_unat by simp_all
  have "unat s = unat t"
    by (subst split [OF unat_u16_lt [of s]], subst split [OF unat_u16_lt [of t]])
      (simp only: eqs)
  then show ?thesis by (simp add: word_unat_eq_iff)
qed

text \<open>The labels of the name, in order, and that the name is these labels joined by dots.\<close>

fun address_labels :: "ip_addr \<Rightarrow> ustr list" where
  "address_labels (V4 ip) = map (\<lambda>n. show_nat (unat n)) (rev (octets ip)) @ [lit ''in-addr'', lit ''arpa'']"
| "address_labels (V6 ip) =
     map (\<lambda>n. show_radix 16 (unat n)) (concat (map segment_nibbles (rev (segments ip)))) @
     [lit ''ip6'', lit ''arpa'']"

lemma join_append_dotted:
  "ys \<noteq> [] \<Longrightarrow> join c (map f xs @ ys) = concat (map (\<lambda>x. f x @ [c]) xs) @ join c ys"
  by (induction xs) (simp_all add: join_Cons)

lemma address_name_labels: "address_name a = join dot (address_labels a)"
proof (cases a)
  case (V4 ip)
  then show ?thesis
    by (cases ip) (simp add: lit_def)
next
  case (V6 ip)
  then show ?thesis by (simp add: join_append_dotted) (simp add: lit_def)
qed

lemma show_nat_no_dot [simp]: "dot \<notin> set (show_nat n)"
  using show_radix_chars [of 10 dot n] by auto

lemma show_hex_no_dot [simp]: "dot \<notin> set (show_radix 16 n)"
  using show_radix_chars [of 16 dot n] by auto

lemma address_labels_no_dot: "l \<in> set (address_labels a) \<Longrightarrow> dot \<notin> set l"
  by (cases a) (auto simp: lit_def)

lemma address_labels_nonempty [simp]: "address_labels a \<noteq> []"
  by (cases a) auto

lemma split_address_name: "split_on dot (address_name a) = address_labels a"
  by (simp add: address_name_labels split_on_join address_labels_no_dot)

lemma show_radix_inj: "2 \<le> r \<Longrightarrow> r \<le> 36 \<Longrightarrow> show_radix r m = show_radix r n \<Longrightarrow> m = n"
  by (metis digits_val_show_radix option.inject)

lemma map_show_inj:
  "2 \<le> r \<Longrightarrow> r \<le> 36 \<Longrightarrow>
   map (\<lambda>n. show_radix r (unat n)) xs = map (\<lambda>n. show_radix r (unat n)) ys \<Longrightarrow> xs = (ys :: 'a :: len word list)"
  by (erule map_inj_on) (auto intro!: inj_onI dest: show_radix_inj simp: word_unat_eq_iff)

lemma concat_nibbles_inj:
  "length xs = length ys \<Longrightarrow>
   concat (map segment_nibbles xs) = concat (map segment_nibbles ys) \<Longrightarrow> xs = ys"
proof (induction xs ys rule: list_induct2)
  case (Cons x xs y ys)
  have "length (segment_nibbles x) = length (segment_nibbles y)" by (simp add: segment_nibbles_def)
  with Cons show ?case by (auto dest: segment_nibbles_inj)
qed simp

lemma address_labels_family:
  "address_labels a ! (length (address_labels a) - 2) = (if is_ipv6 a then lit ''ip6'' else lit ''in-addr'')"
  by (cases a) (simp_all add: nth_append)

lemma address_labels_same_family:
  "address_labels a = address_labels b \<Longrightarrow> is_ipv6 a = is_ipv6 b"
  using address_labels_family [of a] address_labels_family [of b]
  by (simp split: if_splits) (simp_all add: lit_def)

lemma address_labels_inj_V4: "address_labels (V4 x) = address_labels (V4 y) \<Longrightarrow> x = y"
proof -
  assume "address_labels (V4 x) = address_labels (V4 y)"
  then have "map (\<lambda>n. show_nat (unat n)) (rev (octets x)) = map (\<lambda>n. show_nat (unat n)) (rev (octets y))"
    by simp
  then have "rev (octets x) = rev (octets y)" by (rule map_show_inj [where r = 10, rotated 2]) simp_all
  then show "x = y" by (cases x; cases y) simp
qed

lemma address_labels_inj_V6: "address_labels (V6 x) = address_labels (V6 y) \<Longrightarrow> x = y"
proof -
  assume "address_labels (V6 x) = address_labels (V6 y)"
  then have "map (\<lambda>n. show_radix 16 (unat n)) (concat (map segment_nibbles (rev (segments x)))) =
      map (\<lambda>n. show_radix 16 (unat n)) (concat (map segment_nibbles (rev (segments y))))"
    by (simp only: address_labels.simps append_same_eq)
  then have "concat (map segment_nibbles (rev (segments x))) = concat (map segment_nibbles (rev (segments y)))"
    by (rule map_show_inj [where r = 16, rotated 2]) simp_all
  moreover have "length (rev (segments x)) = length (rev (segments y))" by (cases x; cases y) simp
  ultimately have "rev (segments x) = rev (segments y)" by (rule concat_nibbles_inj [rotated])
  then show "x = y" by (cases x; cases y) simp
qed

lemma address_labels_inj: "address_labels a = address_labels b \<Longrightarrow> a = b"
  using address_labels_same_family [of a b] address_labels_inj_V4 address_labels_inj_V6
  by (cases a; cases b) (simp_all del: address_labels.simps)

lemma address_name_injective: "address_name a = address_name b \<Longrightarrow> a = b"
  by (metis split_address_name address_labels_inj)

subsection \<open>Reading back a printed IPv4 address\<close>

lemma takeWhile_digits_show:
  assumes "2 \<le> radix" and "radix \<le> 36" and "rest = [] \<or> digit_val radix (hd rest) = None"
  shows "takeWhile (\<lambda>c. digit_val radix c \<noteq> None) (show_radix radix n @ rest) = show_radix radix n"
proof -
  have "\<forall>c \<in> set (show_radix radix n). digit_val radix c \<noteq> None"
    using show_radix_digits [OF assms(1,2)] digit_val_digit_char assms(2) by fastforce
  moreover have "takeWhile (\<lambda>c. digit_val radix c \<noteq> None) rest = []"
    using assms(3) by (cases rest) auto
  ultimately show ?thesis by (subst takeWhile_append2) auto
qed

lemma digit_char_zero [simp]: "digit_char d = 48 \<longleftrightarrow> d = 0"
  by (auto simp: digit_char_def)

lemma show_nat_small:
  assumes "n < 256"
  shows "length (show_nat n) \<le> 3 \<and> (hd (show_nat n) = 48 \<longrightarrow> length (show_nat n) = 1)"
proof -
  consider "n < 10" | "10 \<le> n" "n < 100" | "100 \<le> n" by linarith
  then show ?thesis
  proof cases
    case 1
    then show ?thesis by (simp only: show_radix.simps [of 10 n]) simp
  next
    case 2
    then have "\<not> n < 10" "n div 10 < 10" "n div 10 \<noteq> 0" by auto
    then show ?thesis by (simp add: show_radix.simps [of 10 n] show_radix.simps [of 10 "n div 10"])
  next
    case 3
    with assms have "\<not> n < 10" "\<not> n div 10 < 10" "n div 10 div 10 < 10" "n div 10 div 10 \<noteq> 0"
      by auto
    then show ?thesis
      by (simp only: show_radix.simps [of 10 n] show_radix.simps [of 10 "n div 10"]
          show_radix.simps [of 10 "n div 10 div 10"]) simp
  qed
qed

lemma read_octet_show:
  assumes "n < 256" and "rest = [] \<or> digit_val 10 (hd rest) = None"
  shows "read_number 10 3 False 256 (show_nat n @ rest) = Some (n, rest)"
proof -
  from assms(2) have tw: "takeWhile (\<lambda>c. digit_val 10 c \<noteq> None) (show_nat n @ rest) = show_nat n"
    by (intro takeWhile_digits_show) auto
  then show ?thesis
    unfolding read_number_def Let_def tw
    using show_nat_small [OF assms(1)] assms(1) digits_val_show_radix [of 10 n] by auto
qed

lemma read_octets_show:
  "list_all (\<lambda>n. n < 256) ns \<Longrightarrow> rest = [] \<or> digit_val 10 (hd rest) = None \<Longrightarrow>
   read_octets (Suc i) (length ns) (concat (map (\<lambda>n. dot # show_nat n) ns) @ rest) = Some (ns, rest)"
proof (induction ns arbitrary: i)
  case Nil
  then show ?case by simp
next
  case (Cons n ns)
  let ?tail = "concat (map (\<lambda>n. dot # show_nat n) ns) @ rest"
  have "?tail = [] \<or> digit_val 10 (hd ?tail) = None"
    using Cons.prems(2) by (cases ns) (auto simp: digit_val_def)
  then have "read_number 10 3 False 256 (show_nat n @ ?tail) = Some (n, ?tail)"
    using Cons.prems(1) by (intro read_octet_show) auto
  with Cons show ?case
    by (simp add: read_separator_def read_given_char_def)
qed

lemma read_show_ipv4:
  assumes "rest = [] \<or> digit_val 10 (hd rest) = None"
  shows "read_ipv4_addr (show_ipv4 ip @ rest) = Some (ip, rest)"
proof (cases ip)
  case (Ipv4Addr a b c d)
  let ?tail = "concat (map (\<lambda>n. dot # show_nat n) [unat b, unat c, unat d]) @ rest"
  have "read_number 10 3 False 256 (show_nat (unat a) @ ?tail) = Some (unat a, ?tail)"
    by (intro read_octet_show) (simp_all add: digit_val_def)
  moreover have "read_octets (Suc 0) (Suc (Suc (Suc 0))) ?tail = Some ([unat b, unat c, unat d], rest)"
    using read_octets_show [of "[unat b, unat c, unat d]" rest 0] assms
    by (simp del: read_octets.simps)
  moreover have "(4 :: nat) = Suc (Suc (Suc (Suc 0)))" by simp
  ultimately have "read_octets 0 4 (show_ipv4 ip @ rest) = Some ([unat a, unat b, unat c, unat d], rest)"
    by (simp only: read_octets.simps(2) [of 0])
      (simp add: Ipv4Addr read_separator_def del: read_octets.simps)
  then show ?thesis by (simp add: read_ipv4_addr_def Ipv4Addr)
qed

subsection \<open>Properties\<close>

text \<open>Distinct addresses have distinct reverse-lookup names, across both families.\<close>

theorem address_name_inj: "inj address_name"
  by (rule injI) (rule address_name_injective)

text \<open>C32: Socket addresses compare equal across families exactly for the IPv4-mapped and the
  IPv4-compatible form of the address with the same port; the comparison is symmetric, whichever
  side is the IPv4 one.\<close>

theorem socket_address_equal_mixed:
  "(socket_address_equal (SockV4 a p) (SockV6 b q fl sc) \<longleftrightarrow>
     p = q \<and> (b = to_ipv6_mapped a \<or> b = to_ipv6_compatible a)) \<and>
   socket_address_equal x y = socket_address_equal y x"
  by (auto simp: socket_address_equal_def address_equal_V4_V6 address_equal_sym [of "sa_ip x" "sa_ip y"]
      simp del: address_equal.simps)

end
