(* ===== verification/DnsTypes.thy ===== *)
theory DnsTypes
  imports Address
begin

text \<open>
  The data of the DNS modules: classes and record types of \<^verbatim>\<open>resolve/record.rs\<close>, and the
  header, question, resource and message types of \<^verbatim>\<open>resolve/message.rs\<close> with their
  conversions, constructors and iterators.
\<close>

definition MESSAGE_LIMIT :: nat where "MESSAGE_LIMIT = 0xffff"
definition LABEL_LIMIT :: nat where "LABEL_LIMIT = 63"
definition NAME_LIMIT :: nat where "NAME_LIMIT = 255"

subsection \<open>Errors\<close>

datatype decode_error = ExtraneousData | ShortMessage | InvalidMessage | InvalidNameD

datatype encode_error = InvalidNameE | TooLong

fun show_decode_error :: "decode_error \<Rightarrow> ustr" where
  "show_decode_error ExtraneousData = lit ''extraneous data''"
| "show_decode_error ShortMessage = lit ''short message''"
| "show_decode_error InvalidMessage = lit ''invalid message''"
| "show_decode_error InvalidNameD = lit ''invalid name''"

fun show_encode_error :: "encode_error \<Rightarrow> ustr" where
  "show_encode_error InvalidNameE = lit ''invalid name value''"
| "show_encode_error TooLong = lit ''message too long''"

subsection \<open>Classes and record types (\<open>record.rs\<close>)\<close>

datatype dns_class = Internet | AnyClass | OtherClass u16

definition class_from_u16 :: "u16 \<Rightarrow> dns_class" where
  "class_from_u16 u = (if u = 1 then Internet else if u = 255 then AnyClass else OtherClass u)"

fun class_to_u16 :: "dns_class \<Rightarrow> u16" where
  "class_to_u16 Internet = 1"
| "class_to_u16 AnyClass = 255"
| "class_to_u16 (OtherClass n) = n"

datatype record_type =
  TyA | TyAAAA | TyCName | TyMx | TyNs | TyPtr | TySoa | TySrv | TyTxt | OtherType u16

definition record_type_from_u16 :: "u16 \<Rightarrow> record_type" where
  "record_type_from_u16 u =
     (if u = 1 then TyA else if u = 28 then TyAAAA else if u = 5 then TyCName
      else if u = 15 then TyMx else if u = 2 then TyNs else if u = 12 then TyPtr
      else if u = 6 then TySoa else if u = 33 then TySrv else if u = 16 then TyTxt
      else OtherType u)"

fun record_type_to_u16 :: "record_type \<Rightarrow> u16" where
  "record_type_to_u16 TyA = 1"
| "record_type_to_u16 TyAAAA = 28"
| "record_type_to_u16 TyCName = 5"
| "record_type_to_u16 TyMx = 15"
| "record_type_to_u16 TyNs = 2"
| "record_type_to_u16 TyPtr = 12"
| "record_type_to_u16 TySoa = 6"
| "record_type_to_u16 TySrv = 33"
| "record_type_to_u16 TyTxt = 16"
| "record_type_to_u16 (OtherType n) = n"

subsection \<open>Header fields (\<open>message.rs\<close>)\<close>

datatype qr = Query | Response

datatype op_code = OpQuery | OpStatus | OpNotify | OpUpdate | OpOther u8

definition op_from_u8 :: "u8 \<Rightarrow> op_code" where
  "op_from_u8 u =
     (if u = 0 then OpQuery else if u = 2 then OpStatus else if u = 4 then OpNotify
      else if u = 5 then OpUpdate else OpOther u)"

fun op_to_u8 :: "op_code \<Rightarrow> u8" where
  "op_to_u8 OpQuery = 0"
| "op_to_u8 OpStatus = 2"
| "op_to_u8 OpNotify = 4"
| "op_to_u8 OpUpdate = 5"
| "op_to_u8 (OpOther n) = n"

datatype r_code =
  NoError | FormatError | ServerFailure | NameError | NotImplemented | Refused | ROther u8

definition rcode_from_u8 :: "u8 \<Rightarrow> r_code" where
  "rcode_from_u8 u =
     (if u = 0 then NoError else if u = 1 then FormatError else if u = 2 then ServerFailure
      else if u = 3 then NameError else if u = 4 then NotImplemented else if u = 5 then Refused
      else ROther u)"

fun rcode_to_u8 :: "r_code \<Rightarrow> u8" where
  "rcode_to_u8 NoError = 0"
| "rcode_to_u8 FormatError = 1"
| "rcode_to_u8 ServerFailure = 2"
| "rcode_to_u8 NameError = 3"
| "rcode_to_u8 NotImplemented = 4"
| "rcode_to_u8 Refused = 5"
| "rcode_to_u8 (ROther n) = n"

fun rcode_get_error :: "r_code \<Rightarrow> ustr" where
  "rcode_get_error NoError = lit ''no error''"
| "rcode_get_error FormatError = lit ''format error''"
| "rcode_get_error ServerFailure = lit ''server failure''"
| "rcode_get_error NameError = lit ''no such name''"
| "rcode_get_error NotImplemented = lit ''not implemented''"
| "rcode_get_error Refused = lit ''refused''"
| "rcode_get_error (ROther n) = lit ''unknown response code''"

datatype dns_error = DnsError r_code

record header =
  h_id :: u16
  h_qr :: qr
  h_op :: op_code
  h_authoritative :: bool
  h_truncated :: bool
  h_recursion_desired :: bool
  h_recursion_available :: bool
  h_rcode :: r_code

text \<open>\<^verbatim>\<open>FullHeader\<close> repeats the fields of \<^verbatim>\<open>Header\<close> and adds the four counts.\<close>

record full_header = header +
  qd_count :: u16
  an_count :: u16
  ns_count :: u16
  ar_count :: u16

definition default_header :: header where
  "default_header =
     \<lparr>h_id = 0, h_qr = Query, h_op = OpQuery, h_authoritative = False, h_truncated = False,
      h_recursion_desired = False, h_recursion_available = False, h_rcode = NoError\<rparr>"

definition default_full_header :: full_header where
  "default_full_header =
     \<lparr>h_id = 0, h_qr = Query, h_op = OpQuery, h_authoritative = False, h_truncated = False,
      h_recursion_desired = False, h_recursion_available = False, h_rcode = NoError,
      qd_count = 0, an_count = 0, ns_count = 0, ar_count = 0\<rparr>"

definition to_header :: "full_header \<Rightarrow> header" where
  "to_header h =
     \<lparr>h_id = h_id h, h_qr = h_qr h, h_op = h_op h, h_authoritative = h_authoritative h,
      h_truncated = h_truncated h, h_recursion_desired = h_recursion_desired h,
      h_recursion_available = h_recursion_available h, h_rcode = h_rcode h\<rparr>"

definition header_with_id :: "u16 \<Rightarrow> header" where
  "header_with_id i = default_header\<lparr>h_id := i\<rparr>"

text \<open>
  \<^verbatim>\<open>generate_id\<close>: the thread-local counter, started at a random value, is read and
  stepped with \<^verbatim>\<open>wrapping_add\<close>.
\<close>

definition generate_id :: "u16 \<Rightarrow> u16 \<times> u16" where
  "generate_id cell = (cell, cell + 1)"

definition header_new :: "u16 \<Rightarrow> header \<times> u16" where
  "header_new cell =
     (case generate_id cell of (i, cell') \<Rightarrow> (default_header\<lparr>h_id := i\<rparr>, cell'))"

subsection \<open>Questions, resources, messages\<close>

record question =
  q_name :: ustr
  q_type :: record_type
  q_class :: dns_class

definition question_new :: "ustr \<Rightarrow> record_type \<Rightarrow> dns_class \<Rightarrow> question" where
  "question_new n t c = \<lparr>q_name = n, q_type = t, q_class = c\<rparr>"

text \<open>\<open>r_data\<close> is the message up to and including the record data, \<open>r_offset\<close> where it begins.\<close>

record resource =
  r_name :: ustr
  r_type :: record_type
  r_class :: dns_class
  r_ttl :: u32
  r_data :: bytes
  r_offset :: nat

definition resource_new :: "ustr \<Rightarrow> record_type \<Rightarrow> dns_class \<Rightarrow> u32 \<Rightarrow> resource" where
  "resource_new n t c ttl =
     \<lparr>r_name = n, r_type = t, r_class = c, r_ttl = ttl, r_data = [], r_offset = 0\<rparr>"

text \<open>\<^verbatim>\<open>&self.data[self.offset..]\<close> panics when the offset is past the end.\<close>

definition get_rdata :: "resource \<Rightarrow> (bytes, 'e) outcome" where
  "get_rdata r =
     (if r_offset r \<le> length (r_data r) then Ok (drop (r_offset r) (r_data r)) else Panic)"

record message =
  m_header :: header
  m_question :: "question list"
  m_answer :: "resource list"
  m_authority :: "resource list"
  m_additional :: "resource list"

definition message_with_id :: "u16 \<Rightarrow> message" where
  "message_with_id i =
     \<lparr>m_header = header_with_id i, m_question = [], m_answer = [], m_authority = [],
      m_additional = []\<rparr>"

definition message_new :: "u16 \<Rightarrow> message \<times> u16" where
  "message_new cell =
     (case header_new cell of
        (h, cell') \<Rightarrow>
          (\<lparr>m_header = h, m_question = [], m_answer = [], m_authority = [], m_additional = []\<rparr>,
           cell'))"

definition get_error :: "message \<Rightarrow> (unit, dns_error) outcome" where
  "get_error m =
     (if h_rcode (m_header m) = NoError then Ok () else Err (DnsError (h_rcode (m_header m))))"

text \<open>
  \<^verbatim>\<open>RecordIter\<close> and \<^verbatim>\<open>RecordIntoIter\<close>: three iterators, each advanced only when
  the ones before it are exhausted.
\<close>

type_synonym record_iter = "resource list \<times> resource list \<times> resource list"

definition message_records :: "message \<Rightarrow> record_iter" where
  "message_records m = (m_answer m, m_authority m, m_additional m)"

fun record_iter_next :: "record_iter \<Rightarrow> resource option \<times> record_iter" where
  "record_iter_next (r # a, b, c) = (Some r, (a, b, c))"
| "record_iter_next ([], r # b, c) = (Some r, ([], b, c))"
| "record_iter_next ([], [], r # c) = (Some r, ([], [], c))"
| "record_iter_next ([], [], []) = (None, ([], [], []))"

lemma record_iter_next_decreases:
  "(Some r, a', b', c') = record_iter_next (a, b, c) \<Longrightarrow>
   length a' + length b' + length c' < length a + length b + length c"
  by (cases "(a, b, c)" rule: record_iter_next.cases) auto

text \<open>Draining an iterator: \<^verbatim>\<open>while let Some(r) = it.next()\<close>.\<close>

function record_iter_collect :: "record_iter \<Rightarrow> resource list" where
  "record_iter_collect it =
     (case record_iter_next it of
        (None, _) \<Rightarrow> []
      | (Some r, it') \<Rightarrow> r # record_iter_collect it')"
  by pat_completeness auto
termination
  by (relation "measure (\<lambda>(a, b, c). length a + length b + length c)")
    (auto dest: record_iter_next_decreases)

declare record_iter_collect.simps [simp del]

subsection \<open>Facts\<close>

lemma class_roundtrip: "class_from_u16 (class_to_u16 c) = c \<longleftrightarrow> c \<notin> {OtherClass 1, OtherClass 255}"
  by (cases c) (auto simp: class_from_u16_def)

lemma class_to_from [simp]: "class_to_u16 (class_from_u16 u) = u"
  by (simp add: class_from_u16_def)

lemma record_type_to_from [simp]: "record_type_to_u16 (record_type_from_u16 u) = u"
  by (simp add: record_type_from_u16_def)

lemma op_to_from [simp]: "op_to_u8 (op_from_u8 u) = u"
  by (simp add: op_from_u8_def)

lemma rcode_to_from [simp]: "rcode_to_u8 (rcode_from_u8 u) = u"
  by (simp add: rcode_from_u8_def)

text \<open>
  A value is in canonical form when it is the one decoding produces: the catch-all constructor
  is not used for a code that has a name.
\<close>

definition canonical_class :: "dns_class \<Rightarrow> bool" where
  "canonical_class c \<longleftrightarrow> class_from_u16 (class_to_u16 c) = c"

definition canonical_type :: "record_type \<Rightarrow> bool" where
  "canonical_type t \<longleftrightarrow> record_type_from_u16 (record_type_to_u16 t) = t"

lemma record_iter_collect_steps:
  "record_iter_collect (r # a, b, c) = r # record_iter_collect (a, b, c)"
  "record_iter_collect ([], r # b, c) = r # record_iter_collect ([], b, c)"
  "record_iter_collect ([], [], r # c) = r # record_iter_collect ([], [], c)"
  "record_iter_collect ([], [], []) = []"
  by (subst record_iter_collect.simps, simp)+

lemma record_iter_collect_append: "record_iter_collect (a, b, c) = a @ b @ c"
proof (induction a)
  case Nil
  have "record_iter_collect ([], [], c) = c"
    by (induction c) (simp_all add: record_iter_collect_steps)
  then show ?case by (induction b) (simp_all add: record_iter_collect_steps)
qed (simp add: record_iter_collect_steps)

end
