(* ===== verification/Idna.thy ===== *)
theory Idna
  imports Text
begin

text \<open>
  \<^verbatim>\<open>resolve/idna.rs\<close>: conversion of a label or host name between its Unicode and its ASCII
  form. The punycode work is done by the external crate \<^verbatim>\<open>idna\<close>, whose two entry points are
  parameters here: \<open>domain_to_ascii\<close> (a result or an error) and \<open>domain_to_unicode\<close>
  (a text together with whether the conversion had no error).
\<close>

record idna_lib =
  domain_to_ascii :: "ustr \<Rightarrow> ustr option"
  domain_to_unicode :: "ustr \<Rightarrow> ustr \<times> bool"

definition to_ascii :: "idna_lib \<Rightarrow> ustr \<Rightarrow> ustr option" where
  "to_ascii L s = (if is_ascii s then Some s else domain_to_ascii L s)"

definition to_unicode :: "idna_lib \<Rightarrow> ustr \<Rightarrow> ustr option" where
  "to_unicode L s =
     (if list_ex (\<lambda>l. starts_with (lit ''xn--'') l) (split_on dot s)
      then (case domain_to_unicode L s of (u, ok) \<Rightarrow> if ok then Some u else None)
      else Some s)"

lemma to_ascii_ascii [simp]: "is_ascii s \<Longrightarrow> to_ascii L s = Some s"
  by (simp add: to_ascii_def)

lemma to_unicode_plain:
  "dot \<notin> set s \<Longrightarrow> \<not> starts_with (lit ''xn--'') s \<Longrightarrow> to_unicode L s = Some s"
  by (simp add: to_unicode_def split_on_no_sep)

text \<open>A library that converts nothing: what is left for names that are ASCII throughout.\<close>

definition ascii_idna :: idna_lib where
  "ascii_idna = \<lparr>domain_to_ascii = \<lambda>_. None, domain_to_unicode = \<lambda>s. (s, False)\<rparr>"

end
