(* ===== verification/MsgReader.thy ===== *)
theory MsgReader
  imports DnsTypes Idna
begin

unbundle bit_operations_syntax

text \<open>
  \<^verbatim>\<open>MsgReader\<close> of \<^verbatim>\<open>resolve/message.rs\<close>: a cursor over the bytes of one message.
  Every routine is a program over the reader state; the name reader follows compression
  pointers in a loop that is a least fixed point, so that a name that never ends is \<open>None\<close>.
\<close>

subsection \<open>The cursor\<close>

record msg_reader =
  rd_data :: bytes
  rd_pos :: nat

type_synonym 'a reading = "(msg_reader, decode_error, 'a) prog"

definition reader_new :: "bytes \<Rightarrow> msg_reader" where
  "reader_new data = \<lparr>rd_data = data, rd_pos = 0\<rparr>"

definition reader_with_offset :: "bytes \<Rightarrow> nat \<Rightarrow> msg_reader" where
  "reader_with_offset data offset = \<lparr>rd_data = data, rd_pos = offset\<rparr>"

text \<open>\<^verbatim>\<open>len - position\<close> on \<^verbatim>\<open>usize\<close>: a checked subtraction.\<close>

definition remaining :: "nat reading" where
  "remaining r =
     (if rd_pos r \<le> length (rd_data r) then Some (Ok (length (rd_data r) - rd_pos r), r)
      else Some (Panic, r))"

text \<open>
  \<^verbatim>\<open>read\<close> fills a buffer of \<open>n\<close> bytes. \<^verbatim>\<open>Cursor::read\<close> copies what there is and
  advances past it; anything short of the whole buffer is \<^verbatim>\<open>ShortMessage\<close>.
\<close>

definition reader_read :: "nat \<Rightarrow> bytes reading" where
  "reader_read n r =
     (let got = take n (drop (rd_pos r) (rd_data r));
          r' = r\<lparr>rd_pos := rd_pos r + length got\<rparr>
      in if length got = n then Some (Ok got, r') else Some (Err ShortMessage, r'))"

definition set_position :: "nat \<Rightarrow> unit reading" where
  "set_position p r = Some (Ok (), r\<lparr>rd_pos := p\<rparr>)"

definition position :: "nat reading" where
  "position r = Some (Ok (rd_pos r), r)"

definition read_byte :: "u8 reading" where
  "read_byte = pbind (reader_read 1) (\<lambda>buf. pret (hd buf))"

definition read_to_end :: "bytes reading" where
  "read_to_end = pbind remaining reader_read"

definition read_character_string :: "bytes reading" where
  "read_character_string = pbind read_byte (\<lambda>length_octet. reader_read (unat length_octet))"

definition read_u16 :: "u16 reading" where
  "read_u16 = pbind (reader_read 2) (\<lambda>buf. pret (u16_of_be (buf ! 0) (buf ! 1)))"

definition read_u32 :: "u32 reading" where
  "read_u32 =
     pbind (reader_read 4) (\<lambda>buf. pret (u32_of_be (buf ! 0) (buf ! 1) (buf ! 2) (buf ! 3)))"

text \<open>\<^verbatim>\<open>read_into\<close> appends to the caller's vector.\<close>

definition read_into :: "bytes \<Rightarrow> nat \<Rightarrow> bytes reading" where
  "read_into buf n = pbind (reader_read n) (\<lambda>got. pret (buf @ got))"

definition consume :: "nat \<Rightarrow> unit reading" where
  "consume n = pbind position (\<lambda>p. set_position (p + n))"

definition finish :: "unit reading" where
  "finish = pbind remaining (\<lambda>n. if n = 0 then pret () else pthrow ExtraneousData)"

subsection \<open>Names\<close>

definition is_valid_segment :: "ustr \<Rightarrow> bool" where
  "is_valid_segment s \<longleftrightarrow>
     \<not> (starts_with [hyphen] s \<or> ends_with [hyphen] s) \<and>
     list_all (\<lambda>c. \<not> (c = dot \<or> is_whitespace c \<or> is_control c)) s"

text \<open>The label is read into a 64-byte array, then appended to \<open>buf\<close> with a dot.\<close>

definition read_segment :: "idna_lib \<Rightarrow> ustr \<Rightarrow> nat \<Rightarrow> ustr reading" where
  "read_segment L buf len =
     (if len > 64 then ppanic
      else pbind (reader_read len) (\<lambda>seg.
        if \<not> list_all (\<lambda>b. b < 128) seg then pthrow InvalidNameD
        else if \<not> is_valid_segment (map unat seg) then pthrow InvalidNameD
        else (case to_unicode L (map unat seg) of
                None \<Rightarrow> pthrow InvalidNameD
              | Some label \<Rightarrow> pret (buf @ label @ [dot]))))"

definition pointer_offset :: "u8 \<Rightarrow> u8 \<Rightarrow> nat" where
  "pointer_offset len lo =
     unat (push_bit 8 (ucast (len AND 0b00111111)) OR ucast lo :: u64)"

text \<open>
  The loop of \<^verbatim>\<open>read_name\<close>. Its variables are \<open>restore\<close>, \<open>res\<close> and
  \<open>total_read\<close>; \<open>start_pos\<close> is fixed. The result is the text read so far and where
  to continue after the first pointer.
\<close>

partial_function (option) read_name_loop ::
  "idna_lib \<Rightarrow> nat \<Rightarrow> nat option \<Rightarrow> ustr \<Rightarrow> nat \<Rightarrow> (ustr \<times> nat option) reading" where
  "read_name_loop L start_pos restore res total_read r =
     pbind read_byte (\<lambda>len r0.
       if len = 0 then
         (if total_read + 1 > NAME_LIMIT then pthrow InvalidNameD r0 else pret (res, restore) r0)
       else if drop_bit 6 len = 0b11 then
         pbind read_byte (\<lambda>lo r1.
           if pointer_offset len lo \<ge> start_pos then pthrow InvalidNameD r1
           else read_name_loop L start_pos
                  (case restore of None \<Rightarrow> Some (rd_pos r1) | Some p \<Rightarrow> Some p)
                  res total_read (r1\<lparr>rd_pos := pointer_offset len lo\<rparr>)) r0
       else if drop_bit 6 len = 0b00 then
         (if total_read + 1 + unat len > NAME_LIMIT then pthrow InvalidNameD r0
          else pbind (read_segment L res (unat len)) (\<lambda>res' r1.
                 read_name_loop L start_pos restore res' (total_read + 1 + unat len) r1) r0)
       else pthrow InvalidMessage r0) r"

definition read_name :: "idna_lib \<Rightarrow> ustr reading" where
  "read_name L =
     pbind position (\<lambda>start_pos.
       pbind (read_name_loop L start_pos None [] 0) (\<lambda>(res, restore).
         pbind (case restore of Some pos \<Rightarrow> set_position pos | None \<Rightarrow> pret ()) (\<lambda>_.
           pret (if res = [] then [dot] else res))))"

subsection \<open>Header, questions, resources\<close>

definition read_header :: "full_header reading" where
  "read_header =
     pbind (reader_read 12) (\<lambda>buf.
       let flags0 = buf ! 2; flags1 = buf ! 3;
           qr = flags0 AND 0b10000000;
           op = flags0 AND 0b01111000;
           aa = flags0 AND 0b00000100;
           tc = flags0 AND 0b00000010;
           rd = flags0 AND 0b00000001;
           ra = flags1 AND 0b10000000;
           rc = flags1 AND 0b00001111
       in pret
         \<lparr>h_id = u16_of_be (buf ! 0) (buf ! 1),
          h_qr = (if qr = 0 then Query else Response),
          h_op = op_from_u8 op,
          h_authoritative = (aa \<noteq> 0),
          h_truncated = (tc \<noteq> 0),
          h_recursion_desired = (rd \<noteq> 0),
          h_recursion_available = (ra \<noteq> 0),
          h_rcode = rcode_from_u8 rc,
          qd_count = u16_of_be (buf ! 4) (buf ! 5),
          an_count = u16_of_be (buf ! 6) (buf ! 7),
          ns_count = u16_of_be (buf ! 8) (buf ! 9),
          ar_count = u16_of_be (buf ! 10) (buf ! 11)\<rparr>)"

definition read_question :: "idna_lib \<Rightarrow> question reading" where
  "read_question L =
     pbind (read_name L) (\<lambda>name.
       pbind (reader_read 4) (\<lambda>buf.
         pret \<lparr>q_name = name,
               q_type = record_type_from_u16 (u16_of_be (buf ! 0) (buf ! 1)),
               q_class = class_from_u16 (u16_of_be (buf ! 2) (buf ! 3))\<rparr>))"

text \<open>\<^verbatim>\<open>&data[..offset + length]\<close> panics when the message is shorter than that.\<close>

definition slice_to :: "nat \<Rightarrow> bytes reading" where
  "slice_to n r =
     (if n \<le> length (rd_data r) then Some (Ok (take n (rd_data r)), r) else Some (Panic, r))"

definition read_resource :: "idna_lib \<Rightarrow> resource reading" where
  "read_resource L =
     pbind (read_name L) (\<lambda>name.
       pbind (reader_read 10) (\<lambda>buf.
         let ty = u16_of_be (buf ! 0) (buf ! 1);
             cl = u16_of_be (buf ! 2) (buf ! 3);
             ttl = u32_of_be (buf ! 4) (buf ! 5) (buf ! 6) (buf ! 7);
             len = unat (u16_of_be (buf ! 8) (buf ! 9))
         in pbind position (\<lambda>offset.
              pbind (slice_to (offset + len)) (\<lambda>rdata.
                pbind (consume len) (\<lambda>_.
                  pret \<lparr>r_name = name, r_type = record_type_from_u16 ty,
                        r_class = class_from_u16 cl, r_ttl = ttl,
                        r_data = rdata, r_offset = offset\<rparr>)))))"

subsection \<open>What the primitive readers do\<close>

lemmas reader_defs = read_byte_def read_to_end_def read_character_string_def read_u16_def
  read_u32_def read_into_def consume_def finish_def

lemma reader_read_here:
  assumes "rd_data r = pre @ xs @ post" and "rd_pos r = length pre" and "length xs = n"
  shows "reader_read n r = Some (Ok xs, r\<lparr>rd_pos := length pre + n\<rparr>)"
  using assms by (simp add: reader_read_def Let_def)

lemma reader_read_OkD:
  assumes "reader_read n r = Some (Ok xs, r')"
  shows "xs = take n (drop (rd_pos r) (rd_data r)) \<and> length xs = n \<and>
    r' = r\<lparr>rd_pos := rd_pos r + n\<rparr> \<and> (rd_pos r \<le> length (rd_data r) \<longrightarrow> rd_pos r + n \<le> length (rd_data r))"
  using assms by (auto simp: reader_read_def Let_def split: if_splits)

lemma reader_read_short:
  "length (rd_data r) < rd_pos r + n \<Longrightarrow> 0 < n \<Longrightarrow> \<exists>r'. reader_read n r = Some (Err ShortMessage, r')"
  by (auto simp: reader_read_def Let_def)

lemma reader_read_defined: "reader_read n r \<noteq> None"
  by (simp add: reader_read_def Let_def)

lemma reader_read_no_panic: "reader_read n r \<noteq> Some (Panic, r')"
  by (simp add: reader_read_def Let_def)

lemma read_byte_here:
  assumes "rd_data r = pre @ b # post" and "rd_pos r = length pre"
  shows "read_byte r = Some (Ok b, r\<lparr>rd_pos := length pre + 1\<rparr>)"
  using assms reader_read_here [of r pre "[b]" post 1]
  by (simp add: read_byte_def outcome_simps)

lemma read_byte_eq:
  "read_byte r =
     (if rd_pos r < length (rd_data r)
      then Some (Ok (rd_data r ! rd_pos r), r\<lparr>rd_pos := rd_pos r + 1\<rparr>)
      else Some (Err ShortMessage, r))"
proof (cases "rd_pos r < length (rd_data r)")
  case True
  then have "take 1 (drop (rd_pos r) (rd_data r)) = [rd_data r ! rd_pos r]"
    by (simp add: take_Suc_conv_app_nth hd_drop_conv_nth take_Suc)
  with True show ?thesis by (simp add: read_byte_def reader_read_def Let_def pbind_def pret_def)
next
  case False
  then show ?thesis by (simp add: read_byte_def reader_read_def Let_def pbind_def pret_def)
qed

lemma read_u16_here:
  assumes "rd_data r = pre @ be_of_u16 x @ post" and "rd_pos r = length pre"
  shows "read_u16 r = Some (Ok x, r\<lparr>rd_pos := length pre + 2\<rparr>)"
  using reader_read_here [of r pre "be_of_u16 x" post 2] assms
  by (simp add: read_u16_def outcome_simps be_of_u16_def)

lemma read_u32_here:
  assumes "rd_data r = pre @ be_of_u32 x @ post" and "rd_pos r = length pre"
  shows "read_u32 r = Some (Ok x, r\<lparr>rd_pos := length pre + 4\<rparr>)"
  using reader_read_here [of r pre "be_of_u32 x" post 4] assms
  by (simp add: read_u32_def outcome_simps be_of_u32_def)

subsection \<open>Programs that read a known byte string\<close>

text \<open>
  \<open>reads m xs P\<close>: started in front of \<open>xs\<close>, wherever in a message that is, \<open>m\<close> consumes
  exactly \<open>xs\<close> and returns a value with \<open>P\<close>.
\<close>

definition reads :: "'a reading \<Rightarrow> bytes \<Rightarrow> ('a \<Rightarrow> bool) \<Rightarrow> bool" where
  "reads m xs P \<longleftrightarrow>
     (\<forall>r pre post. rd_data r = pre @ xs @ post \<longrightarrow> rd_pos r = length pre \<longrightarrow>
        (\<exists>y. m r = Some (Ok y, r\<lparr>rd_pos := length pre + length xs\<rparr>) \<and> P y))"

lemma readsI:
  assumes "\<And>r pre post. rd_data r = pre @ xs @ post \<Longrightarrow> rd_pos r = length pre \<Longrightarrow>
    \<exists>y. m r = Some (Ok y, r\<lparr>rd_pos := length pre + length xs\<rparr>) \<and> P y"
  shows "reads m xs P"
  using assms by (simp add: reads_def)

lemma readsE:
  assumes "reads m xs P" and "rd_data r = pre @ xs @ post" and "rd_pos r = length pre"
  obtains y where "m r = Some (Ok y, r\<lparr>rd_pos := length pre + length xs\<rparr>)" and "P y"
  using assms by (auto simp: reads_def)

lemma reads_bind:
  assumes m: "reads m xs P" and k: "\<And>a. P a \<Longrightarrow> reads (k a) ys Q"
  shows "reads (pbind m k) (xs @ ys) Q"
proof (rule readsI)
  fix r :: msg_reader and pre post assume r: "rd_data r = pre @ (xs @ ys) @ post" "rd_pos r = length pre"
  then obtain a where a: "m r = Some (Ok a, r\<lparr>rd_pos := length pre + length xs\<rparr>)" "P a"
    by (auto intro: readsE [OF m, of r pre "ys @ post"])
  obtain b where "k a (r\<lparr>rd_pos := length pre + length xs\<rparr>) =
      Some (Ok b, r\<lparr>rd_pos := length pre + length xs + length ys\<rparr>)" "Q b"
    using r by (auto intro: readsE [OF k [OF a(2)], of "r\<lparr>rd_pos := length pre + length xs\<rparr>" "pre @ xs" post])
  with a show "\<exists>b. pbind m k r = Some (Ok b, r\<lparr>rd_pos := length pre + length (xs @ ys)\<rparr>) \<and> Q b"
    by (simp add: outcome_simps add.assoc)
qed

lemma reads_pret: "P a \<Longrightarrow> reads (pret a) [] P"
  by (rule readsI) (simp add: pret_def)

lemma reads_map:
  assumes "reads m xs P" and "\<And>a. P a \<Longrightarrow> Q (f a)"
  shows "reads (pbind m (\<lambda>a. pret (f a))) xs Q"
  using reads_bind [OF assms(1), of "\<lambda>a. pret (f a)" "[]" Q] assms(2) by (simp add: reads_pret)

lemma reads_read: "length xs = n \<Longrightarrow> reads (reader_read n) xs (\<lambda>ys. ys = xs)"
  by (rule readsI) (simp add: reader_read_here)

lemma reads_byte: "reads read_byte [b] (\<lambda>y. y = b)"
  by (rule readsI) (simp add: read_byte_here)

lemma reads_u16: "reads read_u16 (be_of_u16 x) (\<lambda>y. y = x)"
  by (rule readsI) (simp add: read_u16_here)

lemma reads_u32: "reads read_u32 (be_of_u32 x) (\<lambda>y. y = x)"
  by (rule readsI) (simp add: read_u32_here)

lemma reads_character_string:
  assumes "length xs \<le> 255"
  shows "reads read_character_string (word_of_nat (length xs) # xs) (\<lambda>ys. ys = xs)"
proof -
  have "unat (word_of_nat (length xs) :: u8) = length xs" using assms by (simp add: unat_u8_of_nat)
  then show ?thesis
    using reads_bind [OF reads_byte, of "word_of_nat (length xs)" "\<lambda>b. reader_read (unat b)" xs "\<lambda>ys. ys = xs"]
    by (simp add: read_character_string_def reads_read)
qed

lemma reads_repeat:
  assumes "\<And>x. x \<in> set xs \<Longrightarrow> reads m (enc x) (P x)"
  shows "reads (prepeat (length xs) m) (concat (map enc xs)) (list_all2 P xs)"
  using assms
proof (induction xs)
  case Nil
  then show ?case by (simp add: reads_pret)
next
  case (Cons x xs)
  then have "reads (prepeat (length xs) m) (concat (map enc xs)) (list_all2 P xs)" by simp
  then have "reads (pbind (prepeat (length xs) m) (\<lambda>ys. pret (y # ys))) (concat (map enc xs))
      (list_all2 P (x # xs))" if "P x y" for y
    using that by (auto intro: reads_map)
  with Cons.prems show ?case by (auto intro: reads_bind)
qed

end
