(* ===== verification/NameReading.thy ===== *)
theory NameReading
  imports MsgReader
begin

text \<open>
  What \<open>read_name\<close> does: on a name written without compression it returns the labels; it
  never panics and keeps the cursor inside the message; it returns whenever the compression
  pointers it may follow form no cycle, and it does not return when it runs into a cycle.
\<close>

subsection \<open>Length octets\<close>

lemma unat_drop_bit_6: "unat (drop_bit 6 (w :: u8)) = unat w div 64"
  unfolding unat_drop_bit_eq by (simp add: drop_bit_eq_div)

lemma drop_bit_6_eq_0: "drop_bit 6 (w :: u8) = 0 \<longleftrightarrow> unat w < 64"
proof -
  have "drop_bit 6 w = 0 \<longleftrightarrow> unat w div 64 = 0"
    unfolding word_unat_eq_iff unat_drop_bit_6 by simp
  then show ?thesis by auto
qed

lemma drop_bit_6_eq_3: "drop_bit 6 (w :: u8) = 3 \<longleftrightarrow> 192 \<le> unat w"
proof -
  have "drop_bit 6 w = 3 \<longleftrightarrow> unat w div 64 = 3"
    unfolding word_unat_eq_iff unat_drop_bit_6 by simp
  also have "\<dots> \<longleftrightarrow> 192 \<le> unat w" using unat_u8_lt [of w] by linarith
  finally show ?thesis .
qed


subsection \<open>Reading an uncompressed name\<close>

text \<open>One label as it stands in a message: its length octet, then its characters.\<close>

definition label_bytes :: "ustr \<Rightarrow> bytes" where
  "label_bytes a = word_of_nat (str_len a) # as_bytes a"

text \<open>A label that the reader accepts, with the text it is turned into.\<close>

definition readable_label :: "idna_lib \<Rightarrow> ustr \<Rightarrow> ustr \<Rightarrow> bool" where
  "readable_label L a u \<longleftrightarrow>
     a \<noteq> [] \<and> length a \<le> LABEL_LIMIT \<and> is_ascii a \<and> is_valid_segment a \<and> to_unicode L a = Some u"

lemma length_as_bytes_ascii: "is_ascii a \<Longrightarrow> length (as_bytes a) = length a"
  by (simp add: as_bytes_ascii)

lemma readable_label_len:
  assumes "readable_label L a u"
  shows "unat (word_of_nat (length a) :: u8) = length a" and "(word_of_nat (length a) :: u8) \<noteq> 0"
    and "drop_bit 6 (word_of_nat (length a) :: u8) = 0" and "length a < 64"
proof -
  from assms show "length a < 64" by (simp add: readable_label_def LABEL_LIMIT_def)
  then show len: "unat (word_of_nat (length a) :: u8) = length a"
    by (simp add: unat_u8_of_nat)
  with assms show "(word_of_nat (length a) :: u8) \<noteq> 0"
    by (metis length_0_conv readable_label_def unsigned_0)
  from len \<open>length a < 64\<close> show "drop_bit 6 (word_of_nat (length a) :: u8) = 0"
    by (simp add: drop_bit_6_eq_0)
qed

lemma read_segment_here:
  assumes "readable_label L a u" and "rd_data r = pre @ as_bytes a @ post" and "rd_pos r = length pre"
  shows "read_segment L buf (length a) r =
    Some (Ok (buf @ u @ [dot]), r\<lparr>rd_pos := length pre + length a\<rparr>)"
proof -
  from assms(1) have a: "is_ascii a" "is_valid_segment a" "to_unicode L a = Some u" "length a \<le> 63"
    by (auto simp: readable_label_def LABEL_LIMIT_def)
  have "reader_read (length a) r = Some (Ok (as_bytes a), r\<lparr>rd_pos := length pre + length a\<rparr>)"
    using assms(2,3) by (rule reader_read_here) (simp add: a length_as_bytes_ascii)
  moreover have "list_all (\<lambda>b. b < 128) (as_bytes a)"
    using a(1) by (induction a) (simp_all add: utf8_char_def word_less_nat_alt unat_u8_of_nat)
  ultimately show ?thesis
    using a by (simp add: read_segment_def outcome_simps unat_as_bytes_ascii)
qed

definition encoded_len :: "ustr list \<Rightarrow> nat" where
  "encoded_len as = (\<Sum>a\<leftarrow>as. Suc (length a))"

lemma read_name_loop_label:
  assumes "readable_label L a u" and "rd_data r = pre @ label_bytes a @ post" and "rd_pos r = length pre"
    and "tot + 1 + length a \<le> NAME_LIMIT"
  shows "read_name_loop L start restore res tot r =
    read_name_loop L start restore (res @ u @ [dot]) (tot + 1 + length a)
      (r\<lparr>rd_pos := length pre + 1 + length a\<rparr>)"
proof -
  note len = readable_label_len [OF assms(1)]
  have ascii: "is_ascii a" using assms(1) by (simp add: readable_label_def)
  have "read_byte r = Some (Ok (word_of_nat (length a)), r\<lparr>rd_pos := length pre + 1\<rparr>)"
    using assms(2,3) ascii by (intro read_byte_here) (auto simp: label_bytes_def str_len_ascii)
  moreover have "read_segment L res (length a) (r\<lparr>rd_pos := length pre + 1\<rparr>) =
      Some (Ok (res @ u @ [dot]), r\<lparr>rd_pos := length pre + 1 + length a\<rparr>)"
    using read_segment_here [OF assms(1), of "r\<lparr>rd_pos := length pre + 1\<rparr>" "pre @ [word_of_nat (length a)]" post res]
      assms(2) ascii by (simp add: label_bytes_def str_len_ascii)
  ultimately show ?thesis
    using assms(4) len by (subst read_name_loop.simps) (simp add: outcome_simps)
qed

lemma read_name_loop_labels:
  assumes "list_all2 (readable_label L) as us"
    and "rd_data r = pre @ concat (map label_bytes as) @ 0 # post" and "rd_pos r = length pre"
    and "tot + encoded_len as + 1 \<le> NAME_LIMIT"
  shows "read_name_loop L start restore res tot r =
    Some (Ok (res @ concat (map (\<lambda>u. u @ [dot]) us), restore),
          r\<lparr>rd_pos := length pre + encoded_len as + 1\<rparr>)"
  using assms
proof (induction as us arbitrary: res tot r pre rule: list_all2_induct)
  case Nil
  then have "read_byte r = Some (Ok 0, r\<lparr>rd_pos := length pre + 1\<rparr>)"
    by (intro read_byte_here) auto
  with Nil show ?case
    by (subst read_name_loop.simps) (simp add: outcome_simps encoded_len_def)
next
  case (Cons a as u us)
  have alen: "length (as_bytes a) = length a"
    using Cons.hyps(1) by (simp add: readable_label_def length_as_bytes_ascii)
  have "read_name_loop L start restore res tot r =
      read_name_loop L start restore (res @ u @ [dot]) (tot + 1 + length a)
        (r\<lparr>rd_pos := length pre + 1 + length a\<rparr>)"
    using Cons.prems by (intro read_name_loop_label [OF Cons.hyps(1)]) (auto simp: encoded_len_def)
  also have "\<dots> = Some (Ok ((res @ u @ [dot]) @ concat (map (\<lambda>u. u @ [dot]) us), restore),
          (r\<lparr>rd_pos := length pre + 1 + length a\<rparr>)
            \<lparr>rd_pos := length (pre @ label_bytes a) + encoded_len as + 1\<rparr>)"
    using Cons.prems alen by (intro Cons.IH) (auto simp: label_bytes_def encoded_len_def)
  finally show ?case using alen by (simp add: label_bytes_def encoded_len_def)
qed

lemma read_name_here:
  assumes "list_all2 (readable_label L) as us"
    and "rd_data r = pre @ concat (map label_bytes as) @ 0 # post" and "rd_pos r = length pre"
    and "encoded_len as + 1 \<le> NAME_LIMIT"
  shows "read_name L r =
    Some (Ok (if us = [] then [dot] else concat (map (\<lambda>u. u @ [dot]) us)),
          r\<lparr>rd_pos := length pre + encoded_len as + 1\<rparr>)"
  using read_name_loop_labels [OF assms(1-3), of 0 "rd_pos r" None "[]"] assms(4)
  by (cases us) (simp_all add: read_name_def position_def outcome_simps)

subsection \<open>One round of the loop\<close>

text \<open>The target of the compression pointer at a position, if there is one.\<close>

definition pointer_at :: "bytes \<Rightarrow> nat \<Rightarrow> nat option" where
  "pointer_at data p =
     (if p + 1 < length data \<and> drop_bit 6 (data ! p) = 3
      then Some (pointer_offset (data ! p) (data ! (p + 1))) else None)"

lemma read_segment_cases:
  assumes "n \<le> 64"
  obtains (Read) buf' where "read_segment L buf n r = Some (Ok buf', r\<lparr>rd_pos := rd_pos r + n\<rparr>)"
      and "rd_pos r \<le> length (rd_data r) \<longrightarrow> rd_pos r + n \<le> length (rd_data r)"
  | (Fail) e r' where "read_segment L buf n r = Some (Err e, r')" and "rd_data r' = rd_data r"
proof (cases "length (take n (drop (rd_pos r) (rd_data r))) = n")
  case True
  let ?seg = "take n (drop (rd_pos r) (rd_data r))"
  have rd: "reader_read n r = Some (Ok ?seg, r\<lparr>rd_pos := rd_pos r + n\<rparr>)"
    using True by (simp add: reader_read_def Let_def)
  show thesis
  proof (cases "list_all (\<lambda>b. b < 128) ?seg \<and> is_valid_segment (map unat ?seg) \<and>
      to_unicode L (map unat ?seg) \<noteq> None")
    case True
    then obtain u where u: "to_unicode L (map unat ?seg) = Some u" by blast
    with True rd assms have "read_segment L buf n r = Some (Ok (buf @ u @ [dot]), r\<lparr>rd_pos := rd_pos r + n\<rparr>)"
      by (simp add: read_segment_def outcome_simps)
    then show thesis by (rule Read) (use reader_read_OkD [OF rd] in simp)
  next
    case False
    with rd assms have "read_segment L buf n r = Some (Err InvalidNameD, r\<lparr>rd_pos := rd_pos r + n\<rparr>)"
      by (auto simp: read_segment_def outcome_simps split: option.splits)
    then show thesis by (rule Fail) simp
  qed
next
  case False
  let ?r' = "r\<lparr>rd_pos := rd_pos r + length (take n (drop (rd_pos r) (rd_data r)))\<rparr>"
  have "reader_read n r = Some (Err ShortMessage, ?r')"
    unfolding reader_read_def Let_def using False by (rule if_not_P)
  with assms have "read_segment L buf n r = Some (Err ShortMessage, ?r')"
    by (simp add: read_segment_def outcome_simps)
  then show thesis by (rule Fail) simp
qed

text \<open>
  The body of the loop over a function \<open>f\<close> that stands for the recursive call, and the
  four ways one round can go.
\<close>

definition name_body ::
  "(idna_lib \<Rightarrow> nat \<Rightarrow> nat option \<Rightarrow> ustr \<Rightarrow> nat \<Rightarrow> (ustr \<times> nat option) reading) \<Rightarrow>
   idna_lib \<Rightarrow> nat \<Rightarrow> nat option \<Rightarrow> ustr \<Rightarrow> nat \<Rightarrow> (ustr \<times> nat option) reading" where
  "name_body f L start_pos restore res total_read r =
     pbind read_byte (\<lambda>len r0.
       if len = 0 then
         (if total_read + 1 > NAME_LIMIT then pthrow InvalidNameD r0 else pret (res, restore) r0)
       else if drop_bit 6 len = 0b11 then
         pbind read_byte (\<lambda>lo r1.
           if pointer_offset len lo \<ge> start_pos then pthrow InvalidNameD r1
           else f L start_pos
                  (case restore of None \<Rightarrow> Some (rd_pos r1) | Some p \<Rightarrow> Some p)
                  res total_read (r1\<lparr>rd_pos := pointer_offset len lo\<rparr>)) r0
       else if drop_bit 6 len = 0b00 then
         (if total_read + 1 + unat len > NAME_LIMIT then pthrow InvalidNameD r0
          else pbind (read_segment L res (unat len)) (\<lambda>res' r1.
                 f L start_pos restore res' (total_read + 1 + unat len) r1) r0)
       else pthrow InvalidMessage r0) r"

lemma read_name_loop_unfold:
  "read_name_loop L start restore res tot r = name_body read_name_loop L start restore res tot r"
  unfolding name_body_def by (rule read_name_loop.simps)

lemma name_body_cases:
  obtains (Stop) e r' where "name_body f L start restore res tot r = Some (Err e, r')"
      and "rd_data r' = rd_data r"
  | (Done) "name_body f L start restore res tot r = Some (Ok (res, restore), r\<lparr>rd_pos := rd_pos r + 1\<rparr>)"
      and "rd_pos r < length (rd_data r)"
  | (Pointer) t where "pointer_at (rd_data r) (rd_pos r) = Some t" and "t < start"
      and "name_body f L start restore res tot r =
        f L start (Some (case restore of None \<Rightarrow> rd_pos r + 2 | Some p \<Rightarrow> p)) res tot (r\<lparr>rd_pos := t\<rparr>)"
  | (Label) n res' where "0 < n" and "tot + 1 + n \<le> NAME_LIMIT"
      and "rd_pos r + 1 + n \<le> length (rd_data r)"
      and "name_body f L start restore res tot r =
        f L start restore res' (tot + 1 + n) (r\<lparr>rd_pos := rd_pos r + 1 + n\<rparr>)"
proof (cases "rd_pos r < length (rd_data r)")
  case False
  then have "name_body f L start restore res tot r = Some (Err ShortMessage, r)"
    by (simp add: name_body_def read_byte_eq outcome_simps)
  then show thesis by (rule Stop) simp
next
  case True
  define len where "len = rd_data r ! rd_pos r"
  define r0 where "r0 = r\<lparr>rd_pos := rd_pos r + 1\<rparr>"
  have rb: "read_byte r = Some (Ok len, r0)"
    using True by (simp add: read_byte_eq len_def r0_def)
  note body = pbind_Ok [where m = read_byte and s = r, OF rb]
  consider "len = 0" | "len \<noteq> 0" "drop_bit 6 len = 3" | "len \<noteq> 0" "drop_bit 6 len = 0"
    | "len \<noteq> 0" "drop_bit 6 len \<noteq> 3" "drop_bit 6 len \<noteq> 0" by blast
  then show thesis
  proof cases
    case 1
    show thesis
    proof (cases "tot + 1 > NAME_LIMIT")
      case True
      with 1 have "name_body f L start restore res tot r = Some (Err InvalidNameD, r0)"
        by (simp add: name_body_def body outcome_simps)
      then show thesis by (rule Stop) (simp add: r0_def)
    next
      case False
      with 1 show thesis
        by (intro Done \<open>rd_pos r < _\<close>) (auto simp: name_body_def body outcome_simps r0_def)
    qed
  next
    case 2
    show thesis
    proof (cases "rd_pos r + 1 < length (rd_data r)")
      case False
      then have "read_byte r0 = Some (Err ShortMessage, r0)" by (simp add: read_byte_eq r0_def)
      with 2 have "name_body f L start restore res tot r = Some (Err ShortMessage, r0)"
        by (simp add: name_body_def body outcome_simps)
      then show thesis by (rule Stop) (simp add: r0_def)
    next
      case in_range: True
      define lo where "lo = rd_data r ! (rd_pos r + 1)"
      have lo: "read_byte r0 = Some (Ok lo, r\<lparr>rd_pos := rd_pos r + 2\<rparr>)"
        using in_range by (simp add: read_byte_eq r0_def lo_def)
      have pt: "pointer_at (rd_data r) (rd_pos r) = Some (pointer_offset len lo)"
        using in_range 2 by (simp add: pointer_at_def len_def lo_def)
      show thesis
      proof (cases "pointer_offset len lo < start")
        case True
        with 2 lo show thesis
          by (intro Pointer [OF pt]) (auto simp: name_body_def body outcome_simps split: option.splits)
      next
        case False
        with 2 lo have "name_body f L start restore res tot r = Some (Err InvalidNameD, r\<lparr>rd_pos := rd_pos r + 2\<rparr>)"
        by (simp add: name_body_def body outcome_simps)
      then show thesis by (rule Stop) (simp add: r0_def)
      qed
    qed
  next
    case 3
    then have n: "0 < unat len" "unat len \<le> 64"
      by (auto simp: drop_bit_6_eq_0 unat_gt_0)
    show thesis
    proof (cases "tot + 1 + unat len > NAME_LIMIT")
      case True
      with 3 have "name_body f L start restore res tot r = Some (Err InvalidNameD, r0)"
        by (simp add: name_body_def body outcome_simps)
      then show thesis by (rule Stop) (simp add: r0_def)
    next
      case small: False
      from n(2) show thesis
      proof (cases rule: read_segment_cases [where L = L and buf = res and r = r0])
        case (Read buf')
        with 3 small n True show thesis
          by (intro Label [of "unat len" buf']) (auto simp: name_body_def body outcome_simps r0_def)
      next
        case (Fail e r')
        with 3 small have "name_body f L start restore res tot r = Some (Err e, r')"
        by (simp add: name_body_def body outcome_simps)
      then show thesis by (rule Stop) (use Fail(2) in \<open>simp add: r0_def\<close>)
      qed
    qed
  next
    case 4
    then have "name_body f L start restore res tot r = Some (Err InvalidMessage, r0)"
        by (simp add: name_body_def body outcome_simps)
      then show thesis by (rule Stop) (simp add: r0_def)
  qed
qed

subsection \<open>Safety: no panic, and the cursor stays inside the message\<close>

text \<open>
  Where the cursor and the remembered return position are, relative to the start of the name.
\<close>

definition name_cursor :: "nat \<Rightarrow> nat option \<Rightarrow> msg_reader \<Rightarrow> bool" where
  "name_cursor start restore r \<longleftrightarrow>
     start \<le> length (rd_data r) \<and> rd_pos r \<le> length (rd_data r) \<and>
     (case restore of None \<Rightarrow> start \<le> rd_pos r | Some p \<Rightarrow> start < p \<and> p \<le> length (rd_data r))"

lemma name_cursor_data: "name_cursor start restore r \<Longrightarrow> rd_pos r \<le> length (rd_data r)"
  by (simp add: name_cursor_def)

lemma pointer_at_range: "pointer_at data p = Some t \<Longrightarrow> p + 1 < length data"
  by (simp add: pointer_at_def split: if_splits)

definition name_result :: "nat \<Rightarrow> bytes \<Rightarrow> (ustr \<times> nat option, decode_error) outcome \<times> msg_reader \<Rightarrow> bool" where
  "name_result start data y \<longleftrightarrow>
     (case y of (out, r') \<Rightarrow>
        rd_data r' = data \<and>
        (case out of
           Ok (res, restore) \<Rightarrow>
             (case restore of
                None \<Rightarrow> start < rd_pos r' \<and> rd_pos r' \<le> length data
              | Some p \<Rightarrow> start < p \<and> p \<le> length data)
         | Err e \<Rightarrow> True
         | Panic \<Rightarrow> False))"

lemma read_name_loop_result:
  assumes ret: "read_name_loop L start restore res tot r = Some y" and cur: "name_cursor start restore r"
  shows "name_result start (rd_data r) y"
proof -
  have "name_cursor start restore r \<longrightarrow> name_result start (rd_data r) y"
  proof (rule read_name_loop.raw_induct
      [where P = "\<lambda>L start restore res tot r y. name_cursor start restore r \<longrightarrow> name_result start (rd_data r) y",
        OF _ ret], fold name_body_def, rule impI)
    fix f L start restore res tot r y
    assume IH: "\<And>L start restore res tot r y. f L start restore res tot r = Some y \<Longrightarrow>
        name_cursor start restore r \<longrightarrow> name_result start (rd_data r) y"
      and body: "name_body f L start restore res tot r = Some y"
      and cur: "name_cursor start restore r"
    show "name_result start (rd_data r) y"
    proof (cases rule: name_body_cases [of f L start restore res tot r])
      case (Stop e r')
      with body show ?thesis by (auto simp: name_result_def)
    next
      case Done
      with body cur show ?thesis by (auto simp: name_result_def name_cursor_def split: option.splits)
    next
      case (Pointer t)
      with cur have "name_cursor start (Some (case restore of None \<Rightarrow> rd_pos r + 2 | Some p \<Rightarrow> p)) (r\<lparr>rd_pos := t\<rparr>)"
        by (auto simp: name_cursor_def dest: pointer_at_range split: option.splits)
      moreover have "f L start (Some (case restore of None \<Rightarrow> rd_pos r + 2 | Some p \<Rightarrow> p)) res tot
          (r\<lparr>rd_pos := t\<rparr>) = Some y"
        using Pointer(3) body by metis
      ultimately show ?thesis using IH by fastforce
    next
      case (Label n res')
      with cur have "name_cursor start restore (r\<lparr>rd_pos := rd_pos r + 1 + n\<rparr>)"
        by (auto simp: name_cursor_def split: option.splits)
      moreover have "f L start restore res' (tot + 1 + n) (r\<lparr>rd_pos := rd_pos r + 1 + n\<rparr>) = Some y"
        using Label(4) body by metis
      ultimately show ?thesis using IH by fastforce
    qed
  qed
  with cur show ?thesis by blast
qed

lemma read_name_loop_no_panic: "read_name_loop L start restore res tot r \<noteq> Some (Panic, r')"
proof
  assume ret: "read_name_loop L start restore res tot r = Some (Panic, r')"
  have "fst (Panic :: (ustr \<times> nat option, decode_error) outcome, r') \<noteq> Panic"
  proof (rule read_name_loop.raw_induct [where P = "\<lambda>L start restore res tot r y. fst y \<noteq> Panic", OF _ ret],
      fold name_body_def)
    fix f L start restore res tot r y
    assume "\<And>L start restore res tot r y. f L start restore res tot r = Some y \<Longrightarrow> fst y \<noteq> Panic"
      and "name_body f L start restore res tot r = Some y"
    then show "fst y \<noteq> Panic"
      by (cases rule: name_body_cases [of f L start restore res tot r]) fastforce+
  qed
  then show False by simp
qed

lemma read_name_no_panic: "read_name L r \<noteq> Some (Panic, r')"
  by (auto simp: read_name_def position_def set_position_def pret_def elim!: pbind_cases
      dest!: read_name_loop_no_panic [THEN notE] split: option.splits)

text \<open>A name that was read: the cursor moved forward and stays inside the message.\<close>

lemma read_name_progress:
  assumes "read_name L r = Some (Ok name, r')" and "rd_pos r \<le> length (rd_data r)"
  shows "rd_data r' = rd_data r \<and> rd_pos r < rd_pos r' \<and> rd_pos r' \<le> length (rd_data r')"
proof -
  from assms(1) obtain res restore r1 where
    loop: "read_name_loop L (rd_pos r) None [] 0 r = Some (Ok (res, restore), r1)"
    and rest: "(case restore of Some pos \<Rightarrow> set_position pos | None \<Rightarrow> pret ()) r1 = Some (Ok (), r')"
    by (auto simp: read_name_def position_def pret_def elim!: pbind_OkE split: prod.splits)
  have "name_result (rd_pos r) (rd_data r) (Ok (res, restore), r1)"
    using loop by (rule read_name_loop_result) (use assms(2) in \<open>simp add: name_cursor_def\<close>)
  with rest show ?thesis
    by (auto simp: name_result_def set_position_def pret_def split: option.splits)
qed

subsection \<open>Termination\<close>

text \<open>
  The pointers the loop may follow when the name starts at \<open>start\<close>: the check of the
  code only asks that the target lies before the start of the name.
\<close>

definition pointer_rel :: "bytes \<Rightarrow> nat \<Rightarrow> (nat \<times> nat) set" where
  "pointer_rel data start = {(t, p). pointer_at data p = Some t \<and> t < start}"

lemma read_name_loop_returns:
  assumes "wf (pointer_rel data start)" and "rd_data r = data"
  shows "read_name_loop L start restore res tot r \<noteq> None"
proof -
  let ?R = "inv_image (less_than <*lex*> pointer_rel data start)
              (\<lambda>(tot, r). (NAME_LIMIT - tot, rd_pos r))"
  have "wf ?R" using assms(1) by (intro wf_inv_image wf_lex_prod wf_less_than)
  then show ?thesis using assms(2)
  proof (induction "(tot, r)" arbitrary: restore res tot r rule: wf_induct_rule)
    case less
    show ?case
    proof (cases rule: name_body_cases [of read_name_loop L start restore res tot r])
      case (Pointer t)
      with less.prems have "((tot, r\<lparr>rd_pos := t\<rparr>), (tot, r)) \<in> ?R"
        by (simp add: pointer_rel_def)
      with Pointer less.prems show ?thesis
        unfolding read_name_loop_unfold [of L start restore res tot r]
        by (simp add: less.hyps)
    next
      case (Label n res')
      then have "((tot + 1 + n, r\<lparr>rd_pos := rd_pos r + 1 + n\<rparr>), (tot, r)) \<in> ?R" by auto
      with Label less.prems show ?thesis
        unfolding read_name_loop_unfold [of L start restore res tot r]
        by (simp add: less.hyps)
    qed (simp_all add: read_name_loop_unfold)
  qed
qed

lemma read_name_returns:
  assumes "wf (pointer_rel (rd_data r) (rd_pos r))"
  shows "read_name L r \<noteq> None"
proof -
  have "read_name_loop L (rd_pos r) None [] 0 r \<noteq> None"
    using assms by (rule read_name_loop_returns) simp
  then show ?thesis
    by (auto simp: read_name_def position_def set_position_def pbind_def pret_def
        split: option.splits outcome.splits prod.splits)
qed

text \<open>
  Pointers as RFC 1035 has them, to a prior occurrence: each target lies before its pointer.
  Then there is no cycle.
\<close>

definition pointers_backward :: "bytes \<Rightarrow> bool" where
  "pointers_backward data \<longleftrightarrow>
     (\<forall>p < length data. case pointer_at data p of None \<Rightarrow> True | Some t \<Rightarrow> t < p)"

lemma pointers_backward_wf:
  assumes "pointers_backward data"
  shows "wf (pointer_rel data start)"
proof (rule wf_subset [OF wf_less_than])
  show "pointer_rel data start \<subseteq> less_than"
  proof (clarsimp simp: pointer_rel_def)
    fix t p assume pt: "pointer_at data p = Some t"
    then have "p < length data" by (simp add: pointer_at_def split: if_splits)
    with assms pt show "t < p" by (auto simp: pointers_backward_def)
  qed
qed

subsection \<open>Non-termination on a pointer cycle\<close>

text \<open>
  A set of positions, each holding a pointer into the set that the check lets through: once
  the loop is in such a set, it never returns.
\<close>

definition pointer_trap :: "bytes \<Rightarrow> nat \<Rightarrow> nat set \<Rightarrow> bool" where
  "pointer_trap data start C \<longleftrightarrow>
     (\<forall>p \<in> C. \<exists>t \<in> C. pointer_at data p = Some t \<and> t < start)"

lemma name_body_pointer:
  assumes "pointer_at (rd_data r) (rd_pos r) = Some t" and "t < start"
  shows "name_body f L start restore res tot r =
    f L start (Some (case restore of None \<Rightarrow> rd_pos r + 2 | Some p \<Rightarrow> p)) res tot (r\<lparr>rd_pos := t\<rparr>)"
proof -
  have "rd_data r ! rd_pos r \<noteq> 0"
    using assms(1) by (auto simp: pointer_at_def drop_bit_6_eq_3 split: if_splits)
  then show ?thesis using assms
    by (auto simp: name_body_def read_byte_eq pointer_at_def outcome_simps
        split: if_splits option.splits)
qed

lemma read_name_loop_trapped:
  assumes "pointer_trap data start C" and "rd_pos r \<in> C" and "rd_data r = data"
  shows "read_name_loop L start restore res tot r = None"
proof (rule ccontr)
  assume "read_name_loop L start restore res tot r \<noteq> None"
  then obtain y where ret: "read_name_loop L start restore res tot r = Some y" by blast
  have "\<not> (start = start \<and> rd_pos r \<in> C \<and> rd_data r = data)"
  proof (rule read_name_loop.raw_induct
      [where P = "\<lambda>L s restore res tot r y. \<not> (s = start \<and> rd_pos r \<in> C \<and> rd_data r = data)", OF _ ret],
      fold name_body_def, rule notI)
    fix f L s restore res tot r y
    assume IH: "\<And>L s restore res tot r y. f L s restore res tot r = Some y \<Longrightarrow>
        \<not> (s = start \<and> rd_pos r \<in> C \<and> rd_data r = data)"
      and body: "name_body f L s restore res tot r = Some y"
      and here: "s = start \<and> rd_pos r \<in> C \<and> rd_data r = data"
    from assms(1) here obtain t where t: "t \<in> C" "pointer_at (rd_data r) (rd_pos r) = Some t" "t < s"
      by (auto simp: pointer_trap_def)
    from name_body_pointer [OF t(2,3)] body
    have "f L s (Some (case restore of None \<Rightarrow> rd_pos r + 2 | Some p \<Rightarrow> p)) res tot (r\<lparr>rd_pos := t\<rparr>) = Some y"
      by metis
    then show False using IH here t(1) by fastforce
  qed
  with assms(2,3) show False by blast
qed

lemma read_name_trapped:
  assumes "pointer_trap (rd_data r) (rd_pos r) C"
    and "pointer_at (rd_data r) (rd_pos r) = Some t" and "t < rd_pos r" and "t \<in> C"
  shows "read_name L r = None"
proof -
  have "read_name_loop L (rd_pos r) None [] 0 r = None"
    unfolding read_name_loop_unfold [of L "rd_pos r" None "[]" 0 r] name_body_pointer [OF assms(2,3)]
    by (rule read_name_loop_trapped [OF assms(1)]) (use assms(4) in simp_all)
  then show ?thesis by (simp add: read_name_def position_def outcome_simps)
qed

end
