(* ===== verification/MsgWriter.thy ===== *)
theory MsgWriter
  imports NameReading
begin

unbundle bit_operations_syntax

text \<open>
  \<^verbatim>\<open>MsgWriter\<close> of \<^verbatim>\<open>resolve/message.rs\<close>: a cursor over a caller's buffer.
  The routines are translated one by one; then the buffer is shown to be a byte sink of
  bounded room (a locale interface), and each routine to emit a known byte string: it succeeds
  exactly when the string fits.
\<close>

subsection \<open>The cursor\<close>

record msg_writer =
  wr_buf :: bytes
  wr_pos :: nat

type_synonym 'a writing = "(msg_writer, encode_error, 'a) prog"

definition writer_new :: "bytes \<Rightarrow> msg_writer" where
  "writer_new data = \<lparr>wr_buf = data, wr_pos = 0\<rparr>"

definition written :: "msg_writer \<Rightarrow> nat" where
  "written w = wr_pos w"

definition into_bytes :: "msg_writer \<Rightarrow> bytes" where
  "into_bytes w = take (written w) (wr_buf w)"

text \<open>
  \<^verbatim>\<open>Cursor::write_all\<close> copies as much as the buffer has room for and fails when that is
  not everything; the copied prefix stays in the buffer.
\<close>

definition writer_write :: "bytes \<Rightarrow> unit writing" where
  "writer_write data w =
     (if written w + length data > MESSAGE_LIMIT then Some (Err TooLong, w)
      else
        let start = min (wr_pos w) (length (wr_buf w));
            amt = min (length (wr_buf w) - start) (length data);
            w' = \<lparr>wr_buf = take start (wr_buf w) @ take amt data @ drop (start + amt) (wr_buf w),
                  wr_pos = wr_pos w + amt\<rparr>
        in if amt = length data then Some (Ok (), w') else Some (Err TooLong, w'))"

definition write_byte :: "u8 \<Rightarrow> unit writing" where
  "write_byte data = writer_write [data]"

definition write_u16 :: "u16 \<Rightarrow> unit writing" where
  "write_u16 data = writer_write (be_of_u16 data)"

definition write_u32 :: "u32 \<Rightarrow> unit writing" where
  "write_u32 data = writer_write (be_of_u32 data)"

definition write_character_string :: "bytes \<Rightarrow> unit writing" where
  "write_character_string data =
     (if length data > 255 then pthrow TooLong
      else pbind (write_byte (word_of_nat (length data))) (\<lambda>_. writer_write data))"

subsection \<open>Names\<close>

definition is_valid_name :: "ustr \<Rightarrow> bool" where
  "is_valid_name name \<longleftrightarrow>
     str_len name \<noteq> 0 \<and> (str_len name = 1 \<or> \<not> starts_with [dot] name) \<and>
     \<not> contains_str [dot, dot] name"

text \<open>The loop over \<^verbatim>\<open>name.split('.')\<close>, returning the final \<open>total_len\<close>.\<close>

primrec write_segments :: "idna_lib \<Rightarrow> nat \<Rightarrow> ustr list \<Rightarrow> nat writing" where
  "write_segments L total_len [] = pret total_len"
| "write_segments L total_len (seg # segs) =
     (case to_ascii L seg of
        None \<Rightarrow> pthrow InvalidNameE
      | Some s \<Rightarrow>
          if \<not> is_valid_segment s then pthrow InvalidNameE
          else if str_len s > LABEL_LIMIT then pthrow InvalidNameE
          else if total_len + (1 + str_len s) > NAME_LIMIT then pthrow InvalidNameE
          else pbind (write_byte (word_of_nat (str_len s))) (\<lambda>_.
                 pbind (writer_write (as_bytes s)) (\<lambda>_.
                   write_segments L (total_len + (1 + str_len s)) segs)))"

definition write_name :: "idna_lib \<Rightarrow> ustr \<Rightarrow> unit writing" where
  "write_name L name =
     (if \<not> is_valid_name name then pthrow InvalidNameE
      else if name = [dot] then write_byte 0
      else pbind (write_segments L 0 (split_on dot name)) (\<lambda>total_len.
             if \<not> ends_with [dot] name then
               (if total_len + 1 > NAME_LIMIT then pthrow InvalidNameE else write_byte 0)
             else pret ()))"

subsection \<open>Header, questions, resources\<close>

definition to_u16 :: "nat \<Rightarrow> (u16, encode_error) outcome" where
  "to_u16 n = (if n > 65535 then Err TooLong else Ok (word_of_nat n))"

definition lift_outcome :: "('a, 'e) outcome \<Rightarrow> ('s, 'e, 'a) prog" where
  "lift_outcome out s = Some (out, s)"

fun qr_to_u8 :: "qr \<Rightarrow> u8" where
  "qr_to_u8 Query = 0"
| "qr_to_u8 Response = 1"

definition bool_to_u8 :: "bool \<Rightarrow> u8" where
  "bool_to_u8 b = (if b then 1 else 0)"

definition header_flags0 :: "full_header \<Rightarrow> u8" where
  "header_flags0 h =
     push_bit 7 (qr_to_u8 (h_qr h) AND 1) OR
     push_bit 3 (op_to_u8 (h_op h) AND 0b1111) OR
     push_bit 2 (bool_to_u8 (h_authoritative h)) OR
     push_bit 1 (bool_to_u8 (h_truncated h)) OR
     bool_to_u8 (h_recursion_desired h)"

definition header_flags1 :: "full_header \<Rightarrow> u8" where
  "header_flags1 h =
     push_bit 7 (bool_to_u8 (h_recursion_available h)) OR (rcode_to_u8 (h_rcode h) AND 0b1111)"

definition write_header :: "full_header \<Rightarrow> unit writing" where
  "write_header h =
     writer_write
       (be_of_u16 (h_id h) @ [header_flags0 h, header_flags1 h] @
        be_of_u16 (qd_count h) @ be_of_u16 (an_count h) @
        be_of_u16 (ns_count h) @ be_of_u16 (ar_count h))"

definition write_question :: "idna_lib \<Rightarrow> question \<Rightarrow> unit writing" where
  "write_question L q =
     pbind (write_name L (q_name q)) (\<lambda>_.
       writer_write
         (be_of_u16 (record_type_to_u16 (q_type q)) @ be_of_u16 (class_to_u16 (q_class q))))"

definition write_resource :: "idna_lib \<Rightarrow> resource \<Rightarrow> unit writing" where
  "write_resource L r =
     pbind (write_name L (r_name r)) (\<lambda>_.
       pbind (lift_outcome (get_rdata r)) (\<lambda>rdata.
         pbind (lift_outcome (to_u16 (length rdata))) (\<lambda>len.
           pbind (writer_write
                    (be_of_u16 (record_type_to_u16 (r_type r)) @
                     be_of_u16 (class_to_u16 (r_class r)) @
                     be_of_u32 (r_ttl r) @ be_of_u16 len)) (\<lambda>_.
             writer_write rdata))))"

subsection \<open>A byte sink of bounded room\<close>

text \<open>
  What the writing routines rely on: putting bytes appends them when they fit, and is the
  error \<open>TooLong\<close> when they do not. \<open>content\<close> is what was put so far.
\<close>

locale byte_sink =
  fixes put :: "bytes \<Rightarrow> ('w, encode_error, unit) prog"
    and content :: "'w \<Rightarrow> bytes"
    and room :: "'w \<Rightarrow> nat"
    and inv :: "'w \<Rightarrow> bool"
  assumes content_room: "inv w \<Longrightarrow> length (content w) \<le> room w"
    and put_fits: "inv w \<Longrightarrow> length (content w) + length xs \<le> room w \<Longrightarrow>
      \<exists>w'. put xs w = Some (Ok (), w') \<and> inv w' \<and> content w' = content w @ xs \<and> room w' = room w"
    and put_full: "inv w \<Longrightarrow> room w < length (content w) + length xs \<Longrightarrow>
      \<exists>w'. put xs w = Some (Err TooLong, w')"
begin

text \<open>\<open>m\<close> puts exactly \<open>xs\<close> and returns \<open>a\<close>, or fails because \<open>xs\<close> does not fit.\<close>

definition emits :: "('w, encode_error, 'a) prog \<Rightarrow> bytes \<Rightarrow> 'a \<Rightarrow> bool" where
  "emits m xs a \<longleftrightarrow>
     (\<forall>w. inv w \<longrightarrow>
        (if length (content w) + length xs \<le> room w
         then \<exists>w'. m w = Some (Ok a, w') \<and> inv w' \<and> content w' = content w @ xs \<and> room w' = room w
         else \<exists>w'. m w = Some (Err TooLong, w')))"

lemma emits_put: "emits (put xs) xs ()"
  using put_fits put_full by (auto simp: emits_def not_le)

lemma emits_pret: "emits (pret a) [] a"
  using content_room by (auto simp: emits_def pret_def)

lemma emits_fits:
  assumes "emits m xs a" and "inv w" and "length (content w) + length xs \<le> room w"
  obtains w' where "m w = Some (Ok a, w')" and "inv w'" and "content w' = content w @ xs"
    and "room w' = room w"
  using assms(1) [unfolded emits_def, rule_format, OF assms(2)] assms(3) by auto

lemma emits_full:
  assumes "emits m xs a" and "inv w" and "room w < length (content w) + length xs"
  obtains w' where "m w = Some (Err TooLong, w')"
  using assms(1) [unfolded emits_def, rule_format, OF assms(2)] assms(3) by auto

lemma emits_bind:
  assumes m: "emits m xs a" and k: "emits (k a) ys b"
  shows "emits (pbind m k) (xs @ ys) b"
  unfolding emits_def
proof (intro allI impI)
  fix w assume w: "inv w"
  show "if length (content w) + length (xs @ ys) \<le> room w
        then \<exists>w'. pbind m k w = Some (Ok b, w') \<and> inv w' \<and> content w' = content w @ xs @ ys \<and> room w' = room w
        else \<exists>w'. pbind m k w = Some (Err TooLong, w')"
  proof (cases "length (content w) + length xs \<le> room w")
    case True
    with m w obtain w1 where w1: "m w = Some (Ok a, w1)" "inv w1" "content w1 = content w @ xs" "room w1 = room w"
      by (rule emits_fits)
    with k [unfolded emits_def, rule_format, OF w1(2)] show ?thesis
      by (auto simp: outcome_simps add.assoc split: if_splits)
  next
    case False
    with m w obtain w' where "m w = Some (Err TooLong, w')"
      by (meson emits_full not_le)
    with False show ?thesis by (simp add: outcome_simps)
  qed
qed

lemma emits_seq: "emits m xs () \<Longrightarrow> emits n ys b \<Longrightarrow> emits (pbind m (\<lambda>_. n)) (xs @ ys) b"
  by (rule emits_bind)

lemma emits_pfor:
  assumes "\<And>x. x \<in> set xs \<Longrightarrow> emits (f x) (enc x) ()"
  shows "emits (pfor f xs) (concat (map enc xs)) ()"
  using assms by (induction xs) (auto intro: emits_pret emits_seq)

lemma emits_OkD:
  assumes "emits m xs a" and "inv w" and "m w = Some (Ok b, w')"
  shows "b = a \<and> inv w' \<and> content w' = content w @ xs \<and> room w' = room w \<and>
    length (content w) + length xs \<le> room w"
  using assms by (fastforce simp: emits_def split: if_splits)

end

subsection \<open>The writer is such a sink\<close>

definition writer_room :: "msg_writer \<Rightarrow> nat" where
  "writer_room w = min (length (wr_buf w)) MESSAGE_LIMIT"

definition writer_inv :: "msg_writer \<Rightarrow> bool" where
  "writer_inv w \<longleftrightarrow> wr_pos w \<le> writer_room w"

lemma length_into_bytes: "writer_inv w \<Longrightarrow> length (into_bytes w) = wr_pos w"
  by (simp add: writer_inv_def writer_room_def into_bytes_def written_def)

lemma writer_write_fits:
  assumes "writer_inv w" and "length (into_bytes w) + length xs \<le> writer_room w"
  shows "\<exists>w'. writer_write xs w = Some (Ok (), w') \<and> writer_inv w' \<and>
    into_bytes w' = into_bytes w @ xs \<and> writer_room w' = writer_room w"
proof -
  from assms have "wr_pos w + length xs \<le> length (wr_buf w)" "wr_pos w + length xs \<le> MESSAGE_LIMIT"
    by (simp_all add: length_into_bytes writer_room_def)
  then show ?thesis
    by (simp add: writer_write_def written_def into_bytes_def writer_inv_def writer_room_def Let_def)
qed

lemma writer_write_full:
  assumes "writer_inv w" and "writer_room w < length (into_bytes w) + length xs"
  shows "\<exists>w'. writer_write xs w = Some (Err TooLong, w')"
proof (cases "wr_pos w + length xs > MESSAGE_LIMIT")
  case True
  then show ?thesis by (simp add: writer_write_def written_def)
next
  case False
  with assms have "length (wr_buf w) < wr_pos w + length xs" "wr_pos w \<le> length (wr_buf w)"
    by (auto simp: length_into_bytes writer_room_def writer_inv_def)
  with False show ?thesis by (auto simp: writer_write_def written_def Let_def min_def)
qed

interpretation wr: byte_sink writer_write into_bytes writer_room writer_inv
  using writer_write_fits writer_write_full
  by unfold_locales (auto simp: length_into_bytes writer_inv_def)

lemma writer_inv_new [simp]: "writer_inv (writer_new buf)"
  by (simp add: writer_inv_def writer_new_def)

lemma into_bytes_new [simp]: "into_bytes (writer_new buf) = []"
  by (simp add: writer_new_def into_bytes_def written_def)

lemma writer_room_new [simp]: "writer_room (writer_new buf) = min (length buf) MESSAGE_LIMIT"
  by (simp add: writer_new_def writer_room_def)

lemma emits_write_byte: "wr.emits (write_byte b) [b] ()"
  unfolding write_byte_def by (rule wr.emits_put)

lemma emits_write_u16: "wr.emits (write_u16 x) (be_of_u16 x) ()"
  unfolding write_u16_def by (rule wr.emits_put)

lemma emits_write_u32: "wr.emits (write_u32 x) (be_of_u32 x) ()"
  unfolding write_u32_def by (rule wr.emits_put)

lemma emits_write_character_string:
  "length data \<le> 255 \<Longrightarrow>
   wr.emits (write_character_string data) (word_of_nat (length data) # data) ()"
  using wr.emits_seq [OF emits_write_byte wr.emits_put]
  by (simp add: write_character_string_def)

lemma lift_bind_Ok [outcome_simps]: "pbind (lift_outcome (Ok a)) k = k a"
  by (rule ext) (simp add: lift_outcome_def pbind_def)

lemma emits_lift_outcome: "out = Ok a \<Longrightarrow> wr.emits (lift_outcome out) [] a"
  using wr.content_room by (auto simp: lift_outcome_def wr.emits_def)

subsection \<open>Failing cleanly\<close>

text \<open>\<open>settles P m\<close>: from every state \<open>m\<close> comes to an end, and it panics only if \<open>P\<close> holds.\<close>

definition settles :: "bool \<Rightarrow> ('s, 'e, 'a) prog \<Rightarrow> bool" where
  "settles P m \<longleftrightarrow> (\<forall>s. \<exists>out s'. m s = Some (out, s') \<and> (out = Panic \<longrightarrow> P))"

lemma settles_pret [intro]: "settles P (pret a)"
  by (simp add: settles_def pret_def)

lemma settles_pthrow [intro]: "settles P (pthrow e)"
  by (simp add: settles_def pthrow_def)

lemma settles_lift [intro]: "(out = Panic \<Longrightarrow> P) \<Longrightarrow> settles P (lift_outcome out)"
  by (simp add: settles_def lift_outcome_def)

lemma settles_bind [intro]:
  assumes "settles P m" and "\<And>a. settles P (k a)"
  shows "settles P (pbind m k)"
  unfolding settles_def
proof
  fix s
  from assms(1) obtain out s' where m: "m s = Some (out, s')" "out = Panic \<longrightarrow> P"
    unfolding settles_def by blast
  show "\<exists>out s'. pbind m k s = Some (out, s') \<and> (out = Panic \<longrightarrow> P)"
    using m assms(2) by (cases out) (auto simp: settles_def pbind_def)
qed

lemma settles_pfor: "(\<And>x. x \<in> set xs \<Longrightarrow> settles P (f x)) \<Longrightarrow> settles P (pfor f xs)"
  by (induction xs) auto

lemma settles_writer_write [intro]: "settles P (writer_write xs)"
  by (auto simp: settles_def writer_write_def Let_def)

lemma settles_write_byte [intro]: "settles P (write_byte b)"
  by (auto simp: write_byte_def)

lemma settles_write_u32 [intro]: "settles P (write_u32 x)"
  by (auto simp: write_u32_def)

lemma settles_write_segments [intro]: "settles P (write_segments L n segs)"
  by (induction segs arbitrary: n) (auto split: option.split)

lemma settles_write_name [intro]: "settles P (write_name L name)"
  unfolding write_name_def by (auto intro!: settles_bind)

lemma settles_write_question [intro]: "settles P (write_question L q)"
  by (auto simp: write_question_def)

lemma settles_write_header [intro]: "settles P (write_header h)"
  by (auto simp: write_header_def)

lemma settles_write_resource: "r_offset r \<le> length (r_data r) \<or> P \<Longrightarrow> settles P (write_resource L r)"
  unfolding write_resource_def by (intro settles_bind settles_lift) (auto simp: get_rdata_def to_u16_def split: if_splits)

lemma pfor_OkD:
  assumes "pfor f xs s = Some (Ok (), s')" and "\<And>x s s'. f x s = Some (Ok (), s') \<Longrightarrow> P x"
  shows "list_all P xs"
  using assms(1) by (induction xs arbitrary: s) (auto elim!: pbind_OkE intro: assms(2))

end
