(* ===== verification/NameCodec.thy ===== *)
theory NameCodec
  imports MsgWriter
begin

text \<open>
  Domain names on the wire: which names \<open>write_name\<close> accepts, the bytes it emits for them, and
  that \<open>read_name\<close> reads these bytes back as the absolute form of the name.
\<close>

subsection \<open>The bytes of a name\<close>

text \<open>The labels of a name; the root and a final dot contribute none.\<close>

definition name_labels :: "ustr \<Rightarrow> ustr list" where
  "name_labels name =
     (if name = [dot] then []
      else if ends_with [dot] name then butlast (split_on dot name)
      else split_on dot name)"

fun ascii_labels :: "idna_lib \<Rightarrow> ustr list \<Rightarrow> ustr list option" where
  "ascii_labels L [] = Some []"
| "ascii_labels L (l # ls) =
     (case to_ascii L l of
        None \<Rightarrow> None
      | Some a \<Rightarrow> map_option (\<lambda>as. a # as) (ascii_labels L ls))"

definition wire_len :: "ustr list \<Rightarrow> nat" where
  "wire_len as = sum_list (map (\<lambda>a. 1 + str_len a) as)"

definition good_labels :: "ustr list \<Rightarrow> bool" where
  "good_labels as = list_all (\<lambda>a. is_valid_segment a \<and> str_len a \<le> LABEL_LIMIT) as"

text \<open>The names the writer accepts, and the bytes it emits for them.\<close>

definition encodable_name :: "idna_lib \<Rightarrow> ustr \<Rightarrow> bool" where
  "encodable_name L name \<longleftrightarrow>
     is_valid_name name \<and>
     (case ascii_labels L (name_labels name) of
        None \<Rightarrow> False
      | Some as \<Rightarrow> good_labels as \<and> wire_len as + 1 \<le> NAME_LIMIT)"

definition name_bytes :: "idna_lib \<Rightarrow> ustr \<Rightarrow> bytes" where
  "name_bytes L name =
     (case ascii_labels L (name_labels name) of
        None \<Rightarrow> []
      | Some as \<Rightarrow> concat (map label_bytes as) @ [0])"

lemma length_label_bytes [simp]: "length (label_bytes a) = 1 + str_len a"
  by (simp add: label_bytes_def str_len_def)

lemma wire_len_simps [simp]:
  "wire_len [] = 0" "wire_len (a # as) = 1 + str_len a + wire_len as"
  "wire_len (as @ bs) = wire_len as + wire_len bs"
  by (simp_all add: wire_len_def)

lemma length_label_bytes_concat: "length (concat (map label_bytes as)) = wire_len as"
  by (induction as) simp_all

lemma ascii_labels_append:
  "ascii_labels L (xs @ ys) =
     (case ascii_labels L xs of
        None \<Rightarrow> None
      | Some as \<Rightarrow> map_option (\<lambda>bs. as @ bs) (ascii_labels L ys))"
  by (cases "ascii_labels L ys"; induction xs) (auto split: option.splits)

subsection \<open>The loop over the labels\<close>

lemma emits_write_segments:
  assumes "ascii_labels L segs = Some as" and "good_labels as" and "tot + wire_len as \<le> NAME_LIMIT"
  shows "wr.emits (write_segments L tot segs) (concat (map label_bytes as)) (tot + wire_len as)"
  using assms
proof (induction segs arbitrary: tot as)
  case Nil
  then show ?case by (simp add: wr.emits_pret)
next
  case (Cons seg segs)
  then obtain a as' where a: "to_ascii L seg = Some a" and as': "ascii_labels L segs = Some as'"
    and as: "as = a # as'"
    by (auto split: option.splits)
  have "wr.emits (write_segments L (tot + (1 + str_len a)) segs) (concat (map label_bytes as'))
      (tot + (1 + str_len a) + wire_len as')"
    using Cons.prems as as' by (intro Cons.IH) (auto simp: good_labels_def)
  then have "wr.emits
      (pbind (write_byte (word_of_nat (str_len a))) (\<lambda>_.
         pbind (writer_write (as_bytes a)) (\<lambda>_. write_segments L (tot + (1 + str_len a)) segs)))
      ([word_of_nat (str_len a)] @ as_bytes a @ concat (map label_bytes as'))
      (tot + (1 + str_len a) + wire_len as')"
    by (intro wr.emits_seq emits_write_byte wr.emits_put)
  with Cons.prems a as show ?case
    by (simp add: good_labels_def label_bytes_def [of a] add.assoc)
qed

lemma write_segments_OkD:
  assumes "write_segments L tot segs w = Some (Ok n, w')" and "tot \<le> NAME_LIMIT"
  shows "\<exists>as. ascii_labels L segs = Some as \<and> good_labels as \<and> n = tot + wire_len as \<and> n \<le> NAME_LIMIT"
  using assms
proof (induction segs arbitrary: tot w)
  case Nil
  then show ?case by (simp add: pret_def good_labels_def)
next
  case (Cons seg segs)
  from Cons.prems(1) obtain a w1 where a: "to_ascii L seg = Some a" "is_valid_segment a"
      "str_len a \<le> LABEL_LIMIT" "tot + (1 + str_len a) \<le> NAME_LIMIT"
    and rest: "write_segments L (tot + (1 + str_len a)) segs w1 = Some (Ok n, w')"
    by (auto simp: pthrow_def split: option.splits if_splits elim!: pbind_OkE)
  from Cons.IH [OF rest a(4)] a show ?case by (auto simp: good_labels_def)
qed

subsection \<open>The last label\<close>

lemma ends_with_dot: "ends_with [c] s \<longleftrightarrow> s \<noteq> [] \<and> last s = c"
  by (cases s rule: rev_cases) (auto simp: ends_with_def starts_with_def)

lemma starts_with_one: "starts_with [c] s \<longleftrightarrow> s \<noteq> [] \<and> hd s = c"
  by (cases s) (auto simp: starts_with_def)

lemma last_split_on: "ends_with [c] s \<Longrightarrow> last (split_on c s) = []"
  by (cases s rule: rev_cases) (auto simp: ends_with_dot split_on_append_sep)

lemma split_on_labels:
  assumes "name \<noteq> [dot]"
  shows "split_on dot name = name_labels name @ (if ends_with [dot] name then [[]] else [])"
proof (cases "ends_with [dot] name")
  case True
  then show ?thesis using assms last_split_on [OF True]
    by (simp add: name_labels_def) (metis append_butlast_last_id split_on_nonempty)
qed (use assms in \<open>simp add: name_labels_def\<close>)

lemma is_valid_segment_Nil [simp]: "is_valid_segment []"
  by (simp add: is_valid_segment_def starts_with_def ends_with_def)

lemma emits_write_name:
  assumes "encodable_name L name"
  shows "wr.emits (write_name L name) (name_bytes L name) ()"
proof -
  from assms obtain as where as: "ascii_labels L (name_labels name) = Some as"
    and good: "good_labels as" "wire_len as + 1 \<le> NAME_LIMIT" and valid: "is_valid_name name"
    by (auto simp: encodable_name_def split: option.splits)
  then have bytes: "name_bytes L name = concat (map label_bytes as) @ [0]"
    by (simp add: name_bytes_def)
  consider "name = [dot]" | "name \<noteq> [dot]" "ends_with [dot] name" | "name \<noteq> [dot]" "\<not> ends_with [dot] name"
    by blast
  then show ?thesis
  proof cases
    case 1
    then have "as = []" using as by (simp add: name_labels_def)
    with 1 valid bytes show ?thesis by (simp add: write_name_def emits_write_byte)
  next
    case 2
    have asc: "ascii_labels L (split_on dot name) = Some (as @ [[]])"
      using 2 as by (simp add: split_on_labels ascii_labels_append)
    have "wr.emits (write_segments L 0 (split_on dot name)) (concat (map label_bytes (as @ [[]])))
        (0 + wire_len (as @ [[]]))"
      using good by (intro emits_write_segments asc) (auto simp: good_labels_def str_len_def)
    then have "wr.emits (pbind (write_segments L 0 (split_on dot name)) (\<lambda>_. pret ()))
        (concat (map label_bytes (as @ [[]])) @ []) ()"
      by (rule wr.emits_bind) (rule wr.emits_pret)
    then show ?thesis
      using 2 valid bytes by (simp add: write_name_def label_bytes_def str_len_def)
  next
    case 3
    have "wr.emits (write_segments L 0 (split_on dot name)) (concat (map label_bytes as)) (0 + wire_len as)"
      using 3 as good by (intro emits_write_segments) (auto simp: split_on_labels)
    then have "wr.emits (pbind (write_segments L 0 (split_on dot name)) (\<lambda>total_len.
          if total_len + 1 > NAME_LIMIT then pthrow InvalidNameE else write_byte 0))
        (concat (map label_bytes as) @ [0]) ()"
      by (rule wr.emits_bind) (use good emits_write_byte in simp)
    then show ?thesis using 3 valid bytes by (simp add: write_name_def)
  qed
qed

text \<open>The writer accepts nothing else.\<close>

lemma write_name_OkD:
  assumes "write_name L name w = Some (Ok (), w')"
  shows "encodable_name L name"
proof (cases "name = [dot]")
  case True
  with assms show ?thesis
    by (auto simp: write_name_def encodable_name_def name_labels_def good_labels_def NAME_LIMIT_def pthrow_def
        split: if_splits)
next
  case False
  with assms obtain n w1 where valid: "is_valid_name name"
    and segs: "write_segments L 0 (split_on dot name) w = Some (Ok n, w1)"
    and n: "\<not> ends_with [dot] name \<Longrightarrow> n + 1 \<le> NAME_LIMIT"
    by (auto simp: write_name_def pthrow_def split: if_splits elim!: pbind_OkE)
  from write_segments_OkD [OF segs] obtain as where
    as: "ascii_labels L (split_on dot name) = Some as" "good_labels as" "n = wire_len as" "n \<le> NAME_LIMIT"
    by auto
  show ?thesis
  proof (cases "ends_with [dot] name")
    case True
    with False as(1) obtain as' where "ascii_labels L (name_labels name) = Some as'" "as = as' @ [[]]"
      by (auto simp: split_on_labels ascii_labels_append split: option.splits)
    with as valid show ?thesis by (auto simp: encodable_name_def good_labels_def)
  next
    case no_dot: False
    with False as n valid show ?thesis by (auto simp: encodable_name_def split_on_labels)
  qed
qed

subsection \<open>Reading the bytes back\<close>

text \<open>
  Names whose wire labels the reader accepts too: nonempty ASCII labels that convert to Unicode.
  For a name that is ASCII itself this only asks that labels with the prefix \<^verbatim>\<open>xn--\<close> are
  valid punycode.
\<close>

definition readable_name :: "idna_lib \<Rightarrow> ustr \<Rightarrow> bool" where
  "readable_name L name \<longleftrightarrow>
     (case ascii_labels L (name_labels name) of
        None \<Rightarrow> False
      | Some as \<Rightarrow> list_all (\<lambda>a. a \<noteq> [] \<and> is_ascii a \<and> to_unicode L a \<noteq> None) as)"

text \<open>The name the reader returns: every label followed by a dot, the root as a single dot.\<close>

definition absolute_name :: "idna_lib \<Rightarrow> ustr \<Rightarrow> ustr" where
  "absolute_name L name =
     (case ascii_labels L (name_labels name) of
        None \<Rightarrow> []
      | Some as \<Rightarrow>
          if as = [] then [dot] else concat (map (\<lambda>a. the (to_unicode L a) @ [dot]) as))"

lemma encoded_len_wire_len: "list_all is_ascii as \<Longrightarrow> encoded_len as = wire_len as"
  by (induction as) (simp_all add: encoded_len_def str_len_ascii)

lemma read_name_bytes:
  assumes "encodable_name L name" and "readable_name L name"
    and "rd_data r = pre @ name_bytes L name @ post" and "rd_pos r = length pre"
  shows "read_name L r =
    Some (Ok (absolute_name L name), r\<lparr>rd_pos := length pre + length (name_bytes L name)\<rparr>)"
proof -
  from assms(1) obtain as where as: "ascii_labels L (name_labels name) = Some as"
    and good: "good_labels as" "wire_len as + 1 \<le> NAME_LIMIT"
    by (auto simp: encodable_name_def split: option.splits)
  from assms(2) as have rd: "list_all (\<lambda>a. a \<noteq> [] \<and> is_ascii a \<and> to_unicode L a \<noteq> None) as"
    by (simp add: readable_name_def)
  define us where "us = map (\<lambda>a. the (to_unicode L a)) as"
  have ascii: "list_all is_ascii as" using rd by (simp add: list_all_iff)
  have "list_all2 (readable_label L) as us"
    unfolding us_def list_all2_map2
    using good(1) rd by (intro list.rel_refl_strong)
      (auto simp: readable_label_def good_labels_def list_all_iff str_len_ascii)
  moreover have "rd_data r = pre @ concat (map label_bytes as) @ 0 # post"
    using assms(3) as by (simp add: name_bytes_def)
  ultimately have "read_name L r =
      Some (Ok (if us = [] then [dot] else concat (map (\<lambda>u. u @ [dot]) us)),
            r\<lparr>rd_pos := length pre + encoded_len as + 1\<rparr>)"
    using assms(4) by (rule read_name_here) (use good(2) ascii in \<open>simp add: encoded_len_wire_len\<close>)
  moreover have "absolute_name L name = (if us = [] then [dot] else concat (map (\<lambda>u. u @ [dot]) us))"
    using as by (simp add: absolute_name_def us_def comp_def)
  moreover have "length (name_bytes L name) = encoded_len as + 1"
    using as ascii by (simp add: name_bytes_def length_label_bytes_concat encoded_len_wire_len)
  ultimately show ?thesis by simp
qed

subsection \<open>Plain ASCII names\<close>

definition plain_name :: "ustr \<Rightarrow> bool" where
  "plain_name name \<longleftrightarrow>
     is_ascii name \<and> list_all (\<lambda>l. \<not> starts_with (lit ''xn--'') l) (split_on dot name)"

lemma hd_split_on: "hd (split_on c s) = [] \<longleftrightarrow> s = [] \<or> hd s = c"
  by (cases s) (auto split: list.splits)

lemma split_on_inner:
  "\<not> contains_str [c, c] s \<Longrightarrow> l \<in> set (butlast (tl (split_on c s))) \<Longrightarrow> l \<noteq> []"
proof (induction s)
  case Nil
  then show ?case by simp
next
  case (Cons x s)
  obtain seg segs where sp: "split_on c s = seg # segs" by (cases "split_on c s") simp_all
  have IH: "l \<in> set (butlast segs) \<Longrightarrow> l \<noteq> []" using Cons sp by simp
  show ?case
  proof (cases "x = c")
    case True
    with Cons.prems have "s = [] \<or> hd s \<noteq> c"
      by (cases s) (auto simp: starts_with_def)
    then have "seg \<noteq> [] \<or> segs = []" using hd_split_on [of c s] sp by (cases s) auto
    with True Cons.prems sp IH show ?thesis by (auto split: if_splits)
  next
    case False
    with Cons.prems sp IH show ?thesis by auto
  qed
qed

lemma valid_name_labels:
  assumes "is_valid_name name" and "l \<in> set (name_labels name)"
  shows "l \<noteq> []"
proof -
  have ne: "name \<noteq> [dot]" using assms(2) by (auto simp: name_labels_def)
  obtain seg segs where sp: "split_on dot name = seg # segs"
    by (cases "split_on dot name") simp_all
  have "\<not> (str_len name = 1 \<and> hd name = dot)" if "name \<noteq> []"
    using ne that by (cases name) (auto simp: str_len_def utf8_char_def)
  then have "seg \<noteq> []"
    using assms(1) hd_split_on [of dot name] sp by (auto simp: is_valid_name_def starts_with_one)
  moreover have "l \<noteq> []" if "l \<in> set (butlast segs)"
    using assms(1) that split_on_inner [of dot name l] sp by (simp add: is_valid_name_def)
  moreover have "last (split_on dot name) \<noteq> []" if "\<not> ends_with [dot] name"
  proof
    assume "last (split_on dot name) = []"
    then have "name = join dot (butlast (split_on dot name) @ [[]])"
      by (metis append_butlast_last_id join_split_on split_on_nonempty)
    moreover have "join dot (xs @ [[]]) = [] \<or> last (join dot (xs @ [[]])) = dot" for xs
      by (induction xs) (auto simp: join_Cons)
    ultimately show False using that assms(1)
      by (metis ends_with_dot is_valid_name_def str_len_0)
  qed
  ultimately show ?thesis
    using assms(2) ne sp
    by (cases segs rule: rev_cases) (auto simp: name_labels_def butlast_append split: if_splits)
qed

lemma ascii_labels_ascii: "list_all is_ascii ls \<Longrightarrow> ascii_labels L ls = Some ls"
  by (induction ls) simp_all

lemma plain_name_labels:
  assumes "plain_name name" and "l \<in> set (name_labels name)"
  shows "is_ascii l" and "to_unicode L l = Some l"
proof -
  have l: "l \<in> set (split_on dot name)"
    using assms(2) by (auto simp: name_labels_def dest: in_set_butlastD split: if_splits)
  with assms(1) show "is_ascii l" by (auto simp: plain_name_def intro: split_on_ascii)
  from l assms(1) have "\<not> starts_with (lit ''xn--'') l"
    by (auto simp: plain_name_def list_all_iff)
  with l show "to_unicode L l = Some l" by (intro to_unicode_plain split_on_segs)
qed

lemma plain_name_ascii_labels:
  "plain_name name \<Longrightarrow> ascii_labels L (name_labels name) = Some (name_labels name)"
  by (intro ascii_labels_ascii) (auto simp: list_all_iff intro: plain_name_labels)

lemma plain_name_readable:
  assumes "plain_name name" and "is_valid_name name"
  shows "readable_name L name"
  using assms valid_name_labels [OF assms(2)] plain_name_labels [OF assms(1)]
  by (auto simp: readable_name_def plain_name_ascii_labels list_all_iff)

lemma concat_dotted: "ls \<noteq> [] \<Longrightarrow> concat (map (\<lambda>l. l @ [dot]) ls) = join dot ls @ [dot]"
  by (induction ls rule: join.induct) simp_all

text \<open>Read back, a plain name is itself with a final dot.\<close>

lemma plain_name_absolute:
  assumes "plain_name name" and "is_valid_name name"
  shows "absolute_name L name = (if ends_with [dot] name then name else name @ [dot])"
proof (cases "name = [dot]")
  case True
  then show ?thesis by (simp add: absolute_name_def name_labels_def ends_with_dot)
next
  case False
  let ?ls = "name_labels name"
  have eq: "map (\<lambda>a. the (to_unicode L a) @ [dot]) ?ls = map (\<lambda>l. l @ [dot]) ?ls"
    using plain_name_labels(2) [OF assms(1)] by (intro map_cong) auto
  have abs: "absolute_name L name = (if ?ls = [] then [dot] else concat (map (\<lambda>l. l @ [dot]) ?ls))"
    by (simp add: absolute_name_def plain_name_ascii_labels assms(1) eq)
  have name: "name = join dot (?ls @ (if ends_with [dot] name then [[]] else []))"
    by (metis False join_split_on split_on_labels)
  have "name \<noteq> []" using assms(2) by (auto simp: is_valid_name_def)
  have ls: "?ls \<noteq> []"
  proof
    assume "?ls = []"
    with name \<open>name \<noteq> []\<close> show False by (auto split: if_splits)
  qed
  have snoc: "join dot (xs @ [[]]) = concat (map (\<lambda>l. l @ [dot]) xs)" for xs :: "ustr list"
    by (induction xs) (auto simp: join_Cons)
  show ?thesis
  proof (cases "ends_with [dot] name")
    case True
    with name ls abs show ?thesis by (simp add: snoc)
  next
    case no_dot: False
    with name ls abs show ?thesis by (simp add: concat_dotted)
  qed
qed

subsection \<open>Properties\<close>

text \<open>C21: \<open>write_name\<close> on a fresh buffer succeeds exactly for the names whose labels convert to
  ASCII, are valid, have at most 63 bytes and together, with length bytes and the final zero,
  at most 255, provided the buffer has room; it then has written the label encoding.\<close>

theorem write_name_exact:
  "(\<exists>w. write_name L name (writer_new buf) = Some (Ok (), w) \<and> into_bytes w = bs) \<longleftrightarrow>
     encodable_name L name \<and> bs = name_bytes L name \<and>
     length (name_bytes L name) \<le> min (length buf) MESSAGE_LIMIT"
proof
  assume "\<exists>w. write_name L name (writer_new buf) = Some (Ok (), w) \<and> into_bytes w = bs"
  then obtain w where w: "write_name L name (writer_new buf) = Some (Ok (), w)" "into_bytes w = bs" by blast
  note enc = write_name_OkD [OF w(1)]
  from wr.emits_OkD [OF emits_write_name [OF enc] writer_inv_new w(1)] w(2) enc
  show "encodable_name L name \<and> bs = name_bytes L name \<and>
     length (name_bytes L name) \<le> min (length buf) MESSAGE_LIMIT" by simp
next
  assume *: "encodable_name L name \<and> bs = name_bytes L name \<and>
     length (name_bytes L name) \<le> min (length buf) MESSAGE_LIMIT"
  then show "\<exists>w. write_name L name (writer_new buf) = Some (Ok (), w) \<and> into_bytes w = bs"
    by (auto intro: wr.emits_fits [OF emits_write_name, of L name "writer_new buf"])
qed

text \<open>C22: An ASCII name without labels in punycode (\<^verbatim>\<open>xn--\<close>) that \<open>write_name\<close> has written, behind
  whatever was written before, is read back by \<open>read_name\<close> at the place where it was written: the
  result is the name itself with a final dot, and the reader stands behind the written bytes.\<close>

theorem plain_name_roundtrip:
  assumes "plain_name name" and "writer_inv w" and "write_name L name w = Some (Ok (), w')"
    and "rd_data r = into_bytes w' @ post" and "rd_pos r = length (into_bytes w)"
  shows "read_name L r =
    Some (Ok (if ends_with [dot] name then name else name @ [dot]),
          r\<lparr>rd_pos := length (into_bytes w')\<rparr>)"
proof -
  have enc: "encodable_name L name" by (rule write_name_OkD [OF assms(3)])
  then have valid: "is_valid_name name" by (simp add: encodable_name_def)
  have "into_bytes w' = into_bytes w @ name_bytes L name"
    using wr.emits_OkD [OF emits_write_name [OF enc] assms(2,3)] by simp
  then show ?thesis
    using read_name_bytes [OF enc plain_name_readable [OF assms(1) valid], of r "into_bytes w" post] assms(4,5)
    by (simp add: plain_name_absolute [OF assms(1) valid])
qed

text \<open>The definitions that evaluate \<open>encodable_name\<close> on a literal.\<close>

lemmas encodable_name_eval = encodable_name_def is_valid_name_def str_len_def as_bytes_def utf8_char_def
  starts_with_def ends_with_def lit_def name_labels_def good_labels_def wire_len_def is_valid_segment_def
  is_whitespace_def is_control_def LABEL_LIMIT_def NAME_LIMIT_def

text \<open>The name \<^verbatim>\<open>usnet.de\<close> at offset 1.\<close>

theorem plain_name_roundtrip_witness:
  "\<exists>w'. write_name ascii_idna (lit ''usnet.de'') \<lparr>wr_buf = 7 # replicate 19 0, wr_pos = 1\<rparr> = Some (Ok (), w') \<and>
     read_name ascii_idna \<lparr>rd_data = into_bytes w' @ [9], rd_pos = 1\<rparr> =
       Some (Ok (lit ''usnet.de.''), \<lparr>rd_data = into_bytes w' @ [9], rd_pos = length (into_bytes w')\<rparr>)"
proof -
  let ?w = "\<lparr>wr_buf = 7 # replicate 19 0, wr_pos = 1\<rparr>"
  have enc: "encodable_name ascii_idna (lit ''usnet.de'')"
    by (simp add: encodable_name_eval)
  have w: "writer_inv ?w" "length (into_bytes ?w) = 1" "writer_room ?w = 20"
    by (simp_all add: writer_inv_def writer_room_def into_bytes_def written_def MESSAGE_LIMIT_def)
  moreover have "length (name_bytes ascii_idna (lit ''usnet.de'')) = 10"
    by (simp add: name_bytes_def name_labels_def label_bytes_def lit_def as_bytes_def utf8_char_def
        starts_with_def ends_with_def)
  ultimately obtain w' where w': "write_name ascii_idna (lit ''usnet.de'') ?w = Some (Ok (), w')"
    by (auto intro: wr.emits_fits [OF emits_write_name [OF enc], of ?w])
  have "plain_name (lit ''usnet.de'')" "\<not> ends_with [dot] (lit ''usnet.de'')"
    by (simp_all add: plain_name_def ends_with_def starts_with_def lit_def)
  with plain_name_roundtrip [OF _ w(1) w', of "\<lparr>rd_data = into_bytes w' @ [9], rd_pos = 1\<rparr>" "[9]"] w(2) w'
  show ?thesis by (simp add: lit_def)
qed

end
