(* ===== verification/HeaderCodec.thy ===== *)
theory HeaderCodec
  imports MsgWriter
begin

unbundle bit_operations_syntax

text \<open>
  The twelve header bytes: which bits \<open>write_header\<close> sets, what \<open>read_header\<close> makes of
  them, and which headers survive the way there and back. The operation code is written
  into bits 3 to 6 but read without being shifted down, so only \<open>OpQuery\<close> survives.
\<close>

subsection \<open>The flag bytes, bit by bit\<close>

lemma bit_single_masks:
  "bit (128 :: u8) n \<longleftrightarrow> n = 7" "bit (4 :: u8) n \<longleftrightarrow> n = 2" "bit (2 :: u8) n \<longleftrightarrow> n = 1"
  using bit_exp_iff [of 7 n, where 'a = u8] bit_exp_iff [of 2 n, where 'a = u8]
    bit_exp_iff [of 1 n, where 'a = u8]
  by (auto simp: possible_bit_word)

lemma bit_field_masks:
  "bit (0b01111000 :: u8) n \<longleftrightarrow> 3 \<le> n \<and> n < 7" "bit (15 :: u8) n \<longleftrightarrow> n < 4"
proof -
  have "(0b01111000 :: u8) = push_bit 3 (mask 4)" "(15 :: u8) = mask 4"
    by (simp_all add: mask_eq_exp_minus_1 push_bit_eq_mult)
  then show "bit (0b01111000 :: u8) n \<longleftrightarrow> 3 \<le> n \<and> n < 7" "bit (15 :: u8) n \<longleftrightarrow> n < 4"
    by (simp_all only: bit_push_bit_iff bit_mask_iff possible_bit_word) auto
qed

lemma bit_bool_to_u8: "bit (bool_to_u8 b) n \<longleftrightarrow> b \<and> n = 0"
  by (simp add: bool_to_u8_def bit_1_iff)

lemma bit_qr_to_u8: "bit (qr_to_u8 q) n \<longleftrightarrow> q = Response \<and> n = 0"
  by (cases q) (simp_all add: bit_1_iff)

lemmas flag_bits = bit_single_masks bit_field_masks bit_bool_to_u8 bit_qr_to_u8 bit_1_iff bit_and_iff bit_or_iff
  bit_push_bit_iff possible_bit_word

lemma bit_header_flags0:
  "bit (header_flags0 h) n \<longleftrightarrow>
     (n = 7 \<and> h_qr h = Response) \<or> (3 \<le> n \<and> n < 7 \<and> bit (op_to_u8 (h_op h)) (n - 3)) \<or>
     (n = 2 \<and> h_authoritative h) \<or> (n = 1 \<and> h_truncated h) \<or> (n = 0 \<and> h_recursion_desired h)"
proof -
  have "bit (push_bit 3 (op_to_u8 (h_op h) AND 15)) n \<longleftrightarrow> 3 \<le> n \<and> n < 7 \<and> bit (op_to_u8 (h_op h)) (n - 3)"
    by (simp only: flag_bits) auto
  moreover have "bit (push_bit 7 (qr_to_u8 (h_qr h) AND 1)) n \<longleftrightarrow> n = 7 \<and> h_qr h = Response"
    by (simp only: flag_bits) auto
  moreover have "bit (push_bit 2 (bool_to_u8 b)) n \<longleftrightarrow> n = 2 \<and> b" for b
    by (simp only: flag_bits) auto
  moreover have "bit (push_bit 1 (bool_to_u8 b)) n \<longleftrightarrow> n = 1 \<and> b" for b
    by (simp only: flag_bits) auto
  ultimately show ?thesis
    unfolding header_flags0_def by (simp only: bit_or_iff bit_bool_to_u8) blast
qed

lemma bit_header_flags1:
  "bit (header_flags1 h) n \<longleftrightarrow>
     (n = 7 \<and> h_recursion_available h) \<or> (n < 4 \<and> bit (rcode_to_u8 (h_rcode h)) n)"
  unfolding header_flags1_def by (simp only: flag_bits) auto

lemma and_single_bit:
  "(x :: u8) AND 128 = 0 \<longleftrightarrow> \<not> bit x 7" "x AND 4 = 0 \<longleftrightarrow> \<not> bit x 2"
  "x AND 2 = 0 \<longleftrightarrow> \<not> bit x 1" "x AND 1 = 0 \<longleftrightarrow> \<not> bit x 0"
  using bit_iff_and_push_bit_not_eq_0 [of x 7] bit_iff_and_push_bit_not_eq_0 [of x 2]
    bit_iff_and_push_bit_not_eq_0 [of x 1] bit_iff_and_push_bit_not_eq_0 [of x 0]
  by (simp_all add: push_bit_eq_mult)

lemma flags0_op: "header_flags0 h AND 0b01111000 = push_bit 3 (op_to_u8 (h_op h) AND 15)"
  by (rule bit_eqI) (auto simp only: flag_bits bit_header_flags0)

lemma flags1_rcode: "header_flags1 h AND 15 = rcode_to_u8 (h_rcode h) AND 15"
  by (rule bit_eqI) (auto simp only: flag_bits bit_header_flags1)

subsection \<open>The header there and back\<close>

definition header_bytes :: "full_header \<Rightarrow> bytes" where
  "header_bytes h =
     be_of_u16 (h_id h) @ [header_flags0 h, header_flags1 h] @
     be_of_u16 (qd_count h) @ be_of_u16 (an_count h) @ be_of_u16 (ns_count h) @ be_of_u16 (ar_count h)"

definition header_as_read :: "full_header \<Rightarrow> full_header" where
  "header_as_read h =
     h\<lparr>h_op := op_from_u8 (push_bit 3 (op_to_u8 (h_op h) AND 15)),
       h_rcode := rcode_from_u8 (rcode_to_u8 (h_rcode h) AND 15)\<rparr>"

lemma length_header_bytes [simp]: "length (header_bytes h) = 12"
  by (simp add: header_bytes_def)

lemma emits_write_header: "wr.emits (write_header h) (header_bytes h) ()"
  unfolding write_header_def header_bytes_def by (rule wr.emits_put)

lemma header_bytes_nth:
  "header_bytes h ! 2 = header_flags0 h" "header_bytes h ! 3 = header_flags1 h"
  "u16_of_be (header_bytes h ! 0) (header_bytes h ! 1) = h_id h"
  "u16_of_be (header_bytes h ! 4) (header_bytes h ! 5) = qd_count h"
  "u16_of_be (header_bytes h ! 6) (header_bytes h ! 7) = an_count h"
  "u16_of_be (header_bytes h ! 8) (header_bytes h ! 9) = ns_count h"
  "u16_of_be (header_bytes h ! 10) (header_bytes h ! 11) = ar_count h"
  by (simp_all add: header_bytes_def be_of_u16_def)

lemma qr_not_Query: "(if q \<noteq> Response then Query else Response) = q"
  by (cases q) auto

lemma read_header_bytes:
  assumes "rd_data r = pre @ header_bytes h @ post" and "rd_pos r = length pre"
  shows "read_header r = Some (Ok (header_as_read h), r\<lparr>rd_pos := length pre + 12\<rparr>)"
proof -
  have "reader_read 12 r = Some (Ok (header_bytes h), r\<lparr>rd_pos := length pre + 12\<rparr>)"
    using assms by (intro reader_read_here) auto
  then show ?thesis
    unfolding read_header_def
    by (subst pbind_Ok [of "reader_read 12"], assumption)
      (simp only: Let_def header_bytes_nth and_single_bit flags0_op flags1_rcode,
       simp add: bit_header_flags0 bit_header_flags1 header_as_read_def pret_def qr_not_Query)
qed

subsection \<open>Which codes survive\<close>

lemma shifted_nibble_fixpoint: "push_bit 3 (n AND 15) = n \<longleftrightarrow> n = (0 :: u8)"
proof
  assume eq: "push_bit 3 (n AND 15) = n"
  have step: "bit n k \<longleftrightarrow> 3 \<le> k \<and> k < 7 \<and> bit n (k - 3)" for k
  proof -
    have "bit (push_bit 3 (n AND 15)) k \<longleftrightarrow> 3 \<le> k \<and> k < 7 \<and> bit n (k - 3)"
      by (simp only: flag_bits) auto
    then show ?thesis by (simp only: eq)
  qed
  have "\<not> bit n k" for k
  proof (induction k rule: less_induct)
    case (less k)
    then show ?case using step [of k] by (cases "3 \<le> k") simp_all
  qed
  then show "n = 0" by (auto intro: bit_eqI)
qed simp

lemma op_survives: "op_from_u8 (push_bit 3 (op_to_u8 op AND 15)) = op \<longleftrightarrow> op = OpQuery"
proof (cases op)
  case (OpOther n)
  then show ?thesis using shifted_nibble_fixpoint [of n] by (auto simp: op_from_u8_def split: if_splits)
qed (simp_all add: op_from_u8_def push_bit_eq_mult)

definition header_faithful :: "header \<Rightarrow> bool" where
  "header_faithful h \<longleftrightarrow>
     h_op h = OpQuery \<and> rcode_from_u8 (rcode_to_u8 (h_rcode h) AND 15) = h_rcode h"

end
