(* ===== verification/Message.thy ===== *)
theory Message
  imports NameCodec HeaderCodec
begin

unbundle bit_operations_syntax

text \<open>
  \<^verbatim>\<open>Message::encode\<close> and \<^verbatim>\<open>Message::decode\<close> of \<^verbatim>\<open>resolve/message.rs\<close>: the
  whole message, its encoding as bytes, and the way back.
\<close>

subsection \<open>Encoding and decoding\<close>

definition message_decode :: "idna_lib \<Rightarrow> bytes \<Rightarrow> (message, decode_error) outcome option" where
  "message_decode L data =
     map_option fst
       (pbind read_header (\<lambda>h.
          pbind (prepeat (unat (qd_count h)) (read_question L)) (\<lambda>qs.
            pbind (prepeat (unat (an_count h)) (read_resource L)) (\<lambda>an.
              pbind (prepeat (unat (ns_count h)) (read_resource L)) (\<lambda>ns.
                pbind (prepeat (unat (ar_count h)) (read_resource L)) (\<lambda>ar.
                  pbind finish (\<lambda>_.
                    pret \<lparr>m_header = to_header h, m_question = qs, m_answer = an,
                          m_authority = ns, m_additional = ar\<rparr>))))))
        (reader_new data))"

definition full_header_of :: "header \<Rightarrow> u16 \<Rightarrow> u16 \<Rightarrow> u16 \<Rightarrow> u16 \<Rightarrow> full_header" where
  "full_header_of h qd an ns ar =
     \<lparr>h_id = h_id h, h_qr = h_qr h, h_op = h_op h, h_authoritative = h_authoritative h,
      h_truncated = h_truncated h, h_recursion_desired = h_recursion_desired h,
      h_recursion_available = h_recursion_available h, h_rcode = h_rcode h,
      qd_count = qd, an_count = an, ns_count = ns, ar_count = ar\<rparr>"

text \<open>The result is the written part of the buffer, or the error; the buffer is left as written.\<close>

definition message_encode :: "idna_lib \<Rightarrow> message \<Rightarrow> bytes \<Rightarrow> ((bytes, encode_error) outcome \<times> bytes) option" where
  "message_encode L m buf =
     map_option (\<lambda>(out, w). (out, wr_buf w))
       (pbind (lift_outcome (to_u16 (length (m_question m)))) (\<lambda>qd.
          pbind (lift_outcome (to_u16 (length (m_answer m)))) (\<lambda>an.
            pbind (lift_outcome (to_u16 (length (m_authority m)))) (\<lambda>ns.
              pbind (lift_outcome (to_u16 (length (m_additional m)))) (\<lambda>ar.
                pbind (write_header (full_header_of (m_header m) qd an ns ar)) (\<lambda>_.
                  pbind (pfor (write_question L) (m_question m)) (\<lambda>_.
                    pbind (pfor (write_resource L) (m_answer m)) (\<lambda>_.
                      pbind (pfor (write_resource L) (m_authority m)) (\<lambda>_.
                        pbind (pfor (write_resource L) (m_additional m)) (\<lambda>_ w.
                          Some (Ok (into_bytes w), w))))))))))
        (writer_new buf))"

subsection \<open>Items that are written and read back\<close>

text \<open>
  An item of a message: \<open>put\<close> emits the bytes \<open>enc x\<close> for every well-formed \<open>x\<close>, and
  \<open>get\<close>, started in front of these bytes, consumes exactly them and returns a value that
  corresponds to \<open>x\<close>. Lists of items inherit both.
\<close>

locale wire_item =
  fixes put :: "'a \<Rightarrow> unit writing"
    and get :: "'b reading"
    and enc :: "'a \<Rightarrow> bytes"
    and ok :: "'a \<Rightarrow> bool"
    and same :: "'a \<Rightarrow> 'b \<Rightarrow> bool"
  assumes put_emits: "ok x \<Longrightarrow> wr.emits (put x) (enc x) ()"
    and get_reads: "ok x \<Longrightarrow> reads get (enc x) (same x)"
begin

lemma put_list_emits: "list_all ok xs \<Longrightarrow> wr.emits (pfor put xs) (concat (map enc xs)) ()"
  by (rule wr.emits_pfor) (auto simp: list_all_iff intro: put_emits)

lemma get_list_reads:
  "list_all ok xs \<Longrightarrow> reads (prepeat (length xs) get) (concat (map enc xs)) (list_all2 same xs)"
  by (rule reads_repeat) (auto simp: list_all_iff intro: get_reads)

end

subsection \<open>Questions\<close>

definition question_bytes :: "idna_lib \<Rightarrow> question \<Rightarrow> bytes" where
  "question_bytes L q =
     name_bytes L (q_name q) @ be_of_u16 (record_type_to_u16 (q_type q)) @
     be_of_u16 (class_to_u16 (q_class q))"

definition question_ok :: "idna_lib \<Rightarrow> question \<Rightarrow> bool" where
  "question_ok L q \<longleftrightarrow> encodable_name L (q_name q) \<and> readable_name L (q_name q)"

text \<open>The question as it is read: absolute name, named codes under their names.\<close>

definition question_read :: "idna_lib \<Rightarrow> question \<Rightarrow> question" where
  "question_read L q =
     \<lparr>q_name = absolute_name L (q_name q),
      q_type = record_type_from_u16 (record_type_to_u16 (q_type q)),
      q_class = class_from_u16 (class_to_u16 (q_class q))\<rparr>"

lemma nth_be_append:
  "(be_of_u16 x @ ys) ! 0 = word_of_nat (unat x div 256)"
  "(be_of_u16 x @ ys) ! Suc 0 = word_of_nat (unat x mod 256)"
  "(be_of_u16 x @ ys) ! Suc (Suc n) = ys ! n"
  by (simp_all add: be_of_u16_def)

lemma u16_of_be_nth: "u16_of_be (be_of_u16 x ! 0) (be_of_u16 x ! Suc 0) = x"
  by (simp add: be_of_u16_def)

lemma read_question_bytes:
  assumes "question_ok L q" and "rd_data r = pre @ question_bytes L q @ post" and "rd_pos r = length pre"
  shows "read_question L r =
    Some (Ok (question_read L q), r\<lparr>rd_pos := length pre + length (question_bytes L q)\<rparr>)"
proof -
  let ?n = "name_bytes L (q_name q)"
  let ?tc = "be_of_u16 (record_type_to_u16 (q_type q)) @ be_of_u16 (class_to_u16 (q_class q))"
  have "read_name L r = Some (Ok (absolute_name L (q_name q)), r\<lparr>rd_pos := length pre + length ?n\<rparr>)"
    using assms by (intro read_name_bytes) (auto simp: question_ok_def question_bytes_def)
  moreover have "reader_read 4 (r\<lparr>rd_pos := length pre + length ?n\<rparr>) =
      Some (Ok ?tc, r\<lparr>rd_pos := length pre + length ?n + 4\<rparr>)"
    using reader_read_here [of "r\<lparr>rd_pos := length pre + length ?n\<rparr>" "pre @ ?n" ?tc post 4] assms(2)
    by (simp add: question_bytes_def)
  ultimately show ?thesis
    by (simp add: read_question_def question_read_def question_bytes_def outcome_simps add.assoc)
      (simp add: be_of_u16_def numeral_3_eq_3)
qed

lemma emits_write_question:
  assumes "encodable_name L (q_name q)"
  shows "wr.emits (write_question L q) (question_bytes L q) ()"
  unfolding write_question_def question_bytes_def
  by (intro wr.emits_seq emits_write_name assms wr.emits_put)

interpretation question_item:
  wire_item "write_question L" "read_question L" "question_bytes L" "question_ok L"
    "\<lambda>q q'. q' = question_read L q" for L
  by unfold_locales (auto simp: question_ok_def emits_write_question read_question_bytes intro: readsI)

subsection \<open>Resources\<close>

definition rdata_of :: "resource \<Rightarrow> bytes" where
  "rdata_of r = drop (r_offset r) (r_data r)"

definition resource_bytes :: "idna_lib \<Rightarrow> resource \<Rightarrow> bytes" where
  "resource_bytes L r =
     name_bytes L (r_name r) @ be_of_u16 (record_type_to_u16 (r_type r)) @
     be_of_u16 (class_to_u16 (r_class r)) @ be_of_u32 (r_ttl r) @
     be_of_u16 (word_of_nat (length (rdata_of r))) @ rdata_of r"

definition resource_encodable :: "idna_lib \<Rightarrow> resource \<Rightarrow> bool" where
  "resource_encodable L r \<longleftrightarrow>
     encodable_name L (r_name r) \<and> r_offset r \<le> length (r_data r) \<and> length (rdata_of r) \<le> 65535"

definition resource_ok :: "idna_lib \<Rightarrow> resource \<Rightarrow> bool" where
  "resource_ok L r \<longleftrightarrow>
     encodable_name L (r_name r) \<and> readable_name L (r_name r) \<and>
     r_offset r \<le> length (r_data r) \<and> length (rdata_of r) \<le> 65535"

definition resource_same :: "idna_lib \<Rightarrow> resource \<Rightarrow> resource \<Rightarrow> bool" where
  "resource_same L r r' \<longleftrightarrow>
     r_name r' = absolute_name L (r_name r) \<and>
     r_type r' = record_type_from_u16 (record_type_to_u16 (r_type r)) \<and>
     r_class r' = class_from_u16 (class_to_u16 (r_class r)) \<and>
     r_ttl r' = r_ttl r \<and> r_offset r' \<le> length (r_data r') \<and> rdata_of r' = rdata_of r"

lemma position_at: "position (r\<lparr>rd_pos := p\<rparr>) = Some (Ok p, r\<lparr>rd_pos := p\<rparr>)"
  by (simp add: position_def)

lemma consume_at: "consume n (r\<lparr>rd_pos := p\<rparr>) = Some (Ok (), r\<lparr>rd_pos := p + n\<rparr>)"
  by (simp add: consume_def position_def set_position_def outcome_simps)

lemma emits_write_resource:
  assumes "resource_encodable L r"
  shows "wr.emits (write_resource L r) (resource_bytes L r) ()"
proof -
  let ?len = "word_of_nat (length (rdata_of r)) :: u16"
  let ?fix = "be_of_u16 (record_type_to_u16 (r_type r)) @ be_of_u16 (class_to_u16 (r_class r)) @
     be_of_u32 (r_ttl r) @ be_of_u16 ?len"
  have data: "get_rdata r = Ok (rdata_of r)" and len: "to_u16 (length (rdata_of r)) = Ok ?len"
    using assms by (auto simp: resource_encodable_def get_rdata_def rdata_of_def to_u16_def)
  have tail: "wr.emits (pbind (writer_write ?fix) (\<lambda>_. writer_write (rdata_of r))) (?fix @ rdata_of r) ()"
    by (intro wr.emits_seq wr.emits_put)
  have "wr.emits (write_resource L r) (name_bytes L (r_name r) @ ?fix @ rdata_of r) ()"
    unfolding write_resource_def data lift_bind_Ok len
    by (intro wr.emits_seq emits_write_name tail) (use assms in \<open>simp add: resource_encodable_def\<close>)
  then show ?thesis by (simp add: resource_bytes_def)
qed

text \<open>The writer accepts nothing else.\<close>

lemma write_resource_OkD:
  assumes "write_resource L r w = Some (Ok (), w')"
  shows "resource_encodable L r"
  using assms
  by (auto simp: write_resource_def resource_encodable_def rdata_of_def get_rdata_def to_u16_def lift_outcome_def
      elim!: pbind_OkE dest: write_name_OkD split: if_splits)

lemma write_question_OkD: "write_question L q w = Some (Ok (), w') \<Longrightarrow> encodable_name L (q_name q)"
  by (auto simp: write_question_def elim!: pbind_OkE dest: write_name_OkD)

lemma resource_ok_iff: "resource_ok L r \<longleftrightarrow> resource_encodable L r \<and> readable_name L (r_name r)"
  by (auto simp: resource_ok_def resource_encodable_def)

lemma read_resource_bytes:
  assumes "resource_ok L x" and "rd_data r = pre @ resource_bytes L x @ post" and "rd_pos r = length pre"
  shows "\<exists>y. read_resource L r = Some (Ok y, r\<lparr>rd_pos := length pre + length (resource_bytes L x)\<rparr>) \<and>
    resource_same L x y"
proof -
  let ?n = "name_bytes L (r_name x)"
  let ?len = "word_of_nat (length (rdata_of x)) :: u16"
  let ?fix = "be_of_u16 (record_type_to_u16 (r_type x)) @ be_of_u16 (class_to_u16 (r_class x)) @
     be_of_u32 (r_ttl x) @ be_of_u16 ?len"
  let ?off = "length pre + length ?n + 10"
  have ulen: "unat ?len = length (rdata_of x)"
    using assms(1) by (simp add: resource_ok_def unat_u16_of_nat)
  have name: "read_name L r = Some (Ok (absolute_name L (r_name x)), r\<lparr>rd_pos := length pre + length ?n\<rparr>)"
    using assms by (intro read_name_bytes) (auto simp: resource_ok_def resource_bytes_def)
  have fixed: "reader_read 10 (r\<lparr>rd_pos := length pre + length ?n\<rparr>) = Some (Ok ?fix, r\<lparr>rd_pos := ?off\<rparr>)"
    using reader_read_here [of "r\<lparr>rd_pos := length pre + length ?n\<rparr>" "pre @ ?n" ?fix "rdata_of x @ post" 10]
      assms(2) by (simp add: resource_bytes_def)
  have fields: "u16_of_be (?fix ! 8) (?fix ! 9) = ?len" "u16_of_be (?fix ! 2) (?fix ! 3) = class_to_u16 (r_class x)"
    "u16_of_be (?fix ! 0) (?fix ! 1) = record_type_to_u16 (r_type x)"
    "u32_of_be (?fix ! 4) (?fix ! 5) (?fix ! 6) (?fix ! 7) = r_ttl x"
    by (simp_all add: be_of_u16_def be_of_u32_def nth_append)
  have slice: "slice_to (?off + length (rdata_of x)) (r\<lparr>rd_pos := ?off\<rparr>) =
      Some (Ok (pre @ ?n @ ?fix @ rdata_of x), r\<lparr>rd_pos := ?off\<rparr>)"
    using assms(2) by (simp add: slice_to_def resource_bytes_def)
  have "read_resource L r =
      Some (Ok \<lparr>r_name = absolute_name L (r_name x),
                r_type = record_type_from_u16 (record_type_to_u16 (r_type x)),
                r_class = class_from_u16 (class_to_u16 (r_class x)), r_ttl = r_ttl x,
                r_data = pre @ ?n @ ?fix @ rdata_of x, r_offset = ?off\<rparr>,
            r\<lparr>rd_pos := ?off + length (rdata_of x)\<rparr>)"
    unfolding read_resource_def pbind_Ok [of "read_name L" r, OF name] pbind_Ok [of "reader_read 10", OF fixed] Let_def
      fields ulen
      pbind_Ok [of position, OF position_at] pbind_Ok [of "slice_to _", OF slice]
    by (simp add: outcome_simps consume_at)
  moreover have "length (resource_bytes L x) = length ?n + 10 + length (rdata_of x)"
    by (simp add: resource_bytes_def)
  ultimately show ?thesis
    by (simp add: resource_same_def rdata_of_def add.assoc)
qed

interpretation resource_item:
  wire_item "write_resource L" "read_resource L" "resource_bytes L" "resource_ok L" "resource_same L" for L
  by unfold_locales (auto simp: resource_ok_iff [symmetric] intro: emits_write_resource readsI read_resource_bytes dest: resource_ok_iff [THEN iffD1])

subsection \<open>Whole messages\<close>

definition message_ok :: "idna_lib \<Rightarrow> message \<Rightarrow> bool" where
  "message_ok L m \<longleftrightarrow>
     length (m_question m) \<le> 65535 \<and> length (m_answer m) \<le> 65535 \<and>
     length (m_authority m) \<le> 65535 \<and> length (m_additional m) \<le> 65535 \<and>
     list_all (question_ok L) (m_question m) \<and> list_all (resource_ok L) (m_answer m) \<and>
     list_all (resource_ok L) (m_authority m) \<and> list_all (resource_ok L) (m_additional m)"

text \<open>\<open>message_ok\<close> is what the writer asks for together with what the reader asks for.\<close>

definition message_resources :: "message \<Rightarrow> resource list" where
  "message_resources m = m_answer m @ m_authority m @ m_additional m"

definition message_encodable :: "idna_lib \<Rightarrow> message \<Rightarrow> bool" where
  "message_encodable L m \<longleftrightarrow>
     length (m_question m) \<le> 65535 \<and> length (m_answer m) \<le> 65535 \<and>
     length (m_authority m) \<le> 65535 \<and> length (m_additional m) \<le> 65535 \<and>
     list_all (\<lambda>q. encodable_name L (q_name q)) (m_question m) \<and>
     list_all (resource_encodable L) (message_resources m)"

definition message_readable :: "idna_lib \<Rightarrow> message \<Rightarrow> bool" where
  "message_readable L m \<longleftrightarrow>
     list_all (\<lambda>q. readable_name L (q_name q)) (m_question m) \<and>
     list_all (\<lambda>r. readable_name L (r_name r)) (message_resources m)"

lemma message_ok_iff: "message_ok L m \<longleftrightarrow> message_encodable L m \<and> message_readable L m"
  by (auto simp: message_ok_def message_encodable_def message_readable_def message_resources_def list_all_iff
      question_ok_def resource_ok_iff)

definition message_full_header :: "message \<Rightarrow> full_header" where
  "message_full_header m =
     full_header_of (m_header m)
       (word_of_nat (length (m_question m))) (word_of_nat (length (m_answer m)))
       (word_of_nat (length (m_authority m))) (word_of_nat (length (m_additional m)))"

definition message_bytes :: "idna_lib \<Rightarrow> message \<Rightarrow> bytes" where
  "message_bytes L m =
     header_bytes (message_full_header m) @
     concat (map (question_bytes L) (m_question m)) @
     concat (map (resource_bytes L) (m_answer m)) @
     concat (map (resource_bytes L) (m_authority m)) @
     concat (map (resource_bytes L) (m_additional m))"

text \<open>What a message is read back as.\<close>

definition message_same :: "idna_lib \<Rightarrow> message \<Rightarrow> message \<Rightarrow> bool" where
  "message_same L m m' \<longleftrightarrow>
     m_header m' = to_header (header_as_read (message_full_header m)) \<and>
     m_question m' = map (question_read L) (m_question m) \<and>
     list_all2 (resource_same L) (m_answer m) (m_answer m') \<and>
     list_all2 (resource_same L) (m_authority m) (m_authority m') \<and>
     list_all2 (resource_same L) (m_additional m) (m_additional m')"

lemma to_u16_Ok: "n \<le> 65535 \<Longrightarrow> to_u16 n = Ok (word_of_nat n)"
  by (simp add: to_u16_def)

definition write_sections :: "idna_lib \<Rightarrow> message \<Rightarrow> unit writing" where
  "write_sections L m =
     pbind (write_header (message_full_header m)) (\<lambda>_.
       pbind (pfor (write_question L) (m_question m)) (\<lambda>_.
         pbind (pfor (write_resource L) (m_answer m)) (\<lambda>_.
           pbind (pfor (write_resource L) (m_authority m)) (\<lambda>_.
             pfor (write_resource L) (m_additional m)))))"

lemma message_encode_sections:
  assumes "length (m_question m) \<le> 65535" "length (m_answer m) \<le> 65535"
    "length (m_authority m) \<le> 65535" "length (m_additional m) \<le> 65535"
  shows "message_encode L m buf =
    map_option (\<lambda>(out, w). (out, wr_buf w))
      (pbind (write_sections L m) (\<lambda>_ w. Some (Ok (into_bytes w), w)) (writer_new buf))"
  using assms unfolding message_encode_def write_sections_def
  by (simp add: to_u16_Ok lift_bind_Ok message_full_header_def pbind_assoc)

lemma emits_write_sections:
  assumes "message_encodable L m"
  shows "wr.emits (write_sections L m) (message_bytes L m) ()"
  using assms unfolding message_bytes_def write_sections_def message_encodable_def message_resources_def
  by (intro wr.emits_seq emits_write_header wr.emits_pfor)
    (auto simp: list_all_iff intro: emits_write_question emits_write_resource)

lemma message_encode_emits:
  assumes "message_encodable L m"
  shows "if length (message_bytes L m) \<le> min (length buf) MESSAGE_LIMIT
    then \<exists>buf'. message_encode L m buf = Some (Ok (message_bytes L m), buf')
    else \<exists>buf'. message_encode L m buf = Some (Err TooLong, buf')"
proof -
  have run: "message_encode L m buf =
      map_option (\<lambda>(out, w). (out, wr_buf w))
        (pbind (write_sections L m) (\<lambda>_ w. Some (Ok (into_bytes w), w)) (writer_new buf))"
    using assms by (intro message_encode_sections) (auto simp: message_encodable_def)
  note M = emits_write_sections [OF assms]
  show ?thesis
  proof (cases "length (message_bytes L m) \<le> min (length buf) MESSAGE_LIMIT")
    case True
    then obtain w' where "write_sections L m (writer_new buf) = Some (Ok (), w')" "into_bytes w' = message_bytes L m"
      by (auto intro: wr.emits_fits [OF M, of "writer_new buf"])
    with True show ?thesis by (simp add: run outcome_simps)
  next
    case False
    then obtain w' where "write_sections L m (writer_new buf) = Some (Err TooLong, w')"
      by (auto intro: wr.emits_full [OF M, of "writer_new buf"] simp: not_le)
    with False show ?thesis by (simp add: run outcome_simps)
  qed
qed

lemmas message_encode_run = message_encode_emits [OF message_ok_iff [THEN iffD1, THEN conjunct1]]

text \<open>A message that is not encodable is refused, and a panic has only one cause: a record whose
  data starts behind its end.\<close>

lemma message_encode_OkD:
  assumes "message_encode L m buf = Some (Ok data, buf')"
  shows "message_encodable L m"
proof -
  have n: "length (m_question m) \<le> 65535" "length (m_answer m) \<le> 65535"
    "length (m_authority m) \<le> 65535" "length (m_additional m) \<le> 65535"
    using assms by (auto simp: message_encode_def to_u16_def lift_outcome_def elim!: pbind_OkE split: if_splits)
  from assms obtain w' where "write_sections L m (writer_new buf) = Some (Ok (), w')"
    by (auto simp: message_encode_sections [OF n] elim!: pbind_OkE)
  with n show ?thesis
    unfolding message_encodable_def message_resources_def
    by (auto simp: write_sections_def elim!: pbind_OkE
        intro: pfor_OkD [OF _ write_question_OkD] pfor_OkD [OF _ write_resource_OkD])
qed

lemma message_encode_settles:
  "\<exists>out. map_option fst (message_encode L m buf) = Some out \<and>
     (out = Panic \<longrightarrow> list_ex (\<lambda>r. length (r_data r) < r_offset r) (message_resources m))"
proof -
  let ?P = "list_ex (\<lambda>r. length (r_data r) < r_offset r) (message_resources m)"
  have fin: "settles ?P (\<lambda>w. Some (Ok (into_bytes w), w) :: ((bytes, encode_error) outcome \<times> msg_writer) option)"
    by (simp add: settles_def)
  have len: "settles ?P (lift_outcome (to_u16 n))" for n
    by (intro settles_lift) (simp add: to_u16_def split: if_splits)
  have sec: "settles ?P (pfor (write_resource L) rs)" if "set rs \<subseteq> set (message_resources m)" for rs
    using that by (intro settles_pfor settles_write_resource) (auto simp: list_ex_iff not_less [symmetric])
  have "settles ?P (pbind (lift_outcome (to_u16 (length (m_question m)))) (\<lambda>qd.
          pbind (lift_outcome (to_u16 (length (m_answer m)))) (\<lambda>an.
            pbind (lift_outcome (to_u16 (length (m_authority m)))) (\<lambda>ns.
              pbind (lift_outcome (to_u16 (length (m_additional m)))) (\<lambda>ar.
                pbind (write_header (full_header_of (m_header m) qd an ns ar)) (\<lambda>_.
                  pbind (pfor (write_question L) (m_question m)) (\<lambda>_.
                    pbind (pfor (write_resource L) (m_answer m)) (\<lambda>_.
                      pbind (pfor (write_resource L) (m_authority m)) (\<lambda>_.
                        pbind (pfor (write_resource L) (m_additional m)) (\<lambda>_ w.
                          Some (Ok (into_bytes w), w)))))))))))"
    by (intro settles_bind len sec fin settles_write_header settles_pfor settles_write_question)
      (auto simp: message_resources_def)
  from this [unfolded settles_def, rule_format, of "writer_new buf"] show ?thesis
    unfolding message_encode_def by auto
qed

definition read_sections :: "idna_lib \<Rightarrow> message reading" where
  "read_sections L =
     pbind read_header (\<lambda>h.
       pbind (prepeat (unat (qd_count h)) (read_question L)) (\<lambda>qs.
         pbind (prepeat (unat (an_count h)) (read_resource L)) (\<lambda>an.
           pbind (prepeat (unat (ns_count h)) (read_resource L)) (\<lambda>ns.
             pbind (prepeat (unat (ar_count h)) (read_resource L)) (\<lambda>ar.
               pret \<lparr>m_header = to_header h, m_question = qs, m_answer = an,
                     m_authority = ns, m_additional = ar\<rparr>)))))"

lemma message_decode_sections:
  "message_decode L data =
     map_option fst (pbind (read_sections L) (\<lambda>m. pbind finish (\<lambda>_. pret m)) (reader_new data))"
  by (simp add: message_decode_def read_sections_def pbind_assoc pbind_pret)

lemma reads_header: "reads read_header (header_bytes h) (\<lambda>h'. h' = header_as_read h)"
  by (rule readsI) (simp add: read_header_bytes)

lemma reads_sections:
  assumes "message_ok L m"
  shows "reads (read_sections L) (message_bytes L m) (message_same L m)"
proof -
  let ?h = "header_as_read (message_full_header m)"
  note lens = assms [unfolded message_ok_def]
  have counts: "unat (qd_count ?h) = length (m_question m)" "unat (an_count ?h) = length (m_answer m)"
    "unat (ns_count ?h) = length (m_authority m)" "unat (ar_count ?h) = length (m_additional m)"
    using lens by (simp_all add: header_as_read_def message_full_header_def full_header_of_def unat_u16_of_nat)
  have map_same: "list_all2 (\<lambda>q q'. q' = question_read L q) (m_question m) qs \<longleftrightarrow>
      qs = map (question_read L) (m_question m)" for qs
    by (auto simp: list_eq_iff_nth_eq list_all2_conv_all_nth)
  show ?thesis
    unfolding message_bytes_def read_sections_def
    apply (rule reads_bind [OF reads_header], simp only: counts)
    apply (rule reads_bind [OF question_item.get_list_reads], use lens in simp)
    apply (rule reads_bind [OF resource_item.get_list_reads], use lens in simp)
    apply (rule reads_bind [OF resource_item.get_list_reads], use lens in simp)
    apply (rule reads_map [OF resource_item.get_list_reads], use lens in simp)
    apply (simp add: message_same_def map_same)
    done
qed

lemma decode_message_bytes:
  assumes "message_ok L m"
  shows "\<exists>m'. message_decode L (message_bytes L m) = Some (Ok m') \<and> message_same L m m'"
proof -
  obtain m' where "read_sections L (reader_new (message_bytes L m)) =
      Some (Ok m', (reader_new (message_bytes L m))\<lparr>rd_pos := length (message_bytes L m)\<rparr>)"
    "message_same L m m'"
    by (rule readsE [OF reads_sections [OF assms], of "reader_new (message_bytes L m)" "[]" "[]"])
      (auto simp: reader_new_def)
  moreover have "finish (r\<lparr>rd_pos := length (rd_data r)\<rparr>) = Some (Ok (), r\<lparr>rd_pos := length (rd_data r)\<rparr>)" for r
    by (simp add: finish_def remaining_def outcome_simps)
  note this [of "reader_new (message_bytes L m)"]
  ultimately show ?thesis
    by (simp add: message_decode_sections outcome_simps reader_new_def)
qed

subsection \<open>Properties\<close>

text \<open>C2: What \<open>encode\<close> returns for any message and buffer. If all names can be encoded, all record
  data is addressable and at most 65535 bytes long and no section has more than 65535 entries, it
  returns exactly the bytes of the wire format when they fit into the buffer and into 65535 bytes,
  and the error \<open>TooLong\<close> otherwise. Any other message is refused with an error, or by a panic,
  and that only if the data of some record starts behind its end.\<close>

theorem message_encode_exact:
  "if message_encodable L m
   then map_option fst (message_encode L m buf) =
     Some (if length (message_bytes L m) \<le> min (length buf) MESSAGE_LIMIT
           then Ok (message_bytes L m) else Err TooLong)
   else (\<exists>e. map_option fst (message_encode L m buf) = Some (Err e)) \<or>
     map_option fst (message_encode L m buf) = Some Panic \<and>
     list_ex (\<lambda>r. length (r_data r) < r_offset r) (message_resources m)"
proof (cases "message_encodable L m")
  case True
  then show ?thesis using message_encode_emits [of L m buf] by (auto split: if_splits)
next
  case False
  obtain out where "map_option fst (message_encode L m buf) = Some out"
    "out = Panic \<longrightarrow> list_ex (\<lambda>r. length (r_data r) < r_offset r) (message_resources m)"
    using message_encode_settles by blast
  moreover from False this(1) have "out \<noteq> Ok data" for data
    using message_encode_OkD by fastforce
  ultimately show ?thesis using False by (cases out) auto
qed

text \<open>A query for the address of \<^verbatim>\<open>usnet.de\<close>, as the resolver makes it.\<close>

definition sample_query :: message where
  "sample_query =
     (message_with_id 4711)\<lparr>m_question := [question_new (lit ''usnet.de'') TyA Internet]\<rparr>"

lemma sample_query_ok: "message_ok ascii_idna sample_query"
proof -
  have "encodable_name ascii_idna (lit ''usnet.de'')" by (simp add: encodable_name_eval)
  moreover have "plain_name (lit ''usnet.de'')" by (simp add: plain_name_def lit_def starts_with_def)
  ultimately show ?thesis
    by (simp add: message_ok_def sample_query_def message_with_id_def question_ok_def question_new_def
        plain_name_readable encodable_name_def)
qed

theorem message_encode_exact_witness:
  "map_option fst (message_encode ascii_idna sample_query [0, 0, 0]) = Some (Err TooLong)"
  using message_encode_exact [of ascii_idna sample_query "[0, 0, 0]"] sample_query_ok
  by (simp add: message_ok_iff message_bytes_def)

text \<open>C1: If \<open>encode\<close> produced a message and the labels of its names can be converted back from
  ASCII, then \<open>decode\<close> accepts it. Every flag of the header comes back, the operation code comes
  back shifted by three bits and the response code cut to four bits. Every question and record
  comes back in its section and place, with its name made absolute, type and class under the name
  of their number, the same time to live and the same record data.\<close>

theorem message_roundtrip:
  assumes "message_encode L m buf = Some (Ok data, buf')" and "message_readable L m"
  shows "\<exists>m'. message_decode L data = Some (Ok m') \<and>
    m_header m' = (m_header m)
      \<lparr>h_op := op_from_u8 (push_bit 3 (op_to_u8 (h_op (m_header m)) AND 15)),
       h_rcode := rcode_from_u8 (rcode_to_u8 (h_rcode (m_header m)) AND 15)\<rparr> \<and>
    m_question m' =
      map (\<lambda>q. \<lparr>q_name = absolute_name L (q_name q),
                q_type = record_type_from_u16 (record_type_to_u16 (q_type q)),
                q_class = class_from_u16 (class_to_u16 (q_class q))\<rparr>) (m_question m) \<and>
    (\<forall>section \<in> {m_answer, m_authority, m_additional}.
       list_all2 (\<lambda>r r'.
         r_name r' = absolute_name L (r_name r) \<and>
         r_type r' = record_type_from_u16 (record_type_to_u16 (r_type r)) \<and>
         r_class r' = class_from_u16 (class_to_u16 (r_class r)) \<and>
         r_ttl r' = r_ttl r \<and> (get_rdata r' :: (bytes, encode_error) outcome) = get_rdata r)
         (section m) (section m'))"
proof -
  have enc: "message_encodable L m" by (rule message_encode_OkD [OF assms(1)])
  with assms(2) have "message_ok L m" by (simp add: message_ok_iff)
  from decode_message_bytes [OF this] obtain m' where
    m': "message_decode L (message_bytes L m) = Some (Ok m')" "message_same L m m'" by blast
  moreover have "data = message_bytes L m"
    using message_encode_emits [OF enc, of buf] assms(1) by (auto split: if_splits)
  moreover have "list_all (\<lambda>r. r_offset r \<le> length (r_data r)) (m_answer m @ m_authority m @ m_additional m)"
    using enc by (auto simp: message_encodable_def message_resources_def resource_encodable_def list_all_iff)
  ultimately show ?thesis
    by (intro exI [of _ m']) (auto simp: message_same_def question_read_def to_header_def header_as_read_def
      message_full_header_def full_header_of_def resource_same_def get_rdata_def rdata_of_def list_all_iff
      intro!: ext header.equality elim!: list.rel_mono_strong)
qed

lemma sample_query_encodes:
  "\<exists>buf'. message_encode ascii_idna sample_query (replicate 100 0) =
     Some (Ok (message_bytes ascii_idna sample_query), buf')"
proof -
  have "length (message_bytes ascii_idna sample_query) \<le> 100"
    by (simp add: message_bytes_def sample_query_def message_with_id_def question_bytes_def name_bytes_def
        question_new_def name_labels_def label_bytes_def lit_def as_bytes_def utf8_char_def
        starts_with_def ends_with_def)
  then show ?thesis
    using message_encode_run [OF sample_query_ok, of "replicate 100 0"] by (simp add: MESSAGE_LIMIT_def)
qed

theorem message_roundtrip_witness:
  "\<exists>data m'. map_option fst (message_encode ascii_idna sample_query (replicate 100 0)) = Some (Ok data) \<and>
     message_decode ascii_idna data = Some (Ok m') \<and>
     m_question m' = [\<lparr>q_name = lit ''usnet.de.'', q_type = TyA, q_class = Internet\<rparr>]"
proof -
  obtain buf' where enc: "message_encode ascii_idna sample_query (replicate 100 0) =
      Some (Ok (message_bytes ascii_idna sample_query), buf')"
    using sample_query_encodes by blast
  have "message_readable ascii_idna sample_query"
    using sample_query_ok by (simp add: message_ok_iff)
  from message_roundtrip [OF enc this] obtain m' where
    "message_decode ascii_idna (message_bytes ascii_idna sample_query) = Some (Ok m')"
    "m_question m' = [\<lparr>q_name = absolute_name ascii_idna (lit ''usnet.de''),
       q_type = record_type_from_u16 (record_type_to_u16 TyA),
       q_class = class_from_u16 (class_to_u16 Internet)\<rparr>]"
    by (auto simp: sample_query_def message_with_id_def question_new_def)
  moreover have "absolute_name ascii_idna (lit ''usnet.de'') = lit ''usnet.de.''"
    by (subst plain_name_absolute)
      (simp_all add: plain_name_def is_valid_name_def str_len_def as_bytes_def utf8_char_def
        starts_with_def ends_with_def lit_def)
  ultimately show ?thesis
    using enc by (simp add: record_type_from_u16_def class_from_u16_def)
qed

text \<open>C23: A message comes back with the header it was sent with exactly when its operation code is
  \<open>Query\<close> and its response code is a four-bit code in canonical form: \<open>read_header\<close> does
  not shift the operation code down, so every other operation code is changed.\<close>

theorem header_roundtrip_iff:
  assumes "message_ok L m" and "message_encode L m buf = Some (Ok data, buf')"
    and "message_decode L data = Some (Ok m')"
  shows "m_header m' = m_header m \<longleftrightarrow> header_faithful (m_header m)"
proof -
  have "data = message_bytes L m"
    using message_encode_run [OF assms(1), of buf] assms(2) by (auto split: if_splits)
  with decode_message_bytes [OF assms(1)] assms(3) have "message_same L m m'" by auto
  then have "m_header m' = to_header (header_as_read (message_full_header m))"
    by (simp add: message_same_def)
  then show ?thesis
    by (cases "m_header m")
      (simp add: header_as_read_def message_full_header_def full_header_of_def to_header_def header_faithful_def
        op_survives [simplified])
qed

theorem header_roundtrip_iff_witness:
  "\<exists>data m'. map_option fst (message_encode ascii_idna sample_query (replicate 100 0)) = Some (Ok data) \<and>
     message_decode ascii_idna data = Some (Ok m') \<and> m_header m' = m_header sample_query"
proof -
  have "header_faithful (m_header sample_query)"
    by (simp add: header_faithful_def sample_query_def message_with_id_def header_with_id_def default_header_def
        rcode_from_u8_def)
  moreover obtain buf' where enc: "message_encode ascii_idna sample_query (replicate 100 0) =
      Some (Ok (message_bytes ascii_idna sample_query), buf')"
    using sample_query_encodes by blast
  moreover obtain m' where dec: "message_decode ascii_idna (message_bytes ascii_idna sample_query) = Some (Ok m')"
    using decode_message_bytes [OF sample_query_ok] by blast
  ultimately have "m_header m' = m_header sample_query"
    using header_roundtrip_iff [OF sample_query_ok enc dec] by simp
  with enc dec show ?thesis by simp
qed

end
