(* ===== verification/RecordData.thy ===== *)
theory RecordData
  imports Message
begin

text \<open>
  \<^verbatim>\<open>resolve/record.rs\<close>: the record types that know their own data, each with the three
  functions of the \<^verbatim>\<open>Record\<close> trait, and \<^verbatim>\<open>Resource::read_rdata\<close> and
  \<^verbatim>\<open>write_rdata\<close> of \<^verbatim>\<open>message.rs\<close>, which are generic in them. The trait is the
  interface \<open>wire_item\<close>; every record type is an interpretation of it, and what
  \<open>write_rdata\<close> stores \<open>read_rdata\<close> returns.
\<close>

subsection \<open>The record types\<close>

record rec_a = a_address :: ipv4_addr
record rec_aaaa = aaaa_address :: ipv6_addr
record rec_cname = cname_name :: ustr
record rec_mx =
  mx_preference :: u16
  mx_exchange :: ustr
record rec_ns = ns_name :: ustr
record rec_ptr = ptr_name :: ustr
record rec_soa =
  soa_mname :: ustr
  soa_rname :: ustr
  soa_serial :: u32
  soa_refresh :: u32
  soa_retry :: u32
  soa_expire :: u32
  soa_minimum :: u32
record rec_srv =
  srv_priority :: u16
  srv_weight :: u16
  srv_port :: u16
  srv_target :: ustr
record rec_txt = txt_data :: bytes

subsection \<open>\<open>Record::record_type\<close>\<close>

definition a_record_type :: record_type where "a_record_type = TyA"
definition aaaa_record_type :: record_type where "aaaa_record_type = TyAAAA"
definition cname_record_type :: record_type where "cname_record_type = TyCName"
definition mx_record_type :: record_type where "mx_record_type = TyMx"
definition ns_record_type :: record_type where "ns_record_type = TyNs"
definition ptr_record_type :: record_type where "ptr_record_type = TyPtr"
definition soa_record_type :: record_type where "soa_record_type = TySoa"
definition srv_record_type :: record_type where "srv_record_type = TySrv"
definition txt_record_type :: record_type where "txt_record_type = TyTxt"

subsection \<open>\<open>Record::decode\<close> and \<open>Record::encode\<close>\<close>

definition a_decode :: "rec_a reading" where
  "a_decode =
     pbind (reader_read 4) (\<lambda>buf.
       pret \<lparr>a_address = Ipv4Addr (buf ! 0) (buf ! 1) (buf ! 2) (buf ! 3)\<rparr>)"

definition a_encode :: "rec_a \<Rightarrow> unit writing" where
  "a_encode a = writer_write (octets (a_address a))"

definition aaaa_decode :: "rec_aaaa reading" where
  "aaaa_decode =
     pbind (reader_read 16) (\<lambda>buf.
       let seg = (\<lambda>i. u16_of_be (buf ! (2 * i)) (buf ! (2 * i + 1)))
       in pret \<lparr>aaaa_address =
            Ipv6Addr (seg 0) (seg 1) (seg 2) (seg 3) (seg 4) (seg 5) (seg 6) (seg 7)\<rparr>)"

definition aaaa_encode :: "rec_aaaa \<Rightarrow> unit writing" where
  "aaaa_encode a = writer_write (concat (map be_of_u16 (segments (aaaa_address a))))"

definition cname_decode :: "idna_lib \<Rightarrow> rec_cname reading" where
  "cname_decode L = pbind (read_name L) (\<lambda>n. pret \<lparr>cname_name = n\<rparr>)"

definition cname_encode :: "idna_lib \<Rightarrow> rec_cname \<Rightarrow> unit writing" where
  "cname_encode L c = write_name L (cname_name c)"

definition mx_decode :: "idna_lib \<Rightarrow> rec_mx reading" where
  "mx_decode L =
     pbind read_u16 (\<lambda>p. pbind (read_name L) (\<lambda>n. pret \<lparr>mx_preference = p, mx_exchange = n\<rparr>))"

definition mx_encode :: "idna_lib \<Rightarrow> rec_mx \<Rightarrow> unit writing" where
  "mx_encode L m = pbind (write_u16 (mx_preference m)) (\<lambda>_. write_name L (mx_exchange m))"

definition ns_decode :: "idna_lib \<Rightarrow> rec_ns reading" where
  "ns_decode L = pbind (read_name L) (\<lambda>n. pret \<lparr>ns_name = n\<rparr>)"

definition ns_encode :: "idna_lib \<Rightarrow> rec_ns \<Rightarrow> unit writing" where
  "ns_encode L c = write_name L (ns_name c)"

definition ptr_decode :: "idna_lib \<Rightarrow> rec_ptr reading" where
  "ptr_decode L = pbind (read_name L) (\<lambda>n. pret \<lparr>ptr_name = n\<rparr>)"

definition ptr_encode :: "idna_lib \<Rightarrow> rec_ptr \<Rightarrow> unit writing" where
  "ptr_encode L c = write_name L (ptr_name c)"

definition soa_decode :: "idna_lib \<Rightarrow> rec_soa reading" where
  "soa_decode L =
     pbind (read_name L) (\<lambda>mname. pbind (read_name L) (\<lambda>rname.
       pbind read_u32 (\<lambda>serial. pbind read_u32 (\<lambda>refresh. pbind read_u32 (\<lambda>retry.
         pbind read_u32 (\<lambda>expire. pbind read_u32 (\<lambda>minimum.
           pret \<lparr>soa_mname = mname, soa_rname = rname, soa_serial = serial,
                 soa_refresh = refresh, soa_retry = retry, soa_expire = expire,
                 soa_minimum = minimum\<rparr>)))))))"

definition soa_encode :: "idna_lib \<Rightarrow> rec_soa \<Rightarrow> unit writing" where
  "soa_encode L s =
     pbind (write_name L (soa_mname s)) (\<lambda>_. pbind (write_name L (soa_rname s)) (\<lambda>_.
       pbind (write_u32 (soa_serial s)) (\<lambda>_. pbind (write_u32 (soa_refresh s)) (\<lambda>_.
         pbind (write_u32 (soa_retry s)) (\<lambda>_. pbind (write_u32 (soa_expire s)) (\<lambda>_.
           pbind (write_u32 (soa_minimum s)) (\<lambda>_. pret ())))))))"

definition srv_decode :: "idna_lib \<Rightarrow> rec_srv reading" where
  "srv_decode L =
     pbind read_u16 (\<lambda>priority. pbind read_u16 (\<lambda>weight. pbind read_u16 (\<lambda>port.
       pbind (read_name L) (\<lambda>target.
         pret \<lparr>srv_priority = priority, srv_weight = weight, srv_port = port,
               srv_target = target\<rparr>))))"

definition srv_encode :: "idna_lib \<Rightarrow> rec_srv \<Rightarrow> unit writing" where
  "srv_encode L s =
     pbind (write_u16 (srv_priority s)) (\<lambda>_. pbind (write_u16 (srv_weight s)) (\<lambda>_.
       pbind (write_u16 (srv_port s)) (\<lambda>_. pbind (write_name L (srv_target s)) (\<lambda>_. pret ()))))"

definition txt_decode :: "rec_txt reading" where
  "txt_decode = pbind read_character_string (\<lambda>d. pret \<lparr>txt_data = d\<rparr>)"

definition txt_encode :: "rec_txt \<Rightarrow> unit writing" where
  "txt_encode t = write_character_string (txt_data t)"

subsection \<open>\<open>Resource::read_rdata\<close> and \<open>write_rdata\<close>\<close>

definition read_rdata :: "'a reading \<Rightarrow> resource \<Rightarrow> ('a, decode_error) outcome option" where
  "read_rdata decode r =
     map_option fst
       (pbind decode (\<lambda>res. pbind finish (\<lambda>_. pret res))
          (reader_with_offset (r_data r) (r_offset r)))"

text \<open>The buffer is on the stack; on an error the resource keeps its old data.\<close>

definition write_rdata ::
  "('a \<Rightarrow> unit writing) \<Rightarrow> 'a \<Rightarrow> resource \<Rightarrow> ((unit, encode_error) outcome \<times> resource) option" where
  "write_rdata encode x r =
     (case encode x (writer_new (replicate MESSAGE_LIMIT 0)) of
        None \<Rightarrow> None
      | Some (Ok _, w) \<Rightarrow> Some (Ok (), r\<lparr>r_data := into_bytes w, r_offset := 0\<rparr>)
      | Some (Err e, w) \<Rightarrow> Some (Err e, r)
      | Some (Panic, w) \<Rightarrow> Some (Panic, r))"

lemma write_rdata_refused:
  assumes "settles False (encode x)" and "\<And>w w'. encode x w \<noteq> Some (Ok (), w')"
  shows "\<exists>e. write_rdata encode x r = Some (Err e, r)"
proof -
  obtain out w where "encode x (writer_new (replicate MESSAGE_LIMIT 0)) = Some (out, w)" "out \<noteq> Panic"
    using assms(1) unfolding settles_def by blast
  with assms(2) show ?thesis by (cases out) (auto simp: write_rdata_def)
qed

context wire_item
begin

lemma write_rdata_fits:
  assumes "ok x" and "length (enc x) \<le> MESSAGE_LIMIT"
  shows "write_rdata put x r = Some (Ok (), r\<lparr>r_data := enc x, r_offset := 0\<rparr>)"
proof -
  obtain w where "put x (writer_new (replicate MESSAGE_LIMIT 0)) = Some (Ok (), w)" "into_bytes w = enc x"
    using assms(2) by (auto intro: wr.emits_fits [OF put_emits [OF assms(1)], of "writer_new (replicate MESSAGE_LIMIT 0)"])
  then show ?thesis by (simp add: write_rdata_def)
qed

lemma write_rdata_long:
  assumes "ok x" and "MESSAGE_LIMIT < length (enc x)"
  shows "write_rdata put x r = Some (Err TooLong, r)"
proof -
  obtain w where "put x (writer_new (replicate MESSAGE_LIMIT 0)) = Some (Err TooLong, w)"
    using assms(2) by (auto intro: wr.emits_full [OF put_emits [OF assms(1)], of "writer_new (replicate MESSAGE_LIMIT 0)"])
  then show ?thesis by (simp add: write_rdata_def)
qed

text \<open>The data may sit at the end of a longer message, as it does in a decoded resource.\<close>

lemma read_rdata_enc:
  assumes "ok x" and "r_data r = pre @ enc x" and "r_offset r = length pre"
  shows "\<exists>y. read_rdata get r = Some (Ok y) \<and> same x y"
proof -
  let ?r = "reader_with_offset (r_data r) (r_offset r)"
  obtain y where y: "get ?r = Some (Ok y, ?r\<lparr>rd_pos := length pre + length (enc x)\<rparr>)" "same x y"
    by (rule readsE [OF get_reads [OF assms(1)], of ?r pre "[]"]) (use assms in \<open>auto simp: reader_with_offset_def\<close>)
  moreover have "finish (?r\<lparr>rd_pos := length pre + length (enc x)\<rparr>) =
      Some (Ok (), ?r\<lparr>rd_pos := length pre + length (enc x)\<rparr>)"
    using assms by (simp add: finish_def remaining_def reader_with_offset_def outcome_simps)
  ultimately show ?thesis by (simp add: read_rdata_def outcome_simps)
qed

lemma rdata_roundtrip:
  assumes "ok x" and "length (enc x) \<le> MESSAGE_LIMIT"
  shows "\<exists>r' y. write_rdata put x r = Some (Ok (), r') \<and> read_rdata get r' = Some (Ok y) \<and> same x y"
  using read_rdata_enc [of x "r\<lparr>r_data := enc x, r_offset := 0\<rparr>" "[]"] assms
  by (simp add: write_rdata_fits)

end

subsection \<open>Every record type is a wire item\<close>

abbreviation name_ok :: "idna_lib \<Rightarrow> ustr \<Rightarrow> bool" where
  "name_ok L n \<equiv> encodable_name L n \<and> readable_name L n"

lemma reads_name: "name_ok L n \<Longrightarrow> reads (read_name L) (name_bytes L n) (\<lambda>m. m = absolute_name L n)"
  by (rule readsI) (simp add: read_name_bytes)

lemma octets_rebuild: "Ipv4Addr (octets a ! 0) (octets a ! 1) (octets a ! 2) (octets a ! 3) = a"
  by (cases a) simp

lemma length_octets [simp]: "length (octets a) = 4"
  by (cases a) simp

definition ipv6_bytes :: "ipv6_addr \<Rightarrow> bytes" where
  "ipv6_bytes a = concat (map be_of_u16 (segments a))"

lemma length_ipv6_bytes [simp]: "length (ipv6_bytes a) = 16"
  by (cases a) (simp add: ipv6_bytes_def)

lemma segments_rebuild:
  "(let seg = \<lambda>i. u16_of_be (ipv6_bytes a ! (2 * i)) (ipv6_bytes a ! (2 * i + 1))
    in Ipv6Addr (seg 0) (seg 1) (seg 2) (seg 3) (seg 4) (seg 5) (seg 6) (seg 7)) = a"
  by (cases a) (simp add: ipv6_bytes_def be_of_u16_def Let_def)

interpretation a_item: wire_item a_encode a_decode "\<lambda>a. octets (a_address a)" "\<lambda>_. True" "\<lambda>x y. y = x"
proof
  show "wr.emits (a_encode x) (octets (a_address x)) ()" for x
    unfolding a_encode_def by (rule wr.emits_put)
  show "reads a_decode (octets (a_address x)) (\<lambda>y. y = x)" for x
    unfolding a_decode_def by (rule reads_map [OF reads_read]) (simp_all only: octets_rebuild length_octets, simp)
qed

interpretation aaaa_item:
  wire_item aaaa_encode aaaa_decode "\<lambda>a. ipv6_bytes (aaaa_address a)" "\<lambda>_. True" "\<lambda>x y. y = x"
proof
  show "wr.emits (aaaa_encode x) (ipv6_bytes (aaaa_address x)) ()" for x
    unfolding aaaa_encode_def ipv6_bytes_def by (rule wr.emits_put)
  show "reads aaaa_decode (ipv6_bytes (aaaa_address x)) (\<lambda>y. y = x)" for x
    unfolding aaaa_decode_def Let_def
    by (rule reads_map [OF reads_read]) (simp_all only: segments_rebuild [unfolded Let_def] length_ipv6_bytes, simp)
qed

interpretation cname_item:
  wire_item "cname_encode L" "cname_decode L" "\<lambda>c. name_bytes L (cname_name c)" "\<lambda>c. name_ok L (cname_name c)"
    "\<lambda>x y. y = \<lparr>cname_name = absolute_name L (cname_name x)\<rparr>" for L
  by unfold_locales
    (auto simp: cname_encode_def cname_decode_def intro: emits_write_name reads_map [OF reads_name])

interpretation ns_item:
  wire_item "ns_encode L" "ns_decode L" "\<lambda>c. name_bytes L (ns_name c)" "\<lambda>c. name_ok L (ns_name c)"
    "\<lambda>x y. y = \<lparr>ns_name = absolute_name L (ns_name x)\<rparr>" for L
  by unfold_locales (auto simp: ns_encode_def ns_decode_def intro: emits_write_name reads_map [OF reads_name])

interpretation ptr_item:
  wire_item "ptr_encode L" "ptr_decode L" "\<lambda>c. name_bytes L (ptr_name c)" "\<lambda>c. name_ok L (ptr_name c)"
    "\<lambda>x y. y = \<lparr>ptr_name = absolute_name L (ptr_name x)\<rparr>" for L
  by unfold_locales (auto simp: ptr_encode_def ptr_decode_def intro: emits_write_name reads_map [OF reads_name])

interpretation mx_item:
  wire_item "mx_encode L" "mx_decode L" "\<lambda>m. be_of_u16 (mx_preference m) @ name_bytes L (mx_exchange m)"
    "\<lambda>m. name_ok L (mx_exchange m)"
    "\<lambda>x y. y = \<lparr>mx_preference = mx_preference x, mx_exchange = absolute_name L (mx_exchange x)\<rparr>" for L
  by unfold_locales
    (auto simp: mx_encode_def mx_decode_def
      intro: wr.emits_seq emits_write_u16 emits_write_name reads_bind [OF reads_u16] reads_map [OF reads_name])

lemma pbind_unit: "pbind m (\<lambda>_. pret ()) = m"
  by (rule ext) (simp add: pbind_def pret_def split: option.splits outcome.splits prod.splits)

definition srv_bytes :: "idna_lib \<Rightarrow> rec_srv \<Rightarrow> bytes" where
  "srv_bytes L s =
     be_of_u16 (srv_priority s) @ be_of_u16 (srv_weight s) @ be_of_u16 (srv_port s) @
     name_bytes L (srv_target s)"

interpretation srv_item:
  wire_item "srv_encode L" "srv_decode L" "srv_bytes L" "\<lambda>s. name_ok L (srv_target s)"
    "\<lambda>x y. y = x\<lparr>srv_target := absolute_name L (srv_target x)\<rparr>" for L
proof
  fix s :: rec_srv assume ok: "name_ok L (srv_target s)"
  show "wr.emits (srv_encode L s) (srv_bytes L s) ()"
    unfolding srv_encode_def srv_bytes_def pbind_unit
    using ok by (intro wr.emits_seq emits_write_u16 emits_write_name) simp
  show "reads (srv_decode L) (srv_bytes L s) (\<lambda>y. y = s\<lparr>srv_target := absolute_name L (srv_target s)\<rparr>)"
    unfolding srv_decode_def srv_bytes_def using ok
    by (intro reads_bind [OF reads_u16] reads_map [OF reads_name]) auto
qed

definition soa_bytes :: "idna_lib \<Rightarrow> rec_soa \<Rightarrow> bytes" where
  "soa_bytes L s =
     name_bytes L (soa_mname s) @ name_bytes L (soa_rname s) @ be_of_u32 (soa_serial s) @
     be_of_u32 (soa_refresh s) @ be_of_u32 (soa_retry s) @ be_of_u32 (soa_expire s) @
     be_of_u32 (soa_minimum s)"

interpretation soa_item:
  wire_item "soa_encode L" "soa_decode L" "soa_bytes L"
    "\<lambda>s. name_ok L (soa_mname s) \<and> name_ok L (soa_rname s)"
    "\<lambda>x y. y = x\<lparr>soa_mname := absolute_name L (soa_mname x), soa_rname := absolute_name L (soa_rname x)\<rparr>" for L
proof
  fix s :: rec_soa assume ok: "name_ok L (soa_mname s) \<and> name_ok L (soa_rname s)"
  show "wr.emits (soa_encode L s) (soa_bytes L s) ()"
    unfolding soa_encode_def soa_bytes_def pbind_unit
    using ok by (intro wr.emits_seq emits_write_u32 emits_write_name) simp_all
  show "reads (soa_decode L) (soa_bytes L s)
      (\<lambda>y. y = s\<lparr>soa_mname := absolute_name L (soa_mname s), soa_rname := absolute_name L (soa_rname s)\<rparr>)"
    unfolding soa_decode_def soa_bytes_def using ok
    by (intro reads_bind [OF reads_name] reads_bind [OF reads_u32] reads_map [OF reads_u32]) auto
qed

interpretation txt_item:
  wire_item txt_encode txt_decode "\<lambda>t. word_of_nat (length (txt_data t)) # txt_data t"
    "\<lambda>t. length (txt_data t) \<le> 255" "\<lambda>x y. y = x"
  by unfold_locales
    (auto simp: txt_encode_def txt_decode_def
      intro: emits_write_character_string reads_map [OF reads_character_string])

subsection \<open>Properties\<close>

text \<open>Every address record round-trips: \<open>write_rdata\<close> stores the address in network byte order and
  \<open>read_rdata\<close> returns the same record, for IPv4 and for IPv6.\<close>

theorem address_rdata_roundtrip:
  "\<exists>r4 r6. write_rdata a_encode a r = Some (Ok (), r4) \<and> get_rdata r4 = (Ok (octets (a_address a)) :: (bytes, unit) outcome) \<and>
     read_rdata a_decode r4 = Some (Ok a) \<and>
     write_rdata aaaa_encode b r = Some (Ok (), r6) \<and> read_rdata aaaa_decode r6 = Some (Ok b)"
proof -
  let ?r4 = "r\<lparr>r_data := octets (a_address a), r_offset := 0\<rparr>"
  let ?r6 = "r\<lparr>r_data := ipv6_bytes (aaaa_address b), r_offset := 0\<rparr>"
  have "write_rdata a_encode a r = Some (Ok (), ?r4)"
    by (rule a_item.write_rdata_fits) (simp_all add: MESSAGE_LIMIT_def)
  moreover have "write_rdata aaaa_encode b r = Some (Ok (), ?r6)"
    by (rule aaaa_item.write_rdata_fits) (simp_all add: MESSAGE_LIMIT_def)
  moreover have "read_rdata a_decode ?r4 = Some (Ok a)"
    using a_item.read_rdata_enc [where x = a and r = ?r4 and pre = "[]"] by simp
  moreover have "read_rdata aaaa_decode ?r6 = Some (Ok b)"
    using aaaa_item.read_rdata_enc [where x = b and r = ?r6 and pre = "[]"] by simp
  ultimately show ?thesis by (simp add: get_rdata_def)
qed

lemma soa_bytes_bound:
  assumes "encodable_name L (soa_mname s)" and "encodable_name L (soa_rname s)"
  shows "length (soa_bytes L s) \<le> MESSAGE_LIMIT"
proof -
  have "length (name_bytes L n) \<le> 255" if "encodable_name L n" for n
    using that by (auto simp: encodable_name_def name_bytes_def length_label_bytes_concat NAME_LIMIT_def
        split: option.splits)
  from this [OF assms(1)] this [OF assms(2)] show ?thesis
    by (simp add: soa_bytes_def MESSAGE_LIMIT_def)
qed

text \<open>C29: For a start-of-authority record whose two names have only labels that can be converted back
  from ASCII: if both names can be encoded, writing the record succeeds and reading the written data
  gives the record with both names made absolute and all five counters kept; if one of them cannot,
  writing is refused with an error and leaves the resource as it was.\<close>

theorem soa_rdata_roundtrip:
  assumes "readable_name L (soa_mname s)" and "readable_name L (soa_rname s)"
  shows "if encodable_name L (soa_mname s) \<and> encodable_name L (soa_rname s)
    then \<exists>r'. write_rdata (soa_encode L) s r = Some (Ok (), r') \<and>
      read_rdata (soa_decode L) r' =
        Some (Ok (s\<lparr>soa_mname := absolute_name L (soa_mname s), soa_rname := absolute_name L (soa_rname s)\<rparr>))
    else \<exists>e. write_rdata (soa_encode L) s r = Some (Err e, r)"
proof (cases "encodable_name L (soa_mname s) \<and> encodable_name L (soa_rname s)")
  case True
  then show ?thesis using soa_item.rdata_roundtrip [of L s r] assms soa_bytes_bound [of L s] by simp
next
  case False
  then have "soa_encode L s w \<noteq> Some (Ok (), w')" for w w'
    by (auto simp: soa_encode_def elim!: pbind_OkE dest: write_name_OkD)
  moreover have "settles False (soa_encode L s)"
    unfolding soa_encode_def by (intro settles_bind settles_write_name settles_write_u32 settles_pret)
  ultimately show ?thesis using False write_rdata_refused [of "soa_encode L" s r] by auto
qed

text \<open>The zone of \<^verbatim>\<open>usnet.de\<close>.\<close>

theorem soa_rdata_roundtrip_witness:
  "\<exists>s r'. soa_mname s = lit ''ns.usnet.de'' \<and> soa_serial s = 7 \<and>
     write_rdata (soa_encode ascii_idna) s (resource_new [] TySoa Internet 60) = Some (Ok (), r') \<and>
     read_rdata (soa_decode ascii_idna) r' =
       Some (Ok (s\<lparr>soa_mname := lit ''ns.usnet.de.'', soa_rname := lit ''root.usnet.de.''\<rparr>))"
proof -
  let ?s = "\<lparr>soa_mname = lit ''ns.usnet.de'', soa_rname = lit ''root.usnet.de'', soa_serial = 7, soa_refresh = 1,
    soa_retry = 2, soa_expire = 3, soa_minimum = 4\<rparr>"
  have "plain_name (soa_mname ?s)" "plain_name (soa_rname ?s)"
    by (simp_all add: plain_name_def lit_def starts_with_def)
  moreover have enc: "encodable_name ascii_idna (soa_mname ?s)" "encodable_name ascii_idna (soa_rname ?s)"
    by (simp_all add: encodable_name_eval)
  ultimately have "readable_name ascii_idna (soa_mname ?s)" "readable_name ascii_idna (soa_rname ?s)"
    "absolute_name ascii_idna (soa_mname ?s) = lit ''ns.usnet.de.''"
    "absolute_name ascii_idna (soa_rname ?s) = lit ''root.usnet.de.''"
    by (simp_all only: plain_name_readable plain_name_absolute encodable_name_def)
      (simp_all add: lit_def ends_with_def starts_with_def)
  with enc soa_rdata_roundtrip [of ascii_idna ?s "resource_new [] TySoa Internet 60"] show ?thesis
    by (intro exI [of _ ?s]) simp
qed

text \<open>A text record holds one character string: up to 255 bytes round-trip, anything longer is
  refused with \<open>TooLong\<close> and leaves the resource as it was.\<close>

theorem txt_rdata:
  "if length (txt_data t) \<le> 255
   then \<exists>r'. write_rdata txt_encode t r = Some (Ok (), r') \<and> read_rdata txt_decode r' = Some (Ok t)
   else write_rdata txt_encode t r = Some (Err TooLong, r)"
  using txt_item.rdata_roundtrip [of t r]
  by (simp add: MESSAGE_LIMIT_def) (simp add: write_rdata_def txt_encode_def write_character_string_def pthrow_def)

end
