(* ===== verification/Io.thy ===== *)
theory Io
  imports Text
begin

text \<open>
  \<^verbatim>\<open>std::io::Error\<close> as the library makes and inspects it: a kind and the text that
  \<^verbatim>\<open>Display\<close> shows. Kinds that only the operating system reports are kept apart by a
  number.
\<close>

datatype io_error_kind =
    KInvalidData | KInvalidInput | KOther | KTimedOut | KWouldBlock | KSystem nat

record io_error =
  io_kind :: io_error_kind
  io_text :: ustr

definition io_error_new :: "io_error_kind \<Rightarrow> ustr \<Rightarrow> io_error" where
  "io_error_new k t = \<lparr>io_kind = k, io_text = t\<rparr>"

text \<open>\<^verbatim>\<open>std::time::Duration\<close>, in nanoseconds.\<close>

type_synonym duration = nat

definition from_secs :: "nat \<Rightarrow> duration" where
  "from_secs n = n * 1000000000"

end
