(* ===== verification/DnsSocket.thy ===== *)
theory DnsSocket
  imports RecordData Io
begin

text \<open>
  \<^verbatim>\<open>resolve/socket.rs\<close>: DNS messages over a UDP socket, and the error type of the
  resolver. The operations of the UDP socket are a record of functions over a state
  \<open>'s\<close> that holds the socket and its surroundings, the clock included; any of them may
  block forever (\<open>None\<close>).
\<close>

subsection \<open>Errors\<close>

datatype dns_err =
    DecodeError decode_error
  | EncodeError encode_error
  | DnsErr dns_error
  | IoError io_error

definition is_timeout :: "dns_err \<Rightarrow> bool" where
  "is_timeout e = (case e of IoError e \<Rightarrow> io_kind e = KTimedOut \<or> io_kind e = KWouldBlock | _ \<Rightarrow> False)"

fun show_dns_error :: "dns_error \<Rightarrow> ustr" where
  "show_dns_error (DnsError rc) = rcode_get_error rc"

fun show_dns_err :: "dns_err \<Rightarrow> ustr" where
  "show_dns_err (DecodeError e) = lit ''error decoding message: '' @ show_decode_error e"
| "show_dns_err (EncodeError e) = lit ''error encoding message: '' @ show_encode_error e"
| "show_dns_err (DnsErr e) = lit ''server responded with error: '' @ show_dns_error e"
| "show_dns_err (IoError e) = io_text e"

text \<open>The \<^verbatim>\<open>From\<close> conversions that \<^verbatim>\<open>try!\<close> applies.\<close>

definition map_err :: "('e \<Rightarrow> 'f) \<Rightarrow> ('s, 'e, 'a) prog \<Rightarrow> ('s, 'f, 'a) prog" where
  "map_err f m s =
     (case m s of
        None \<Rightarrow> None
      | Some (Ok a, s') \<Rightarrow> Some (Ok a, s')
      | Some (Err e, s') \<Rightarrow> Some (Err (f e), s')
      | Some (Panic, s') \<Rightarrow> Some (Panic, s'))"

definition pure_prog :: "('a, 'e) outcome option \<Rightarrow> ('s, 'e, 'a) prog" where
  "pure_prog out s = map_option (\<lambda>x. (x, s)) out"

subsection \<open>The socket\<close>

record 's udp_ops =
  udp_bind :: "socket_addr \<Rightarrow> ('s, io_error, unit) prog"
  udp_send_to :: "bytes \<Rightarrow> socket_addr \<Rightarrow> ('s, io_error, nat) prog"
  udp_recv_from :: "nat \<Rightarrow> ('s, io_error, bytes \<times> socket_addr) prog"
    \<comment> \<open>buffer size; the bytes stored at its front\<close>
  udp_set_read_timeout :: "duration option \<Rightarrow> ('s, io_error, unit) prog"
  udp_now :: "'s \<Rightarrow> nat \<times> 's"
    \<comment> \<open>\<^verbatim>\<open>Instant::now\<close>, in nanoseconds\<close>

definition dns_socket_bind :: "'s udp_ops \<Rightarrow> socket_addr \<Rightarrow> ('s, io_error, unit) prog" where
  "dns_socket_bind U addr = udp_bind U addr"

definition dns_socket_new :: "'s udp_ops \<Rightarrow> ('s, io_error, unit) prog" where
  "dns_socket_new U = dns_socket_bind U (socket_addr_new (V6 (Ipv6Addr 0 0 0 0 0 0 0 0)) 0)"

definition socket_send_message ::
  "'s udp_ops \<Rightarrow> idna_lib \<Rightarrow> message \<Rightarrow> socket_addr \<Rightarrow> ('s, dns_err, unit) prog" where
  "socket_send_message U L msg addr =
     pbind (map_err EncodeError
              (pure_prog (map_option fst (message_encode L msg (replicate MESSAGE_LIMIT 0))))) (\<lambda>data.
       pbind (map_err IoError (udp_send_to U data addr)) (\<lambda>_. pret ()))"

definition socket_recv_from ::
  "'s udp_ops \<Rightarrow> idna_lib \<Rightarrow> nat \<Rightarrow> ('s, dns_err, message \<times> socket_addr) prog" where
  "socket_recv_from U L buf_len =
     pbind (map_err IoError (udp_recv_from U buf_len)) (\<lambda>(data, addr).
       pbind (map_err DecodeError (pure_prog (message_decode L data))) (\<lambda>msg. pret (msg, addr)))"

definition socket_recv_message ::
  "'s udp_ops \<Rightarrow> idna_lib \<Rightarrow> socket_addr \<Rightarrow> nat \<Rightarrow> ('s, dns_err, message option) prog" where
  "socket_recv_message U L addr buf_len =
     pbind (map_err IoError (udp_recv_from U buf_len)) (\<lambda>(data, recv_addr).
       if \<not> socket_address_equal recv_addr addr then pret None
       else pbind (map_err DecodeError (pure_prog (message_decode L data))) (\<lambda>msg. pret (Some msg)))"

subsection \<open>What the socket operations did\<close>

lemma map_err_cases:
  assumes "map_err f m s = Some (out, s')"
  obtains (Ok) a where "m s = Some (Ok a, s')" and "out = Ok a"
  | (Err) e where "m s = Some (Err e, s')" and "out = Err (f e)"
  | (Panic) "m s = Some (Panic, s')" and "out = Panic"
  using assms by (auto simp: map_err_def split: option.splits prod.splits outcome.splits)

lemma map_err_apply [outcome_simps]:
  "m s = None \<Longrightarrow> map_err f m s = None"
  "m s = Some (Ok a, s') \<Longrightarrow> map_err f m s = Some (Ok a, s')"
  "m s = Some (Err e, s') \<Longrightarrow> map_err f m s = Some (Err (f e), s')"
  "m s = Some (Panic, s') \<Longrightarrow> map_err f m s = Some (Panic, s')"
  by (simp_all add: map_err_def)

lemma pure_prog_apply [outcome_simps]: "pure_prog out s = map_option (\<lambda>x. (x, s)) out"
  by (simp add: pure_prog_def)

lemma socket_recv_message_SomeD:
  assumes "socket_recv_message U L addr n s = Some (Ok (Some msg), s')"
  obtains data src where "udp_recv_from U n s = Some (Ok (data, src), s')"
    and "socket_address_equal src addr" and "message_decode L data = Some (Ok msg)"
  using assms
  by (auto simp: socket_recv_message_def pret_def pure_prog_def elim!: pbind_OkE map_err_cases
      split: if_splits prod.splits)

end
