(* ===== verification/ResolvConf.thy ===== *)
theory ResolvConf
  imports Address Io
begin

text \<open>
  \<^verbatim>\<open>resolve/config.rs\<close>, \<^verbatim>\<open>resolve/resolv_conf.rs\<close> and \<^verbatim>\<open>resolve/hostname.rs\<close>:
  the resolver configuration, its defaults, and the parser of \<^verbatim>\<open>resolv.conf\<close>. The
  parser keeps every limit it names and takes exactly the first three name servers; nothing
  keeps \<open>attempts\<close> away from zero.
\<close>

subsection \<open>\<open>config.rs\<close>\<close>

record dns_config =
  name_servers :: "socket_addr list"
  search :: "ustr list"
  n_dots :: u32
  timeout :: duration
  attempts :: u32
  rotate :: bool
  use_inet6 :: bool

definition with_name_servers :: "socket_addr list \<Rightarrow> dns_config" where
  "with_name_servers ns =
     \<lparr>name_servers = ns, search = [], n_dots = 1, timeout = from_secs 5, attempts = 5,
      rotate = False, use_inet6 = False\<rparr>"

subsection \<open>\<open>resolv_conf.rs\<close>\<close>

definition DNS_PORT :: u16 where "DNS_PORT = 53"
definition MAX_NAME_SERVERS :: nat where "MAX_NAME_SERVERS = 3"
definition DEFAULT_ATTEMPTS :: u32 where "DEFAULT_ATTEMPTS = 2"
definition DEFAULT_N_DOTS :: u32 where "DEFAULT_N_DOTS = 1"
definition DEFAULT_TIMEOUT :: nat where "DEFAULT_TIMEOUT = 5"
definition MAX_ATTEMPTS :: u32 where "MAX_ATTEMPTS = 5"
definition MAX_N_DOTS :: u32 where "MAX_N_DOTS = 15"
definition MAX_TIMEOUT :: nat where "MAX_TIMEOUT = 30"
definition RESOLV_CONF_PATH :: ustr where "RESOLV_CONF_PATH = lit ''/etc/resolv.conf''"

definition default_config :: dns_config where
  "default_config =
     \<lparr>name_servers = [], search = [], n_dots = DEFAULT_N_DOTS,
      timeout = from_secs DEFAULT_TIMEOUT, attempts = DEFAULT_ATTEMPTS,
      rotate = False, use_inet6 = False\<rparr>"

text \<open>\<^verbatim>\<open>str::parse\<close> at \<^verbatim>\<open>u32\<close> and at \<^verbatim>\<open>u64\<close>.\<close>

definition parse_u32 :: "ustr \<Rightarrow> u32 option" where
  "parse_u32 s = map_option word_of_nat (parse_unsigned 10 4294967296 s)"

definition parse_u64 :: "ustr \<Rightarrow> nat option" where
  "parse_u64 s = parse_unsigned 10 18446744073709551616 s"

definition resolv_option :: "ustr \<Rightarrow> dns_config \<Rightarrow> dns_config" where
  "resolv_option word cfg =
     (let (opt, value) = (case split_first colon word of Some (a, b) \<Rightarrow> (a, b) | None \<Rightarrow> (word, []))
      in if opt = lit ''ndots'' then
           (case parse_u32 value of
              Some n \<Rightarrow> cfg\<lparr>n_dots := min n MAX_N_DOTS\<rparr> | None \<Rightarrow> cfg)
         else if opt = lit ''timeout'' then
           (case parse_u64 value of
              Some n \<Rightarrow> cfg\<lparr>timeout := from_secs (min n MAX_TIMEOUT)\<rparr> | None \<Rightarrow> cfg)
         else if opt = lit ''attempts'' then
           (case parse_u32 value of
              Some n \<Rightarrow> cfg\<lparr>attempts := min n MAX_ATTEMPTS\<rparr> | None \<Rightarrow> cfg)
         else if opt = lit ''rotate'' then cfg\<lparr>rotate := True\<rparr>
         else if opt = lit ''inet6'' then cfg\<lparr>use_inet6 := True\<rparr>
         else cfg)"

definition resolv_line :: "ustr \<Rightarrow> dns_config \<Rightarrow> dns_config" where
  "resolv_line line cfg =
     (if line = [] \<or> hd line = 35 \<or> hd line = 59 then cfg
      else case split_whitespace line of
             [] \<Rightarrow> cfg
           | name # words \<Rightarrow>
               if name = lit ''nameserver'' then
                 (case words of
                    ip # _ \<Rightarrow>
                      if length (name_servers cfg) < MAX_NAME_SERVERS then
                        (case parse_ip_addr ip of
                           Some a \<Rightarrow>
                             cfg\<lparr>name_servers := name_servers cfg @ [socket_addr_new a DNS_PORT]\<rparr>
                         | None \<Rightarrow> cfg)
                      else cfg
                  | [] \<Rightarrow> cfg)
               else if name = lit ''domain'' then
                 (case words of domain # _ \<Rightarrow> cfg\<lparr>search := [domain]\<rparr> | [] \<Rightarrow> cfg)
               else if name = lit ''search'' then cfg\<lparr>search := words\<rparr>
               else if name = lit ''options'' then fold resolv_option words cfg
               else cfg)"

text \<open>
  The reader yields lines until it is exhausted or fails; \<open>hostname\<close> is what
  \<^verbatim>\<open>get_hostname\<close> returns when it is called.
\<close>

primrec resolv_lines ::
  "(ustr, io_error) outcome list \<Rightarrow> dns_config \<Rightarrow> (dns_config, io_error) outcome" where
  "resolv_lines [] cfg = Ok cfg"
| "resolv_lines (l # ls) cfg =
     (case l of
        Ok line \<Rightarrow> resolv_lines ls (resolv_line line cfg)
      | Err e \<Rightarrow> Err e
      | Panic \<Rightarrow> Panic)"

definition resolv_finish ::
  "(ustr, io_error) outcome \<Rightarrow> dns_config \<Rightarrow> (dns_config, io_error) outcome" where
  "resolv_finish hostname cfg =
     (if name_servers cfg = [] then
        Err (io_error_new KOther (lit ''no nameserver directives in resolv.conf''))
      else if search cfg = [] then
        (case hostname of
           Ok host \<Rightarrow>
             (case split_first dot host of
                Some (_, domain) \<Rightarrow> Ok (cfg\<lparr>search := [domain]\<rparr>)
              | None \<Rightarrow> Ok cfg)
         | Err e \<Rightarrow> Err e
         | Panic \<Rightarrow> Panic)
      else Ok cfg)"

definition resolv_parse ::
  "(ustr, io_error) outcome list \<Rightarrow> (ustr, io_error) outcome \<Rightarrow> (dns_config, io_error) outcome" where
  "resolv_parse ls hostname =
     (case resolv_lines ls default_config of
        Ok cfg \<Rightarrow> resolv_finish hostname cfg
      | Err e \<Rightarrow> Err e
      | Panic \<Rightarrow> Panic)"

text \<open>\<^verbatim>\<open>load\<close>, and \<^verbatim>\<open>DnsConfig::load_default\<close> through \<^verbatim>\<open>default_config_impl\<close>.\<close>

definition resolv_load ::
  "(ustr \<Rightarrow> ((ustr, io_error) outcome list, io_error) outcome) \<Rightarrow> (ustr, io_error) outcome \<Rightarrow>
   (dns_config, io_error) outcome" where
  "resolv_load open_file hostname =
     (case open_file RESOLV_CONF_PATH of
        Ok ls \<Rightarrow> resolv_parse ls hostname
      | Err e \<Rightarrow> Err e
      | Panic \<Rightarrow> Panic)"

definition load_default ::
  "(ustr \<Rightarrow> ((ustr, io_error) outcome list, io_error) outcome) \<Rightarrow> (ustr, io_error) outcome \<Rightarrow>
   (dns_config, io_error) outcome" where
  "load_default open_file hostname = resolv_load open_file hostname"

subsection \<open>Limits\<close>

definition config_limits :: "dns_config \<Rightarrow> bool" where
  "config_limits cfg \<longleftrightarrow>
     length (name_servers cfg) \<le> MAX_NAME_SERVERS \<and>
     list_all (\<lambda>a. sa_port a = DNS_PORT) (name_servers cfg) \<and>
     n_dots cfg \<le> MAX_N_DOTS \<and> attempts cfg \<le> MAX_ATTEMPTS \<and>
     timeout cfg \<le> from_secs MAX_TIMEOUT"

lemma config_limits_default: "config_limits default_config"
  by (simp add: config_limits_def default_config_def MAX_N_DOTS_def MAX_ATTEMPTS_def DEFAULT_N_DOTS_def
      DEFAULT_ATTEMPTS_def DEFAULT_TIMEOUT_def MAX_TIMEOUT_def from_secs_def)

lemma sa_port_new [simp]: "sa_port (socket_addr_new a p) = p"
  by (cases a) simp_all

lemma from_secs_mono: "m \<le> n \<Longrightarrow> from_secs m \<le> from_secs n"
  by (simp add: from_secs_def)

lemma config_limits_update:
  assumes "config_limits cfg"
  shows "config_limits (cfg\<lparr>n_dots := min n MAX_N_DOTS\<rparr>)"
    "config_limits (cfg\<lparr>timeout := from_secs (min k MAX_TIMEOUT)\<rparr>)"
    "config_limits (cfg\<lparr>attempts := min n MAX_ATTEMPTS\<rparr>)"
    "config_limits (cfg\<lparr>rotate := b\<rparr>)" "config_limits (cfg\<lparr>use_inet6 := b\<rparr>)"
    "config_limits (cfg\<lparr>search := s\<rparr>)"
  using assms from_secs_mono [of "min k MAX_TIMEOUT" MAX_TIMEOUT]
  by (simp_all add: config_limits_def)

text \<open>An option word changes at most one field, and never the lists.\<close>

lemma resolv_option_cases:
  obtains (Same) "resolv_option w cfg = cfg"
  | (Ndots) n where "resolv_option w cfg = cfg\<lparr>n_dots := min n MAX_N_DOTS\<rparr>"
  | (Timeout) k where "resolv_option w cfg = cfg\<lparr>timeout := from_secs (min k MAX_TIMEOUT)\<rparr>"
  | (Attempts) n where "resolv_option w cfg = cfg\<lparr>attempts := min n MAX_ATTEMPTS\<rparr>"
  | (Rotate) "resolv_option w cfg = cfg\<lparr>rotate := True\<rparr>"
  | (Inet6) "resolv_option w cfg = cfg\<lparr>use_inet6 := True\<rparr>"
proof -
  obtain opt v where ov: "(case split_first colon w of Some (a, b) \<Rightarrow> (a, b) | None \<Rightarrow> (w, [])) = (opt, v)"
    by fastforce
  consider "opt = lit ''ndots''" | "opt = lit ''timeout''" | "opt = lit ''attempts''"
    | "opt = lit ''rotate''" | "opt = lit ''inet6''"
    | "opt \<notin> {lit ''ndots'', lit ''timeout'', lit ''attempts'', lit ''rotate'', lit ''inet6''}"
    by blast
  then show thesis
  proof cases
    case 1
    with ov that(1,2) show ?thesis by (cases "parse_u32 v") (auto simp: resolv_option_def)
  next
    case 2
    with ov that(1,3) show ?thesis by (cases "parse_u64 v") (auto simp: resolv_option_def lit_def)
  next
    case 3
    with ov that(1,4) show ?thesis by (cases "parse_u32 v") (auto simp: resolv_option_def lit_def)
  next
    case 4
    with ov that(5) show ?thesis by (auto simp: resolv_option_def lit_def)
  next
    case 5
    with ov that(6) show ?thesis by (auto simp: resolv_option_def lit_def)
  next
    case 6
    with ov that(1) show ?thesis by (auto simp: resolv_option_def)
  qed
qed

lemma config_limits_option: "config_limits cfg \<Longrightarrow> config_limits (resolv_option w cfg)"
  by (cases rule: resolv_option_cases [of w cfg]) (simp_all add: config_limits_update)

lemma config_limits_options: "config_limits cfg \<Longrightarrow> config_limits (fold resolv_option ws cfg)"
  by (induction ws arbitrary: cfg) (simp_all add: config_limits_option)

lemma config_limits_push:
  "config_limits cfg \<Longrightarrow> length (name_servers cfg) < MAX_NAME_SERVERS \<Longrightarrow>
   config_limits (cfg\<lparr>name_servers := name_servers cfg @ [socket_addr_new a DNS_PORT]\<rparr>)"
  by (simp add: config_limits_def)

lemma config_limits_line: "config_limits cfg \<Longrightarrow> config_limits (resolv_line l cfg)"
  by (simp add: resolv_line_def config_limits_options config_limits_update config_limits_push
      split: list.splits option.splits)

lemma config_limits_lines:
  "config_limits cfg \<Longrightarrow> resolv_lines ls cfg = Ok cfg' \<Longrightarrow> config_limits cfg'"
  using config_limits_line by (induction ls arbitrary: cfg) (auto split: outcome.splits)

lemma config_limits_finish:
  "config_limits cfg \<Longrightarrow> resolv_finish host cfg = Ok cfg' \<Longrightarrow>
   config_limits cfg' \<and> name_servers cfg' \<noteq> []"
  by (auto simp: resolv_finish_def config_limits_def split: if_splits outcome.splits option.splits)

subsection \<open>Which name servers and which search list\<close>

text \<open>The directive words of a line, nothing for a comment or a blank line.\<close>

definition directive :: "ustr \<Rightarrow> ustr list" where
  "directive line = (if line = [] \<or> hd line = 35 \<or> hd line = 59 then [] else split_whitespace line)"

definition line_name_server :: "ustr \<Rightarrow> ip_addr option" where
  "line_name_server line =
     (case directive line of
        name # ip # _ \<Rightarrow> if name = lit ''nameserver'' then parse_ip_addr ip else None
      | _ \<Rightarrow> None)"

text \<open>What a line does to the search list.\<close>

definition line_search :: "ustr \<Rightarrow> ustr list option" where
  "line_search line =
     (case directive line of
        [] \<Rightarrow> None
      | name # words \<Rightarrow>
          if name = lit ''domain'' then (case words of d # _ \<Rightarrow> Some [d] | [] \<Rightarrow> None)
          else if name = lit ''search'' then Some words
          else None)"

lemma fold_option_keeps:
  "name_servers (fold resolv_option ws cfg) = name_servers cfg"
  "search (fold resolv_option ws cfg) = search cfg"
proof -
  have "name_servers (resolv_option w cfg) = name_servers cfg" "search (resolv_option w cfg) = search cfg"
    for w cfg by (cases rule: resolv_option_cases [of w cfg]; simp)+
  then show "name_servers (fold resolv_option ws cfg) = name_servers cfg"
    "search (fold resolv_option ws cfg) = search cfg"
    by (induction ws arbitrary: cfg) simp_all
qed

lemma lit_directives:
  "lit ''nameserver'' \<noteq> lit ''domain''" "lit ''nameserver'' \<noteq> lit ''search''"
  "lit ''domain'' \<noteq> lit ''search''" "lit ''options'' \<noteq> lit ''domain''" "lit ''options'' \<noteq> lit ''search''"
  "lit ''options'' \<noteq> lit ''nameserver''"
  by (simp_all add: lit_def)

lemma resolv_line_name_servers:
  "name_servers (resolv_line l cfg) =
     (case line_name_server l of
        Some a \<Rightarrow> take (max MAX_NAME_SERVERS (length (name_servers cfg)))
                    (name_servers cfg @ [socket_addr_new a DNS_PORT])
      | None \<Rightarrow> name_servers cfg)"
  using lit_directives
  by (auto simp: resolv_line_def line_name_server_def directive_def fold_option_keeps max_def
      split: list.splits option.splits)

lemma resolv_line_search:
  "search (resolv_line l cfg) = (case line_search l of Some s \<Rightarrow> s | None \<Rightarrow> search cfg)"
  using lit_directives
  by (auto simp: resolv_line_def line_search_def directive_def fold_option_keeps
      split: list.splits option.splits)

lemma resolv_lines_name_servers:
  assumes "resolv_lines (map Ok ls) cfg = Ok cfg'" and "length (name_servers cfg) \<le> MAX_NAME_SERVERS"
  shows "name_servers cfg' =
    take MAX_NAME_SERVERS
      (name_servers cfg @ map (\<lambda>a. socket_addr_new a DNS_PORT) (List.map_filter line_name_server ls))"
  using assms
proof (induction ls arbitrary: cfg)
  case Nil
  then show ?case by (simp add: List.map_filter_def)
next
  case (Cons l ls)
  show ?case
  proof (cases "line_name_server l")
    case None
    with Cons show ?thesis by (simp add: resolv_line_name_servers List.map_filter_def)
  next
    case (Some a)
    with Cons.prems(2) have ns: "name_servers (resolv_line l cfg) =
        take MAX_NAME_SERVERS (name_servers cfg @ [socket_addr_new a DNS_PORT])"
      by (simp add: resolv_line_name_servers max_def)
    have "name_servers cfg' = take MAX_NAME_SERVERS (name_servers (resolv_line l cfg) @
        map (\<lambda>a. socket_addr_new a DNS_PORT) (List.map_filter line_name_server ls))"
      using Cons.prems by (intro Cons.IH) (simp_all add: ns)
    with Some Cons.prems(2) show ?thesis
      by (cases "length (name_servers cfg) = MAX_NAME_SERVERS") (simp_all add: ns List.map_filter_def)
  qed
qed

lemma resolv_lines_search:
  assumes "resolv_lines (map Ok ls) cfg = Ok cfg'"
  shows "search cfg' = last (search cfg # List.map_filter line_search ls)"
  using assms
proof (induction ls arbitrary: cfg)
  case Nil
  then show ?case by (simp add: List.map_filter_def)
next
  case (Cons l ls)
  then have "search cfg' = last (search (resolv_line l cfg) # List.map_filter line_search ls)"
    by simp
  then show ?case
    by (simp add: resolv_line_search List.map_filter_def split: option.splits)
qed

subsection \<open>Properties\<close>

text \<open>C30: Every configuration that \<open>parse\<close> returns keeps the documented limits: one to three name
  servers, all on port 53, at most 15 dots, 5 attempts and 30 seconds.\<close>

theorem resolv_parse_limits:
  assumes "resolv_parse ls hostname = Ok cfg"
  shows "config_limits cfg \<and> name_servers cfg \<noteq> []"
proof -
  from assms obtain c where "resolv_lines ls default_config = Ok c" "resolv_finish hostname c = Ok cfg"
    by (auto simp: resolv_parse_def split: outcome.splits)
  then show ?thesis
    using config_limits_lines [OF config_limits_default] config_limits_finish by blast
qed

text \<open>A configuration file that asks for no attempts at all.\<close>

definition zero_attempts_conf :: "(ustr, io_error) outcome list" where
  "zero_attempts_conf = [Ok (lit ''nameserver 127.0.0.1''), Ok (lit ''options attempts:0'')]"

definition zero_attempts_config :: dns_config where
  "zero_attempts_config =
     default_config\<lparr>name_servers := [SockV4 (Ipv4Addr 127 0 0 1) 53], attempts := 0\<rparr>"

lemma resolv_zero_attempts_lines:
  "resolv_lines zero_attempts_conf default_config = Ok zero_attempts_config"
proof -
  have "resolv_line (lit ''nameserver 127.0.0.1'') default_config =
      default_config\<lparr>name_servers := [SockV4 (Ipv4Addr 127 0 0 1) 53]\<rparr>"
  proof -
    have "split_whitespace (lit ''nameserver 127.0.0.1'') = [lit ''nameserver'', show_ipv4 (Ipv4Addr 127 0 0 1)]"
      by (simp add: split_whitespace_def is_whitespace_def lit_def show_radix.simps digit_char_def)
    moreover have "parse_ip_addr (show_ipv4 a) = Some (V4 a)" for a
      using read_show_ipv4 [of "[]" a] by (simp add: parse_ip_addr_def parse_whole_def)
    ultimately show ?thesis
      by (simp add: resolv_line_def default_config_def MAX_NAME_SERVERS_def DNS_PORT_def del: show_ipv4.simps)
        (simp add: lit_def)
  qed
  moreover have "resolv_line (lit ''options attempts:0'') cfg = cfg\<lparr>attempts := 0\<rparr>" for cfg
    by (simp add: resolv_line_def lit_def split_whitespace_def is_whitespace_def resolv_option_def
        parse_u32_def parse_unsigned_def digit_val_def MAX_ATTEMPTS_def)
  ultimately show ?thesis by (simp add: zero_attempts_conf_def zero_attempts_config_def)
qed

lemma resolv_zero_attempts:
  "resolv_parse zero_attempts_conf (Ok []) = Ok zero_attempts_config"
  by (simp add: resolv_parse_def resolv_zero_attempts_lines resolv_finish_def)
    (simp add: zero_attempts_config_def default_config_def)

theorem resolv_parse_limits_witness:
  "config_limits zero_attempts_config \<and> name_servers zero_attempts_config \<noteq> []"
  using resolv_parse_limits [OF resolv_zero_attempts] .

text \<open>The name servers are the addresses of the first three well-formed \<open>nameserver\<close> lines, in
  order, and the search list is the one set by the last \<open>domain\<close> or \<open>search\<close> line.\<close>

theorem resolv_parse_directives:
  assumes "resolv_lines (map Ok ls) default_config = Ok cfg"
  shows "name_servers cfg =
      map (\<lambda>a. socket_addr_new a DNS_PORT) (take MAX_NAME_SERVERS (List.map_filter line_name_server ls)) \<and>
    search cfg = last ([] # List.map_filter line_search ls)"
  using resolv_lines_name_servers [OF assms] resolv_lines_search [OF assms]
  by (simp_all add: default_config_def take_map)

theorem resolv_parse_directives_witness:
  "name_servers zero_attempts_config =
     map (\<lambda>a. socket_addr_new a DNS_PORT)
       (take MAX_NAME_SERVERS
         (List.map_filter line_name_server [lit ''nameserver 127.0.0.1'', lit ''options attempts:0'']))"
  using resolv_parse_directives [of "[lit ''nameserver 127.0.0.1'', lit ''options attempts:0'']" zero_attempts_config]
    resolv_zero_attempts_lines by (simp add: zero_attempts_conf_def)

text \<open>Nothing keeps the number of attempts positive: a two-line \<open>resolv.conf\<close> is accepted with
  \<open>attempts\<close> zero.\<close>

theorem resolv_conf_allows_zero_attempts:
  "\<exists>cfg. resolv_parse zero_attempts_conf (Ok hostname) = Ok cfg \<and> attempts cfg = 0"
  by (simp add: resolv_parse_def resolv_zero_attempts_lines resolv_finish_def split: option.splits)
    (auto simp: zero_attempts_config_def default_config_def)

end
