(* ===== verification/Resolver.thy ===== *)
theory Resolver
  imports DnsSocket ResolvConf
begin

text \<open>
  \<^verbatim>\<open>resolve/resolver.rs\<close>: queries with retries and timeouts, the choice of the name
  server, the search list, and the three kinds of lookup. Waiting for a reply is a loop
  that irrelevant datagrams can prolong, so it is a least fixed point.
\<close>

subsection \<open>State\<close>

text \<open>\<open>dr_id_cell\<close> is the thread-local message counter.\<close>

record 's dns_resolver =
  dr_sock :: 's
  dr_config :: dns_config
  dr_next_ns :: nat
  dr_id_cell :: u16

type_synonym ('s, 'a) resolving = "('s dns_resolver, dns_err, 'a) prog"

definition on_sock :: "('s, 'e, 'a) prog \<Rightarrow> ('s dns_resolver, 'e, 'a) prog" where
  "on_sock m r = map_option (\<lambda>(out, s). (out, r\<lparr>dr_sock := s\<rparr>)) (m (dr_sock r))"

subsection \<open>Construction\<close>

fun bind_addr :: "socket_addr list \<Rightarrow> ip_addr" where
  "bind_addr (SockV6 a p fl sc # ns) = V6 (Ipv6Addr 0 0 0 0 0 0 0 0)"
| "bind_addr _ = V4 (Ipv4Addr 0 0 0 0)"

definition with_sock :: "'s \<Rightarrow> u16 \<Rightarrow> dns_config \<Rightarrow> 's dns_resolver" where
  "with_sock s cell cfg = \<lparr>dr_sock = s, dr_config = cfg, dr_next_ns = 0, dr_id_cell = cell\<rparr>"

text \<open>Both constructors leave the caller's surroundings behind when they fail.\<close>

definition resolver_bind ::
  "'s udp_ops \<Rightarrow> socket_addr \<Rightarrow> dns_config \<Rightarrow> u16 \<Rightarrow> 's \<Rightarrow>
   (('s dns_resolver, io_error) outcome \<times> 's) option" where
  "resolver_bind U addr cfg cell s =
     pbind (dns_socket_bind U addr) (\<lambda>_ s'. Some (Ok (with_sock s' cell cfg), s')) s"

definition resolver_new ::
  "'s udp_ops \<Rightarrow> dns_config \<Rightarrow> u16 \<Rightarrow> 's \<Rightarrow> (('s dns_resolver, io_error) outcome \<times> 's) option" where
  "resolver_new U cfg cell s =
     resolver_bind U (socket_addr_new (bind_addr (name_servers cfg)) 0) cfg cell s"

subsection \<open>One query\<close>

definition basic_message :: "('s, message) resolving" where
  "basic_message r =
     (case message_new (dr_id_cell r) of
        (m, cell) \<Rightarrow>
          Some (Ok (m\<lparr>m_header := (m_header m)\<lparr>h_recursion_desired := True\<rparr>\<rparr>),
                r\<lparr>dr_id_cell := cell\<rparr>))"

definition next_nameserver :: "('s, socket_addr) resolving" where
  "next_nameserver r =
     (let n = dr_next_ns r; ns = name_servers (dr_config r)
      in if length ns = 0 then Some (Panic, r)
         else let r' = r\<lparr>dr_next_ns := (n + 1) mod length ns\<rparr>
              in if n < length ns then Some (Ok (ns ! n), r') else Some (Panic, r'))"

definition choose_server :: "nat \<Rightarrow> ('s, socket_addr) resolving" where
  "choose_server retries r =
     (if rotate (dr_config r) then next_nameserver r
      else let ns = name_servers (dr_config r); n = length ns
           in if n = 0 then Some (Panic, r) else Some (Ok (ns ! (retries mod n)), r))"

text \<open>How the inner loop is left: with a reply, or with a timeout that starts the next attempt.\<close>

datatype attempt = Reply message | Retry dns_err

definition remaining_timeout :: "duration \<Rightarrow> duration \<Rightarrow> duration" where
  "remaining_timeout t passed = (if t < passed then from_secs 0 else t - passed)"

partial_function (option) await_reply ::
  "'s udp_ops \<Rightarrow> idna_lib \<Rightarrow> message \<Rightarrow> socket_addr \<Rightarrow> duration \<Rightarrow> ('s, dns_err, attempt) prog" where
  "await_reply U L out_msg ns_addr t s =
     pbind (map_err IoError (udp_set_read_timeout U (Some t))) (\<lambda>_ s0.
       case udp_now U s0 of
         (start, s1) \<Rightarrow>
           (case socket_recv_message U L ns_addr MESSAGE_LIMIT s1 of
              None \<Rightarrow> None
            | Some (out, s2) \<Rightarrow>
                (case out of
                   Ok None \<Rightarrow>
                     (case udp_now U s2 of
                        (now, s3) \<Rightarrow>
                          await_reply U L out_msg ns_addr (remaining_timeout t (now - start)) s3)
                 | Ok (Some msg) \<Rightarrow>
                     if h_id (m_header msg) = h_id (m_header out_msg) \<and> h_qr (m_header msg) = Response
                     then pbind (map_err DnsErr (pure_prog (Some (get_error msg)))) (\<lambda>_. pret (Reply msg)) s2
                     else await_reply U L out_msg ns_addr t s2
                 | Err e \<Rightarrow> if is_timeout e then Some (Ok (Retry e), s2) else Some (Err e, s2)
                 | Panic \<Rightarrow> Some (Panic, s2)))) s"

text \<open>\<^verbatim>\<open>for retries in 0..attempts\<close>: the turn number, the turns left, and \<open>last_err\<close>.\<close>

fun send_attempts ::
  "'s udp_ops \<Rightarrow> idna_lib \<Rightarrow> message \<Rightarrow> nat \<Rightarrow> nat \<Rightarrow> dns_err option \<Rightarrow> ('s, message) resolving" where
  "send_attempts U L out_msg retries 0 last_err =
     (case last_err of Some e \<Rightarrow> pthrow e | None \<Rightarrow> ppanic)"
| "send_attempts U L out_msg retries (Suc left) last_err =
     pbind (choose_server retries) (\<lambda>ns_addr.
       pbind (on_sock (socket_send_message U L out_msg ns_addr)) (\<lambda>_ r.
         pbind (on_sock (await_reply U L out_msg ns_addr (timeout (dr_config r)))) (\<lambda>res.
           case res of
             Reply msg \<Rightarrow> pret msg
           | Retry e \<Rightarrow> send_attempts U L out_msg (retries + 1) left (Some e)) r))"

definition send_message ::
  "'s udp_ops \<Rightarrow> idna_lib \<Rightarrow> message \<Rightarrow> ('s, message) resolving" where
  "send_message U L out_msg r =
     send_attempts U L out_msg 0 (unat (attempts (dr_config r))) None r"

subsection \<open>Lookups\<close>

definition convert_error :: "ustr \<Rightarrow> ('s, dns_err, 'a) prog \<Rightarrow> ('s, io_error, 'a) prog" where
  "convert_error desc m =
     map_err (\<lambda>e. case e of
                IoError e \<Rightarrow> e
              | e \<Rightarrow> io_error_new KOther (desc @ lit '': '' @ show_dns_err e)) m"

definition with_suffixes :: "ustr \<Rightarrow> ustr list \<Rightarrow> ustr list" where
  "with_suffixes host suffixes = map (\<lambda>s. host @ [dot] @ s) suffixes @ [host]"

definition name_not_found :: dns_err where
  "name_not_found = IoError (io_error_new KOther (lit ''failed to resolve host: name not found''))"

definition use_search :: "ustr \<Rightarrow> dns_config \<Rightarrow> bool" where
  "use_search name cfg \<longleftrightarrow>
     \<not> ends_with [dot] name \<and> (word_of_nat (length (filter (\<lambda>c. c = dot) name)) :: u32) \<ge> n_dots cfg"

primrec try_names :: "ustr list \<Rightarrow> dns_err option \<Rightarrow> (ustr \<Rightarrow> ('s, dns_err, 'a) prog) \<Rightarrow> ('s, dns_err, 'a) prog" where
  "try_names [] err f = pthrow (case err of Some e \<Rightarrow> e | None \<Rightarrow> name_not_found)"
| "try_names (n # ns) err f =
     (\<lambda>s. case f n s of
            None \<Rightarrow> None
          | Some (Ok t, s') \<Rightarrow> Some (Ok t, s')
          | Some (Err e, s') \<Rightarrow> try_names ns (Some e) f s'
          | Some (Panic, s') \<Rightarrow> Some (Panic, s'))"

definition query_names ::
  "ustr \<Rightarrow> dns_config \<Rightarrow> (ustr \<Rightarrow> ('s, dns_err, 'a) prog) \<Rightarrow> ('s, dns_err, 'a) prog" where
  "query_names name cfg f =
     (if use_search name cfg then try_names (with_suffixes name (search cfg)) None f else f name)"

definition push_question :: "message \<Rightarrow> question \<Rightarrow> message" where
  "push_question m q = m\<lparr>m_question := m_question m @ [q]\<rparr>"

text \<open>
  The loop over the answers: every record of the wanted type is decoded and handed on; the
  first that does not decode ends the loop, what was handed on before stays handed on.
\<close>

primrec answer_records ::
  "record_type \<Rightarrow> 'a reading \<Rightarrow> resource list \<Rightarrow> ('a list \<times> (unit, dns_err) outcome) option" where
  "answer_records ty dec [] = Some ([], Ok ())"
| "answer_records ty dec (rr # rrs) =
     (if r_type rr = ty
      then (case read_rdata dec rr of
              None \<Rightarrow> None
            | Some (Ok a) \<Rightarrow> map_option (\<lambda>(as, out). (a # as, out)) (answer_records ty dec rrs)
            | Some (Err e) \<Rightarrow> Some ([], Err (DecodeError e))
            | Some Panic \<Rightarrow> Some ([], Panic))
      else answer_records ty dec rrs)"

definition question_for :: "ustr \<Rightarrow> record_type \<Rightarrow> question" where
  "question_for name ty = question_new name ty Internet"

text \<open>The query common to all lookups: a fresh message with one question, sent and answered.\<close>

definition query :: "'s udp_ops \<Rightarrow> idna_lib \<Rightarrow> ustr \<Rightarrow> record_type \<Rightarrow> ('s, message) resolving" where
  "query U L name ty =
     pbind basic_message (\<lambda>m. send_message U L (push_question m (question_for name ty)))"

text \<open>
  \<^verbatim>\<open>resolve_host_v4\<close> and \<^verbatim>\<open>resolve_host_v6\<close> hand addresses to a closure; the
  addresses handed over are part of the result, whatever the outcome.
\<close>

definition resolve_host_for ::
  "'s udp_ops \<Rightarrow> idna_lib \<Rightarrow> ustr \<Rightarrow> record_type \<Rightarrow> 'a reading \<Rightarrow>
   's dns_resolver \<Rightarrow> ('a list \<times> (unit, dns_err) outcome \<times> 's dns_resolver) option" where
  "resolve_host_for U L host ty dec r =
     (case query U L host ty r of
        None \<Rightarrow> None
      | Some (Ok msg, r') \<Rightarrow>
          map_option (\<lambda>(as, out). (as, out, r')) (answer_records ty dec (m_answer msg))
      | Some (Err e, r') \<Rightarrow> Some ([], Err e, r')
      | Some (Panic, r') \<Rightarrow> Some ([], Panic, r'))"

definition resolve_host_v4 where
  "resolve_host_v4 U L host = resolve_host_for U L host a_record_type a_decode"

definition resolve_host_v6 where
  "resolve_host_v6 U L host = resolve_host_for U L host aaaa_record_type aaaa_decode"

fun outcome_err :: "('a, 'e) outcome \<Rightarrow> 'e option" where
  "outcome_err (Err e) = Some e"
| "outcome_err _ = None"

definition option_or :: "'a option \<Rightarrow> 'a option \<Rightarrow> 'a option" where
  "option_or a b = (case a of Some x \<Rightarrow> Some x | None \<Rightarrow> b)"

definition lookup_result ::
  "ip_addr list \<Rightarrow> dns_err option \<Rightarrow> (ip_addr list, dns_err) outcome" where
  "lookup_result res err =
     (if res \<noteq> [] then Ok res
      else case err of Some e \<Rightarrow> Err e | None \<Rightarrow> Err name_not_found)"

text \<open>The closure of \<^verbatim>\<open>resolve_host\<close> for one name.\<close>

definition lookup_name :: "'s udp_ops \<Rightarrow> idna_lib \<Rightarrow> ustr \<Rightarrow> ('s, ip_addr list) resolving" where
  "lookup_name U L name r =
     (if use_inet6 (dr_config r) then
        (case resolve_host_v6 U L name r of
           None \<Rightarrow> None
         | Some (ips6, Panic, r1) \<Rightarrow> Some (Panic, r1)
         | Some (ips6, out6, r1) \<Rightarrow>
             let res = map (\<lambda>a. V6 (aaaa_address a)) ips6; err = outcome_err out6
             in if res = [] then
                  (case resolve_host_v4 U L name r1 of
                     None \<Rightarrow> None
                   | Some (ips4, Panic, r2) \<Rightarrow> Some (Panic, r2)
                   | Some (ips4, out4, r2) \<Rightarrow>
                       Some (lookup_result (res @ map (\<lambda>a. V6 (to_ipv6_mapped (a_address a))) ips4)
                               (option_or err (outcome_err out4)), r2))
                else Some (lookup_result res err, r1))
      else
        (case resolve_host_v4 U L name r of
           None \<Rightarrow> None
         | Some (ips4, Panic, r1) \<Rightarrow> Some (Panic, r1)
         | Some (ips4, out4, r1) \<Rightarrow>
             (case resolve_host_v6 U L name r1 of
                None \<Rightarrow> None
              | Some (ips6, Panic, r2) \<Rightarrow> Some (Panic, r2)
              | Some (ips6, out6, r2) \<Rightarrow>
                  Some (lookup_result
                          (map (\<lambda>a. V4 (a_address a)) ips4 @ map (\<lambda>a. V6 (aaaa_address a)) ips6)
                          (option_or (outcome_err out4) (outcome_err out6)), r2))))"

definition resolve_host ::
  "'s udp_ops \<Rightarrow> idna_lib \<Rightarrow> ustr \<Rightarrow> ('s dns_resolver, io_error, ip_addr list) prog" where
  "resolve_host U L host r =
     convert_error (lit ''failed to resolve host'')
       (query_names host (dr_config r) (lookup_name U L)) r"

definition resolve_record ::
  "'s udp_ops \<Rightarrow> idna_lib \<Rightarrow> ustr \<Rightarrow> record_type \<Rightarrow> 'a reading \<Rightarrow>
   ('s dns_resolver, io_error, 'a list) prog" where
  "resolve_record U L name ty dec =
     convert_error (lit ''failed to resolve record'')
       (\<lambda>r. case resolve_host_for U L name ty dec r of
              None \<Rightarrow> None
            | Some (as, Ok _, r') \<Rightarrow> Some (Ok as, r')
            | Some (as, Err e, r') \<Rightarrow> Some (Err e, r')
            | Some (as, Panic, r') \<Rightarrow> Some (Panic, r'))"

definition pop_dot :: "ustr \<Rightarrow> ustr" where
  "pop_dot name = (if ends_with [dot] name then butlast name else name)"

primrec first_ptr :: "idna_lib \<Rightarrow> resource list \<Rightarrow> (ustr, dns_err) outcome option" where
  "first_ptr L [] =
     Some (Err (IoError (io_error_new KOther (lit ''failed to resolve address: name not found''))))"
| "first_ptr L (rr # rrs) =
     (if r_type rr = TyPtr
      then (case read_rdata (ptr_decode L) rr of
              None \<Rightarrow> None
            | Some (Ok p) \<Rightarrow> Some (Ok (pop_dot (ptr_name p)))
            | Some (Err e) \<Rightarrow> Some (Err (DecodeError e))
            | Some Panic \<Rightarrow> Some Panic)
      else first_ptr L rrs)"

definition resolve_addr ::
  "'s udp_ops \<Rightarrow> idna_lib \<Rightarrow> ip_addr \<Rightarrow> ('s dns_resolver, io_error, ustr) prog" where
  "resolve_addr U L addr =
     convert_error (lit ''failed to resolve address'')
       (pbind (query U L (address_name addr) TyPtr) (\<lambda>msg. pure_prog (first_ptr L (m_answer msg))))"

text \<open>The free functions make a resolver from the system configuration for one call.\<close>

definition with_default_resolver ::
  "'s udp_ops \<Rightarrow> (dns_config, io_error) outcome \<Rightarrow> u16 \<Rightarrow>
   ('s dns_resolver, io_error, 'a) prog \<Rightarrow> 's \<Rightarrow> ((('a, io_error) outcome) \<times> 's) option" where
  "with_default_resolver U loaded cell k s =
     (case loaded of
        Err e \<Rightarrow> Some (Err e, s)
      | Panic \<Rightarrow> Some (Panic, s)
      | Ok cfg \<Rightarrow>
          pbind (resolver_new U cfg cell) (\<lambda>r s'. map_option (\<lambda>(out, r'). (out, dr_sock r')) (k r)) s)"

definition resolve_addr_default ::
  "'s udp_ops \<Rightarrow> idna_lib \<Rightarrow> (dns_config, io_error) outcome \<Rightarrow> u16 \<Rightarrow> ip_addr \<Rightarrow>
   's \<Rightarrow> ((ustr, io_error) outcome \<times> 's) option" where
  "resolve_addr_default U L loaded cell addr =
     with_default_resolver U loaded cell (resolve_addr U L addr)"

definition resolve_host_default ::
  "'s udp_ops \<Rightarrow> idna_lib \<Rightarrow> (dns_config, io_error) outcome \<Rightarrow> u16 \<Rightarrow> ustr \<Rightarrow>
   's \<Rightarrow> ((ip_addr list, io_error) outcome \<times> 's) option" where
  "resolve_host_default U L loaded cell host =
     with_default_resolver U loaded cell (resolve_host U L host)"

end
