(* ===== verification/DecodeSafety.thy ===== *)
theory DecodeSafety
  imports Message
begin

unbundle bit_operations_syntax

text \<open>
  What holds of \<open>message_decode\<close> on arbitrary datagrams: the cursor stays inside the message
  and the decoded sections are well formed; decoding returns when no chain of compression
  pointers comes back to itself, and otherwise may not; the only panic is a record whose
  data length points past the end of the message.
\<close>

subsection \<open>Programs that keep the cursor inside the message\<close>

definition safe_read :: "bytes \<Rightarrow> 'a reading \<Rightarrow> ('a \<Rightarrow> bool) \<Rightarrow> bool" where
  "safe_read data m P \<longleftrightarrow>
     (\<forall>r a r'. rd_data r = data \<longrightarrow> rd_pos r \<le> length data \<longrightarrow> m r = Some (Ok a, r') \<longrightarrow>
        rd_data r' = data \<and> rd_pos r \<le> rd_pos r' \<and> rd_pos r' \<le> length data \<and> P a)"

lemma safe_readI:
  assumes "\<And>r a r'. rd_data r = data \<Longrightarrow> rd_pos r \<le> length data \<Longrightarrow> m r = Some (Ok a, r') \<Longrightarrow>
    rd_data r' = data \<and> rd_pos r \<le> rd_pos r' \<and> rd_pos r' \<le> length data \<and> P a"
  shows "safe_read data m P"
  unfolding safe_read_def by (intro allI impI) (rule assms)

lemma safe_readD:
  assumes "safe_read data m P" and "m r = Some (Ok a, r')" and "rd_data r = data" and "rd_pos r \<le> length data"
  shows "rd_data r' = data" "rd_pos r \<le> rd_pos r'" "rd_pos r' \<le> length data" "P a"
  using assms(1) [unfolded safe_read_def, rule_format, OF assms(3,4,2)] by simp_all

lemma safe_read_bind:
  assumes "safe_read data m P" and "\<And>a. P a \<Longrightarrow> safe_read data (k a) Q"
  shows "safe_read data (pbind m k) Q"
proof (rule safe_readI)
  fix r b r' assume r: "rd_data r = data" "rd_pos r \<le> length data" "pbind m k r = Some (Ok b, r')"
  then obtain a s where a: "m r = Some (Ok a, s)" "k a s = Some (Ok b, r')" by (elim pbind_OkE)
  note s = safe_readD [OF assms(1) a(1) r(1,2)]
  show "rd_data r' = data \<and> rd_pos r \<le> rd_pos r' \<and> rd_pos r' \<le> length data \<and> Q b"
    using safe_readD [OF assms(2) [OF s(4)] a(2) s(1,3)] s by auto
qed

lemma safe_read_pret: "P a \<Longrightarrow> safe_read data (pret a) P"
  by (rule safe_readI) (simp add: pret_def)

lemma safe_read_map:
  "safe_read data m P \<Longrightarrow> (\<And>a. P a \<Longrightarrow> Q (f a)) \<Longrightarrow> safe_read data (pbind m (\<lambda>a. pret (f a))) Q"
  by (auto intro: safe_read_bind safe_read_pret)

lemma safe_read_read: "safe_read data (reader_read n) (\<lambda>xs. length xs = n)"
  by (rule safe_readI) (auto dest: reader_read_OkD)

lemma safe_read_name: "safe_read data (read_name L) (\<lambda>_. True)"
  by (rule safe_readI) (use read_name_progress in fastforce)

lemma safe_read_repeat:
  assumes "safe_read data m P"
  shows "safe_read data (prepeat n m) (\<lambda>xs. length xs = n \<and> list_all P xs)"
proof (induction n)
  case 0
  then show ?case by (simp add: safe_read_pret)
next
  case (Suc n)
  then have "safe_read data (pbind (prepeat n m) (\<lambda>xs. pret (x # xs)))
      (\<lambda>xs. length xs = Suc n \<and> list_all P xs)" if "P x" for x
    using that by (auto intro: safe_read_map)
  with assms show ?case by (auto intro: safe_read_bind)
qed

subsection \<open>Decoded resources and messages are well formed\<close>

text \<open>
  A record as it stands in the datagram: the ten bytes in front of its data hold its type, class,
  time to live and data length, and its data are the bytes of the datagram behind them.
\<close>

definition rdlength_at :: "bytes \<Rightarrow> nat \<Rightarrow> nat" where
  "rdlength_at data p = unat (u16_of_be (data ! (p + 8)) (data ! (p + 9)))"

definition resource_at :: "bytes \<Rightarrow> nat \<Rightarrow> resource \<Rightarrow> bool" where
  "resource_at data p r \<longleftrightarrow>
     p + 10 + rdlength_at data p \<le> length data \<and>
     r_type r = record_type_from_u16 (u16_of_be (data ! p) (data ! (p + 1))) \<and>
     r_class r = class_from_u16 (u16_of_be (data ! (p + 2)) (data ! (p + 3))) \<and>
     r_ttl r = u32_of_be (data ! (p + 4)) (data ! (p + 5)) (data ! (p + 6)) (data ! (p + 7)) \<and>
     r_offset r = p + 10 \<and> r_data r = take (p + 10 + rdlength_at data p) data"

definition resource_wf :: "bytes \<Rightarrow> resource \<Rightarrow> bool" where
  "resource_wf data r \<longleftrightarrow> (\<exists>p. resource_at data p r)"

text \<open>Behind the name, \<open>read_resource\<close> reads ten bytes and then either has the record or panics.\<close>

definition resource_tail :: "ustr \<Rightarrow> bytes \<Rightarrow> resource reading" where
  "resource_tail name buf r =
     (let n = unat (u16_of_be (buf ! 8) (buf ! 9)) in
      if rd_pos r + n \<le> length (rd_data r)
      then Some (Ok \<lparr>r_name = name, r_type = record_type_from_u16 (u16_of_be (buf ! 0) (buf ! 1)),
              r_class = class_from_u16 (u16_of_be (buf ! 2) (buf ! 3)),
              r_ttl = u32_of_be (buf ! 4) (buf ! 5) (buf ! 6) (buf ! 7),
              r_data = take (rd_pos r + n) (rd_data r), r_offset = rd_pos r\<rparr>,
            r\<lparr>rd_pos := rd_pos r + n\<rparr>)
      else Some (Panic, r))"

lemma read_resource_split:
  "read_resource L = pbind (read_name L) (\<lambda>name. pbind (reader_read 10) (resource_tail name))"
proof -
  have step: "pbind position (\<lambda>offset. pbind (slice_to (offset + n)) (\<lambda>rdata.
        pbind (consume n) (\<lambda>_. pret (f offset rdata)))) =
      (\<lambda>r. if rd_pos r + n \<le> length (rd_data r)
        then Some (Ok (f (rd_pos r) (take (rd_pos r + n) (rd_data r))), r\<lparr>rd_pos := rd_pos r + n\<rparr>)
        else Some (Panic, r))" for n and f :: "nat \<Rightarrow> bytes \<Rightarrow> resource"
    by (rule ext) (simp add: pbind_def position_def slice_to_def consume_def set_position_def pret_def)
  show ?thesis unfolding read_resource_def resource_tail_def [abs_def] Let_def step ..
qed

lemma read_resource_OkD:
  assumes "read_resource L r = Some (Ok a, r')" and "rd_data r = data" and "rd_pos r \<le> length data"
  obtains p where "resource_at data p a" and "rd_pos r \<le> p" and "r' = r\<lparr>rd_pos := length (r_data a)\<rparr>"
proof -
  from assms(1) obtain name s buf t where name: "read_name L r = Some (Ok name, s)"
    and buf: "reader_read 10 s = Some (Ok buf, t)" and a: "resource_tail name buf t = Some (Ok a, r')"
    unfolding read_resource_split by (elim pbind_OkE)
  note s = safe_readD [OF safe_read_name name assms(2,3)]
  from reader_read_OkD [OF buf] s have "buf = take 10 (drop (rd_pos s) data)" "t = s\<lparr>rd_pos := rd_pos s + 10\<rparr>"
    "rd_pos s + 10 \<le> length data" by auto
  with a s have "resource_at data (rd_pos s) a"
    by (auto simp: resource_tail_def Let_def resource_at_def rdlength_at_def split: if_splits)
  moreover have "r' = r\<lparr>rd_pos := length (r_data a)\<rparr>"
    using a s assms(2) \<open>t = _\<close> by (cases r; cases s) (auto simp: resource_tail_def Let_def split: if_splits)
  ultimately show thesis using s(2) that by blast
qed

lemma safe_read_question: "safe_read data (read_question L) (\<lambda>_. True)"
  unfolding read_question_def by (rule safe_read_bind [OF safe_read_name], rule safe_read_map [OF safe_read_read]) simp

lemma safe_read_resource: "safe_read data (read_resource L) (resource_wf data)"
proof (rule safe_readI)
  fix r a r' assume r: "rd_data r = data" "rd_pos r \<le> length data" and "read_resource L r = Some (Ok a, r')"
  from this(3) r obtain p where "resource_at data p a" "rd_pos r \<le> p" "r' = r\<lparr>rd_pos := length (r_data a)\<rparr>"
    by (rule read_resource_OkD)
  with r show "rd_data r' = data \<and> rd_pos r \<le> rd_pos r' \<and> rd_pos r' \<le> length data \<and> resource_wf data a"
    by (auto simp: resource_wf_def resource_at_def)
qed

definition message_wf :: "bytes \<Rightarrow> full_header \<Rightarrow> message \<Rightarrow> bool" where
  "message_wf data h m \<longleftrightarrow>
     m_header m = to_header h \<and>
     length (m_question m) = unat (qd_count h) \<and> length (m_answer m) = unat (an_count h) \<and>
     length (m_authority m) = unat (ns_count h) \<and> length (m_additional m) = unat (ar_count h) \<and>
     list_all (resource_wf data) (m_answer m) \<and> list_all (resource_wf data) (m_authority m) \<and>
     list_all (resource_wf data) (m_additional m)"

definition sections_after :: "idna_lib \<Rightarrow> full_header \<Rightarrow> message reading" where
  "sections_after L h =
     pbind (prepeat (unat (qd_count h)) (read_question L)) (\<lambda>qs.
       pbind (prepeat (unat (an_count h)) (read_resource L)) (\<lambda>an.
         pbind (prepeat (unat (ns_count h)) (read_resource L)) (\<lambda>ns.
           pbind (prepeat (unat (ar_count h)) (read_resource L)) (\<lambda>ar.
             pret \<lparr>m_header = to_header h, m_question = qs, m_answer = an,
                   m_authority = ns, m_additional = ar\<rparr>))))"

lemma read_sections_split: "read_sections L = pbind read_header (sections_after L)"
  unfolding read_sections_def sections_after_def ..

lemma safe_sections_after: "safe_read data (sections_after L h) (message_wf data h)"
  unfolding sections_after_def
  apply (rule safe_read_bind [OF safe_read_repeat [OF safe_read_question]])
  apply (rule safe_read_bind [OF safe_read_repeat [OF safe_read_resource]])+
  apply (rule safe_read_pret)
  apply (simp add: message_wf_def)
  done

lemma safe_read_header: "safe_read data read_header (\<lambda>_. True)"
  unfolding read_header_def Let_def by (rule safe_read_map [OF safe_read_read]) simp

lemma read_header_OkD:
  assumes "read_header (reader_new data) = Some (Ok h, r)"
  shows "rd_data r = data" "rd_pos r = 12" "12 \<le> length data"
proof -
  from assms obtain buf where "reader_read 12 (reader_new data) = Some (Ok buf, r)"
    by (auto simp: read_header_def Let_def pret_def elim!: pbind_OkE)
  from reader_read_OkD [OF this] show "rd_data r = data" "rd_pos r = 12" "12 \<le> length data"
    by (auto simp: reader_new_def)
qed

lemma decode_OkD:
  assumes "message_decode L data = Some (Ok m)"
  obtains h r where "read_header (reader_new data) = Some (Ok h, r)" and "message_wf data h m"
    and "12 \<le> length data"
proof -
  from assms obtain h r r' where h: "read_header (reader_new data) = Some (Ok h, r)"
    and m: "sections_after L h r = Some (Ok m, r')"
    by (auto simp: message_decode_sections read_sections_split pret_def elim!: pbind_OkE)
  note r = read_header_OkD [OF h]
  from safe_readD [OF safe_sections_after m r(1)] r have "message_wf data h m" by simp
  then show thesis using h r(3) that by blast
qed

subsection \<open>Decoding returns\<close>

definition returns_on :: "bytes \<Rightarrow> 'a reading \<Rightarrow> bool" where
  "returns_on data m \<longleftrightarrow> (\<forall>r. rd_data r = data \<longrightarrow> rd_pos r \<le> length data \<longrightarrow> m r \<noteq> None)"

lemma returns_on_bind:
  assumes "safe_read data m P" and "returns_on data m" and "\<And>a. returns_on data (k a)"
  shows "returns_on data (pbind m k)"
  unfolding returns_on_def
proof (intro allI impI pbind_defined)
  fix r :: msg_reader assume r: "rd_data r = data" "rd_pos r \<le> length data"
  with assms(2) show "m r \<noteq> None" by (simp add: returns_on_def)
  fix a s assume "m r = Some (Ok a, s)"
  from safe_readD [OF assms(1) this] r assms(3) [of a] show "k a s \<noteq> None"
    by (simp add: returns_on_def)
qed

lemma returns_on_pret: "returns_on data (pret a)"
  by (simp add: returns_on_def pret_def)

lemma returns_on_read: "returns_on data (reader_read n)"
  by (simp add: returns_on_def reader_read_defined)

lemma returns_on_repeat:
  assumes "safe_read data m P" and "returns_on data m"
  shows "returns_on data (prepeat n m)"
  by (induction n)
    (auto intro!: returns_on_pret returns_on_bind [OF assms] returns_on_bind [OF safe_read_repeat [OF assms(1)]])

lemma pointer_rel_mono: "s \<le> t \<Longrightarrow> pointer_rel data s \<subseteq> pointer_rel data t"
  by (auto simp: pointer_rel_def)

lemma pointer_rel_finite: "finite (pointer_rel data s)"
  by (rule finite_subset [of _ "{..<s} \<times> {..<length data}"])
    (auto simp: pointer_rel_def pointer_at_def split: if_splits)

lemma returns_on_name:
  assumes "acyclic (pointer_rel data (length data))"
  shows "returns_on data (read_name L)"
  unfolding returns_on_def
proof (intro allI impI)
  fix r :: msg_reader assume "rd_data r = data" "rd_pos r \<le> length data"
  moreover have "wf (pointer_rel data (length data))"
    using assms pointer_rel_finite by (rule finite_acyclic_wf [rotated])
  ultimately have "wf (pointer_rel (rd_data r) (rd_pos r))"
    using wf_subset pointer_rel_mono by metis
  then show "read_name L r \<noteq> None" by (rule read_name_returns)
qed

lemma returns_on_question: "returns_on data (read_name L) \<Longrightarrow> returns_on data (read_question L)"
  unfolding read_question_def
  by (rule returns_on_bind [OF safe_read_name _ returns_on_bind [OF safe_read_read returns_on_read returns_on_pret]])

lemma returns_on_resource: "returns_on data (read_name L) \<Longrightarrow> returns_on data (read_resource L)"
  unfolding read_resource_split
  by (rule returns_on_bind [OF safe_read_name _ returns_on_bind [OF safe_read_read returns_on_read]])
    (auto simp: returns_on_def resource_tail_def Let_def)

lemma returns_on_sections:
  assumes "returns_on data (read_name L)"
  shows "returns_on data (read_sections L)"
  unfolding read_sections_split sections_after_def read_header_def Let_def
  by (intro returns_on_bind [OF safe_read_map [OF safe_read_read]] returns_on_bind [OF safe_read_read]
      returns_on_bind [OF safe_read_repeat [OF safe_read_question]]
      returns_on_bind [OF safe_read_repeat [OF safe_read_resource]]
      returns_on_repeat [OF safe_read_question] returns_on_repeat [OF safe_read_resource]
      returns_on_question returns_on_resource returns_on_read returns_on_pret assms) simp

lemma decode_returns:
  assumes "acyclic (pointer_rel data (length data))"
  shows "message_decode L data \<noteq> None"
proof -
  have "returns_on data (read_sections L)" by (intro returns_on_sections returns_on_name assms)
  then have "pbind (read_sections L) (\<lambda>m. pbind finish (\<lambda>_. pret m)) (reader_new data) \<noteq> None"
    by (intro pbind_defined)
      (auto simp: returns_on_def reader_new_def finish_def remaining_def pbind_def pret_def pthrow_def
        split: option.splits outcome.splits)
  then show ?thesis by (simp add: message_decode_sections)
qed

subsection \<open>The only panic\<close>

text \<open>Ten bytes at \<open>p\<close> announce more record data than the message has left.\<close>

definition rdlength_overrun :: "bytes \<Rightarrow> nat \<Rightarrow> bool" where
  "rdlength_overrun data p \<longleftrightarrow>
     p + 10 \<le> length data \<and> length data < p + 10 + rdlength_at data p"

lemma pbind_Panic_iff:
  "pbind m k s = Some (Panic, t) \<longleftrightarrow>
     m s = Some (Panic, t) \<or> (\<exists>a s'. m s = Some (Ok a, s') \<and> k a s' = Some (Panic, t))"
  by (auto simp: pbind_def split: option.splits outcome.splits)

lemma prepeat_Panic_iff:
  "prepeat n m s = Some (Panic, t) \<longleftrightarrow>
     (\<exists>k < n. \<exists>xs s'. prepeat k m s = Some (Ok xs, s') \<and> m s' = Some (Panic, t))"
proof (induction n arbitrary: s)
  case 0
  then show ?case by (simp add: pret_def)
next
  case (Suc n)
  show ?case
    by (auto simp: pbind_Panic_iff Suc.IH Ex_less_Suc2 pret_def outcome_simps elim!: pbind_OkE)
qed

lemma pbind_pret_right: "pbind m pret = m"
  by (rule ext) (simp add: pbind_def pret_def split: option.split outcome.split prod.split)

text \<open>Reading \<open>a\<close> and then \<open>b\<close> items is reading \<open>a + b\<close> items.\<close>

lemma prepeat_add:
  "prepeat (a + b) m = pbind (prepeat a m) (\<lambda>xs. pbind (prepeat b m) (\<lambda>ys. pret (xs @ ys)))"
  by (induction a) (simp_all add: pbind_assoc pbind_pret pbind_pret_right)

lemma read_resource_Panic_iff:
  assumes "rd_data r = data" and "rd_pos r \<le> length data"
  shows "(\<exists>t. read_resource L r = Some (Panic, t)) \<longleftrightarrow>
    (\<exists>name s. read_name L r = Some (Ok name, s) \<and> rdlength_overrun data (rd_pos s))"
proof -
  have "(\<exists>t. pbind (reader_read 10) (resource_tail name) s = Some (Panic, t)) \<longleftrightarrow>
      rdlength_overrun data (rd_pos s)" if "read_name L r = Some (Ok name, s)" for name s
  proof -
    note s = safe_readD [OF safe_read_name that assms]
    show ?thesis
      using s by (auto simp: pbind_Panic_iff reader_read_no_panic rdlength_overrun_def rdlength_at_def
          reader_read_def resource_tail_def Let_def split: if_splits)
  qed
  then show ?thesis
    unfolding read_resource_split by (auto simp: pbind_Panic_iff read_name_no_panic)
qed

lemma questions_no_panic: "prepeat n (read_question L) r \<noteq> Some (Panic, t)"
  by (auto simp: prepeat_Panic_iff read_question_def pbind_Panic_iff read_name_no_panic reader_read_no_panic pret_def)

lemma sections_Panic_iff:
  "sections_after L h r = Some (Panic, t) \<longleftrightarrow>
     (\<exists>qs s. prepeat (unat (qd_count h)) (read_question L) r = Some (Ok qs, s) \<and>
        prepeat (unat (an_count h) + unat (ns_count h) + unat (ar_count h)) (read_resource L) s = Some (Panic, t))"
proof -
  have "pbind (prepeat a m) (\<lambda>xs. pbind (prepeat b m) (\<lambda>ys. pbind (prepeat c m) (\<lambda>zs. pret (F xs ys zs)))) s =
      Some (Panic, t) \<longleftrightarrow> prepeat (a + b + c) m s = Some (Panic, t)"
    for a b c and m :: "resource reading" and F :: "resource list \<Rightarrow> resource list \<Rightarrow> resource list \<Rightarrow> message" and s
    by (simp add: prepeat_add pbind_assoc pbind_pret pbind_Panic_iff pret_def)
  then show ?thesis
    unfolding sections_after_def by (simp add: pbind_Panic_iff [of "prepeat _ (read_question L)"] questions_no_panic)
qed

lemma decode_Panic_iff:
  "message_decode L data = Some Panic \<longleftrightarrow>
     (\<exists>h r t. read_header (reader_new data) = Some (Ok h, r) \<and> sections_after L h r = Some (Panic, t))"
proof -
  have "finish r \<noteq> Some (Panic, t)" if "rd_pos r \<le> length (rd_data r)" for r t
    using that by (auto simp: finish_def remaining_def pret_def pthrow_def pbind_Panic_iff)
  moreover have "rd_pos s \<le> length (rd_data s)"
    if "read_header (reader_new data) = Some (Ok h, r)" "sections_after L h r = Some (Ok m, s)" for h r m s
    using safe_readD [OF safe_sections_after that(2), of data] read_header_OkD [OF that(1)] by auto
  moreover have "read_header r \<noteq> Some (Panic, t)" for r t
    by (auto simp: read_header_def Let_def pbind_Panic_iff reader_read_no_panic pret_def)
  ultimately show ?thesis
    unfolding message_decode_sections read_sections_split pbind_assoc
    by (auto simp: pbind_Panic_iff pret_def)
qed

subsection \<open>Datagrams that decoding does not survive\<close>

text \<open>
  A header with identifier \<open>i\<close> whose flag bytes \<open>C0 02\<close> are themselves a pointer to offset 2,
  announcing one question, and a question name that is a pointer to offset 2.
\<close>

definition looping_datagram :: "u16 \<Rightarrow> bytes" where
  "looping_datagram i = be_of_u16 i @ [0xC0, 0x02, 0, 1, 0, 0, 0, 0, 0, 0, 0xC0, 0x02]"

lemma looping_datagram_trapped: "message_decode L (looping_datagram i) = None"
proof -
  let ?d = "looping_datagram i"
  let ?r = "\<lparr>rd_data = ?d, rd_pos = 12\<rparr>"
  have ptr: "pointer_at ?d 12 = Some 2" "pointer_at ?d 2 = Some 2"
    by (simp_all add: pointer_at_def looping_datagram_def be_of_u16_def pointer_offset_def)
  have "read_name L ?r = None"
    by (rule read_name_trapped [where C = "{2}" and t = 2]) (simp_all add: ptr pointer_trap_def)
  then have q: "read_question L ?r = None"
    by (simp add: read_question_def outcome_simps)
  have "reader_read 12 (reader_new ?d) = Some (Ok (take 12 ?d), ?r)"
    by (simp add: reader_read_def reader_new_def looping_datagram_def Let_def)
  then obtain h where h: "read_header (reader_new ?d) = Some (Ok h, ?r)"
    and "qd_count h = u16_of_be (take 12 ?d ! 4) (take 12 ?d ! 5)"
    by (simp add: read_header_def outcome_simps Let_def)
  moreover have "u16_of_be (take 12 ?d ! 4) (take 12 ?d ! 5) = 1"
    by (simp add: looping_datagram_def be_of_u16_def u16_of_be_def)
  ultimately have "unat (qd_count h) = Suc 0" by simp
  then have "sections_after L h ?r = None" by (simp add: sections_after_def q pbind_None)
  with h show ?thesis by (simp add: message_decode_sections read_sections_split outcome_simps)
qed

text \<open>A response whose only answer announces 65535 bytes of data and has none.\<close>

definition overrun_datagram :: bytes where
  "overrun_datagram =
     [0, 0, 0x80, 0, 0, 0, 0, 1, 0, 0, 0, 0,
      0, 0, 1, 0, 1, 0, 0, 0, 0, 0xFF, 0xFF]"

lemma overrun_datagram_panics: "message_decode L overrun_datagram = Some Panic"
proof -
  let ?d = overrun_datagram
  let ?r = "\<lambda>p. \<lparr>rd_data = ?d, rd_pos = p\<rparr>"
  have fixed: "reader_read 10 (?r 13) = Some (Ok (drop 13 ?d), ?r 23)"
    by (simp add: reader_read_def overrun_datagram_def Let_def)
  have len: "u16_of_be (drop 13 ?d ! 8) (drop 13 ?d ! 9) = 65535"
    by (simp add: overrun_datagram_def u16_of_be_def)
  have "read_name L (?r 12) = Some (Ok [dot], ?r 13)"
    by (simp add: read_name_def position_def outcome_simps read_name_loop.simps [of L 12] read_byte_eq
        overrun_datagram_def NAME_LIMIT_def)
  with fixed have res: "read_resource L (?r 12) = Some (Panic, ?r 23)"
    by (simp add: read_resource_split outcome_simps resource_tail_def len) (simp add: overrun_datagram_def)
  have "reader_read 12 (reader_new ?d) = Some (Ok (take 12 ?d), ?r 12)"
    by (simp add: reader_read_def reader_new_def overrun_datagram_def Let_def)
  then obtain h where h: "read_header (reader_new ?d) = Some (Ok h, ?r 12)"
    and "qd_count h = u16_of_be (take 12 ?d ! 4) (take 12 ?d ! 5)"
    and "an_count h = u16_of_be (take 12 ?d ! 6) (take 12 ?d ! 7)"
    by (simp add: read_header_def outcome_simps Let_def)
  moreover have "u16_of_be (take 12 ?d ! 4) (take 12 ?d ! 5) = 0" "u16_of_be (take 12 ?d ! 6) (take 12 ?d ! 7) = 1"
    by (simp_all add: overrun_datagram_def u16_of_be_def)
  ultimately have "unat (qd_count h) = 0" "unat (an_count h) = Suc 0" by simp_all
  then have "sections_after L h (?r 12) = Some (Panic, ?r 23)"
    by (simp add: sections_after_def res outcome_simps)
  with h show ?thesis by (simp add: message_decode_sections read_sections_split outcome_simps)
qed

subsection \<open>Properties\<close>

text \<open>C8: A decoded message has the header of the first twelve bytes and in every section exactly as
  many entries as the header announces. Every record stands in the datagram: the ten bytes in front
  of its data hold its type, class, time to live and the length of its data, and \<open>get_rdata\<close>
  returns, without a panic, exactly that many bytes of the datagram from there.\<close>

theorem decode_well_formed:
  assumes "message_decode L data = Some (Ok m)"
  shows "\<exists>h r. read_header (reader_new data) = Some (Ok h, r) \<and> m_header m = to_header h \<and>
    length (m_question m) = unat (qd_count h) \<and> length (m_answer m) = unat (an_count h) \<and>
    length (m_authority m) = unat (ns_count h) \<and> length (m_additional m) = unat (ar_count h) \<and>
    (\<forall>rr \<in> set (record_iter_collect (message_records m)). \<exists>p len.
       len = unat (u16_of_be (data ! (p + 8)) (data ! (p + 9))) \<and> p + 10 + len \<le> length data \<and>
       r_type rr = record_type_from_u16 (u16_of_be (data ! p) (data ! (p + 1))) \<and>
       r_class rr = class_from_u16 (u16_of_be (data ! (p + 2)) (data ! (p + 3))) \<and>
       r_ttl rr = u32_of_be (data ! (p + 4)) (data ! (p + 5)) (data ! (p + 6)) (data ! (p + 7)) \<and>
       (get_rdata rr :: (bytes, decode_error) outcome) = Ok (take len (drop (p + 10) data)))"
proof -
  from assms obtain h r where h: "read_header (reader_new data) = Some (Ok h, r)" "message_wf data h m"
    by (rule decode_OkD)
  then have "\<forall>rr \<in> set (record_iter_collect (message_records m)). resource_wf data rr"
    by (auto simp: message_records_def record_iter_collect_append message_wf_def list_all_iff)
  moreover have "(get_rdata rr :: (bytes, decode_error) outcome) =
      Ok (take (rdlength_at data p) (drop (p + 10) data))" if "resource_at data p rr" for p rr
    using that by (auto simp: resource_at_def get_rdata_def drop_take)
  ultimately show ?thesis
    using h by (fastforce simp: message_wf_def resource_wf_def resource_at_def rdlength_at_def)
qed

text \<open>A response with one address record.\<close>

definition sample_response :: message where
  "sample_response = (message_with_id 4711)\<lparr>m_answer :=
     [\<lparr>r_name = lit ''usnet.de'', r_type = TyA, r_class = Internet, r_ttl = 60, r_data = [10, 0, 0, 1], r_offset = 0\<rparr>]\<rparr>"

lemma sample_response_ok: "message_ok ascii_idna sample_response"
  using sample_query_ok
  by (simp add: message_ok_def sample_query_def sample_response_def message_with_id_def question_new_def
      question_ok_def resource_ok_def rdata_of_def)

theorem decode_well_formed_witness:
  "\<exists>m rr p len. message_decode ascii_idna (message_bytes ascii_idna sample_response) = Some (Ok m) \<and>
     m_answer m = [rr] \<and> take len (drop p (message_bytes ascii_idna sample_response)) = [10, 0, 0, 1]"
proof -
  let ?d = "message_bytes ascii_idna sample_response"
  obtain m where m: "message_decode ascii_idna ?d = Some (Ok m)" "message_same ascii_idna sample_response m"
    using decode_message_bytes [OF sample_response_ok] by blast
  then obtain rr where rr: "m_answer m = [rr]"
    "(get_rdata rr :: (bytes, decode_error) outcome) = Ok [10, 0, 0, 1]"
    by (auto simp: message_same_def sample_response_def list_all2_Cons1 resource_same_def rdata_of_def get_rdata_def)
  then have "rr \<in> set (record_iter_collect (message_records m))"
    by (simp add: message_records_def record_iter_collect_append)
  with decode_well_formed [OF m(1)] obtain p len where
    "(get_rdata rr :: (bytes, decode_error) outcome) = Ok (take len (drop (p + 10) ?d))" by blast
  with rr m(1) show ?thesis by auto
qed

text \<open>C7: Decoding returns on every datagram in which no chain of compression pointers (to earlier
  offsets or later ones) leads back to itself.\<close>

theorem decode_terminates:
  assumes "acyclic (pointer_rel data (length data))"
  shows "\<exists>out. message_decode L data = Some out"
  using decode_returns [OF assms] by blast

theorem decode_terminates_witness: "\<exists>out. message_decode ascii_idna [0, 1, 2] = Some out"
proof (rule decode_terminates)
  have "pointer_rel [0, 1, 2] (length [0, 1, 2 :: u8]) = {}"
    by (auto simp: pointer_rel_def pointer_at_def less_Suc_eq split: if_splits)
  then show "acyclic (pointer_rel [0, 1, 2] (length [0, 1, 2 :: u8]))"
    by (simp add: acyclic_def)
qed

text \<open>C20: The guard of \<open>read_name\<close> against pointer loops compares with the start of the name only:
  a datagram of 14 bytes, with any message identifier, makes \<open>decode\<close> loop forever.\<close>

theorem decode_diverges: "message_decode L (looping_datagram i) = None \<and> length (looping_datagram i) = 14"
  by (simp add: looping_datagram_trapped) (simp add: looping_datagram_def)

text \<open>C9: Decoding panics exactly when, after the header, all questions and some of the announced
  records have been read, the name of the next announced record is read, the ten bytes behind it
  are there, and the length they hold is more than what is left of the datagram.\<close>

theorem decode_panic_cause:
  "message_decode L data = Some Panic \<longleftrightarrow>
     (\<exists>h r0 qs r1 k rs r2 name r3.
        read_header (reader_new data) = Some (Ok h, r0) \<and>
        prepeat (unat (qd_count h)) (read_question L) r0 = Some (Ok qs, r1) \<and>
        k < unat (an_count h) + unat (ns_count h) + unat (ar_count h) \<and>
        prepeat k (read_resource L) r1 = Some (Ok rs, r2) \<and>
        read_name L r2 = Some (Ok name, r3) \<and>
        rd_pos r3 + 10 \<le> length data \<and>
        length data < rd_pos r3 + 10 +
          unat (u16_of_be (data ! (rd_pos r3 + 8)) (data ! (rd_pos r3 + 9))))"
proof -
  have "(\<exists>t. read_resource L r2 = Some (Panic, t)) \<longleftrightarrow>
      (\<exists>name r3. read_name L r2 = Some (Ok name, r3) \<and> rdlength_overrun data (rd_pos r3))"
    if "read_header (reader_new data) = Some (Ok h, r0)"
      "prepeat (unat (qd_count h)) (read_question L) r0 = Some (Ok qs, r1)"
      "prepeat k (read_resource L) r1 = Some (Ok rs, r2)" for h r0 qs r1 k rs r2
  proof -
    note r0 = read_header_OkD [OF that(1)]
    have r1: "rd_data r1 = data" "rd_pos r1 \<le> length data"
      using safe_readD [OF safe_read_repeat [OF safe_read_question] that(2) r0(1)] r0 by auto
    show ?thesis
      by (rule read_resource_Panic_iff)
        (use safe_readD [OF safe_read_repeat [OF safe_read_resource] that(3) r1] in auto)
  qed
  note overrun = this [unfolded rdlength_overrun_def rdlength_at_def]
  show ?thesis (is "_ \<longleftrightarrow> ?cause")
  proof
    assume "message_decode L data = Some Panic"
    then obtain h r0 qs r1 k rs r2 t where run: "read_header (reader_new data) = Some (Ok h, r0)"
        "prepeat (unat (qd_count h)) (read_question L) r0 = Some (Ok qs, r1)"
        "prepeat k (read_resource L) r1 = Some (Ok rs, r2)"
      and k: "k < unat (an_count h) + unat (ns_count h) + unat (ar_count h)"
      and "read_resource L r2 = Some (Panic, t)"
      unfolding decode_Panic_iff sections_Panic_iff prepeat_Panic_iff by blast
    with overrun [OF run] show ?cause by blast
  next
    assume ?cause
    then show "message_decode L data = Some Panic"
      unfolding decode_Panic_iff sections_Panic_iff prepeat_Panic_iff using overrun by metis
  qed
qed

text \<open>Such datagrams exist: one record with an empty name and a data length of 65535 makes
  \<open>decode\<close> panic instead of returning \<open>ShortMessage\<close>.\<close>

theorem decode_panics: "message_decode L overrun_datagram = Some Panic \<and> length overrun_datagram = 23"
  by (simp add: overrun_datagram_panics) (simp add: overrun_datagram_def)

end
