(* ===== verification/ResolverFacts.thy ===== *)
theory ResolverFacts
  imports Resolver DecodeSafety
begin

text \<open>
  What the resolver guarantees: which datagrams it takes as the reply, which server each
  attempt goes to, how the search list is worked through, and when it does not come back.
\<close>

subsection \<open>The accepted reply\<close>

text \<open>\<open>msg\<close> came in one datagram from \<open>ns\<close> and answers \<open>out_msg\<close> without an error code.\<close>

definition genuine_reply :: "'s udp_ops \<Rightarrow> idna_lib \<Rightarrow> message \<Rightarrow> socket_addr \<Rightarrow> message \<Rightarrow> bool" where
  "genuine_reply U L out_msg ns msg \<longleftrightarrow>
     (\<exists>s s' data src.
        udp_recv_from U MESSAGE_LIMIT s = Some (Ok (data, src), s') \<and>
        socket_address_equal src ns \<and> message_decode L data = Some (Ok msg)) \<and>
     h_id (m_header msg) = h_id (m_header out_msg) \<and>
     h_qr (m_header msg) = Response \<and> h_rcode (m_header msg) = NoError"

fun attempt_ok :: "'s udp_ops \<Rightarrow> idna_lib \<Rightarrow> message \<Rightarrow> socket_addr \<Rightarrow> (attempt, dns_err) outcome \<Rightarrow> bool" where
  "attempt_ok U L out_msg ns (Ok (Reply m)) = genuine_reply U L out_msg ns m"
| "attempt_ok U L out_msg ns (Ok (Retry e)) = is_timeout e"
| "attempt_ok U L out_msg ns _ = True"

lemma get_error_Ok: "get_error m = Ok x \<longleftrightarrow> h_rcode (m_header m) = NoError"
  by (simp add: get_error_def)

text \<open>One turn of the waiting loop, with the rest of the loop as \<open>f\<close>.\<close>

definition await_body where
  "await_body f U L out_msg ns_addr t s =
     pbind (map_err IoError (udp_set_read_timeout U (Some t))) (\<lambda>_ s0.
       case udp_now U s0 of
         (start, s1) \<Rightarrow>
           (case socket_recv_message U L ns_addr MESSAGE_LIMIT s1 of
              None \<Rightarrow> None
            | Some (out, s2) \<Rightarrow>
                (case out of
                   Ok None \<Rightarrow>
                     (case udp_now U s2 of
                        (now, s3) \<Rightarrow> f U L out_msg ns_addr (remaining_timeout t (now - start)) s3)
                 | Ok (Some msg) \<Rightarrow>
                     if h_id (m_header msg) = h_id (m_header out_msg) \<and> h_qr (m_header msg) = Response
                     then pbind (map_err DnsErr (pure_prog (Some (get_error msg)))) (\<lambda>_. pret (Reply msg)) s2
                     else f U L out_msg ns_addr t s2
                 | Err e \<Rightarrow> if is_timeout e then Some (Ok (Retry e), s2) else Some (Err e, s2)
                 | Panic \<Rightarrow> Some (Panic, s2)))) s"

lemma await_reply_unfold: "await_reply U L out_msg ns t s = await_body await_reply U L out_msg ns t s"
  unfolding await_body_def by (rule await_reply.simps)

lemma await_body_cases:
  assumes "await_body f U L out_msg ns t s = Some (out, s')"
  obtains (Again) t' s1 where "f U L out_msg ns t' s1 = Some (out, s')" and "t' \<le> t"
  | (Done) "attempt_ok U L out_msg ns out"
proof -
  from assms [unfolded await_body_def] show thesis
  proof (cases rule: pbind_cases)
    case (Ok a s0)
    obtain start s1 where now: "udp_now U s0 = (start, s1)" by fastforce
    with Ok(2) obtain res s2 where recv: "socket_recv_message U L ns MESSAGE_LIMIT s1 = Some (res, s2)"
      by (auto split: option.splits)
    note rest = Ok(2) now recv
    show thesis
    proof (cases res)
      case (Ok o1)
      show thesis
      proof (cases o1)
        case None
        obtain now s3 where "udp_now U s2 = (now, s3)" by fastforce
        with rest Ok None have "f U L out_msg ns (remaining_timeout t (now - start)) s3 = Some (out, s')" by simp
        then show thesis by (rule Again) (simp add: remaining_timeout_def from_secs_def)
      next
        case (Some msg)
        have recv': "\<exists>s s' data src. udp_recv_from U MESSAGE_LIMIT s = Some (Ok (data, src), s') \<and>
            socket_address_equal src ns \<and> message_decode L data = Some (Ok msg)"
          using socket_recv_message_SomeD [OF recv [unfolded Ok Some]] by metis
        show thesis
        proof (cases "h_id (m_header msg) = h_id (m_header out_msg) \<and> h_qr (m_header msg) = Response")
          case True
          with rest Ok Some have "get_error msg = Ok () \<and> out = Ok (Reply msg) \<or> (\<exists>e. out = Err e)"
            by (cases "get_error msg") (auto simp: map_err_def pure_prog_def pbind_def pret_def get_error_def split: if_splits)
          with True show thesis
            by (intro Done) (auto simp: genuine_reply_def get_error_Ok recv')
        next
          case False
          with rest Ok Some have "f U L out_msg ns t s2 = Some (out, s')" by simp
          then show thesis by (rule Again) simp
        qed
      qed
    next
      case (Err e)
      with rest show thesis by (intro Done) (auto split: if_splits)
    next
      case Panic
      with rest show thesis by (intro Done) auto
    qed
  qed (auto intro: Done)
qed

lemma await_reply_attempt:
  assumes ret: "await_reply U L out_msg ns t s = Some (out, s')"
  shows "attempt_ok U L out_msg ns out"
proof -
  have "attempt_ok U L out_msg ns (fst (out, s'))"
  proof (rule await_reply.raw_induct
      [where P = "\<lambda>U L out_msg ns t s y. attempt_ok U L out_msg ns (fst y)", OF _ ret], fold await_body_def)
    fix f U L out_msg ns t s y
    assume IH: "\<And>U L out_msg ns t s y. f U L out_msg ns t s = Some y \<Longrightarrow> attempt_ok U L out_msg ns (fst y)"
      and body: "await_body f U L out_msg ns t s = Some y"
    obtain o1 s1 where y: "y = (o1, s1)" by (cases y)
    from body [unfolded y] show "attempt_ok U L out_msg ns (fst y)"
      by (cases rule: await_body_cases) (auto simp: y dest: IH)
  qed
  then show ?thesis by simp
qed

subsection \<open>Attempts\<close>

definition resolver_ok :: "'s dns_resolver \<Rightarrow> bool" where
  "resolver_ok r \<longleftrightarrow>
     name_servers (dr_config r) \<noteq> [] \<and> dr_next_ns r < length (name_servers (dr_config r))"

lemma resolver_ok_with_sock: "name_servers cfg \<noteq> [] \<Longrightarrow> resolver_ok (with_sock s cell cfg)"
  by (simp add: resolver_ok_def with_sock_def)

text \<open>The server that attempt \<open>i\<close> goes to, and the round-robin index it leaves.\<close>

definition server_of :: "'s dns_resolver \<Rightarrow> nat \<Rightarrow> socket_addr" where
  "server_of r i =
     (let ns = name_servers (dr_config r)
      in if rotate (dr_config r) then ns ! dr_next_ns r else ns ! (i mod length ns))"

definition after_choice :: "'s dns_resolver \<Rightarrow> 's dns_resolver" where
  "after_choice r =
     (if rotate (dr_config r)
      then r\<lparr>dr_next_ns := (dr_next_ns r + 1) mod length (name_servers (dr_config r))\<rparr> else r)"

lemma choose_server_eq:
  "resolver_ok r \<Longrightarrow> choose_server i r = Some (Ok (server_of r i), after_choice r)"
  by (simp add: choose_server_def next_nameserver_def resolver_ok_def server_of_def after_choice_def Let_def)

lemma server_of_in: "resolver_ok r \<Longrightarrow> server_of r i \<in> set (name_servers (dr_config r))"
  by (simp add: server_of_def resolver_ok_def Let_def)

lemma after_choice_simps [simp]:
  "resolver_ok r \<Longrightarrow> resolver_ok (after_choice r)"
  "dr_config (after_choice r) = dr_config r" "dr_sock (after_choice r) = dr_sock r"
  by (auto simp: after_choice_def resolver_ok_def)

lemma on_sock_cases:
  assumes "on_sock m r = Some (out, r')"
  obtains s where "m (dr_sock r) = Some (out, s)" and "r' = r\<lparr>dr_sock := s\<rparr>"
  using assms by (auto simp: on_sock_def)

lemma resolver_ok_sock [simp]: "resolver_ok (r\<lparr>dr_sock := s\<rparr>) = resolver_ok r"
  by (simp add: resolver_ok_def)

text \<open>
  How a sequence of attempts ends: with a genuine reply from one of the servers, with an
  error, or with a panic.
\<close>

lemma send_attempts_reply:
  assumes "send_attempts U L out_msg retries left last_err r = Some (Ok msg, r')" and "resolver_ok r"
  shows "\<exists>ns \<in> set (name_servers (dr_config r)). genuine_reply U L out_msg ns msg"
  using assms
proof (induction left arbitrary: retries last_err r)
  case 0
  then show ?case by (auto simp: pthrow_def ppanic_def split: option.splits)
next
  case (Suc left)
  let ?ns = "server_of r retries"
  from Suc.prems obtain s2 res s3 where
    await: "await_reply U L out_msg ?ns (timeout (dr_config r)) s2 = Some (Ok res, s3)"
    and rest: "(case res of Reply msg \<Rightarrow> pret msg
        | Retry e \<Rightarrow> send_attempts U L out_msg (Suc retries) left (Some e))
        ((after_choice r)\<lparr>dr_sock := s3\<rparr>) = Some (Ok msg, r')"
    by (auto simp: choose_server_eq elim!: pbind_OkE on_sock_cases)
  show ?case
  proof (cases res)
    case (Reply m)
    with rest await_reply_attempt [OF await] server_of_in [OF Suc.prems(2)] show ?thesis
      by (auto simp: pret_def)
  next
    case (Retry e)
    with rest Suc.prems(2) Suc.IH [of "Suc retries" "Some e" "(after_choice r)\<lparr>dr_sock := s3\<rparr>"]
    show ?thesis by simp
  qed
qed

text \<open>Configured without attempts, the resolver panics before it sends anything.\<close>

lemma send_message_no_attempts:
  "attempts (dr_config r) = 0 \<Longrightarrow> send_message U L out_msg r = Some (Panic, r)"
  by (simp add: send_message_def ppanic_def)

text \<open>
  When every attempt times out the resolver goes through all of them and reports the last
  timeout. \<open>silent_from\<close> lists the attempts' timeouts.
\<close>

fun silent_run :: "'s udp_ops \<Rightarrow> idna_lib \<Rightarrow> message \<Rightarrow> nat \<Rightarrow> dns_err list \<Rightarrow> 's dns_resolver \<Rightarrow> 's dns_resolver \<Rightarrow> bool" where
  "silent_run U L out_msg i [] r r' = (r' = r)"
| "silent_run U L out_msg i (e # es) r r' =
     (\<exists>s1 s2. socket_send_message U L out_msg (server_of r i) (dr_sock r) = Some (Ok (), s1) \<and>
        await_reply U L out_msg (server_of r i) (timeout (dr_config r)) s1 = Some (Ok (Retry e), s2) \<and>
        silent_run U L out_msg (Suc i) es ((after_choice r)\<lparr>dr_sock := s2\<rparr>) r')"

lemma send_attempts_silent:
  assumes "silent_run U L out_msg i es r r'" and "resolver_ok r" and "es \<noteq> [] \<or> last_err = Some e"
  shows "send_attempts U L out_msg i (length es) last_err r =
    Some (Err (if es = [] then e else last es), r')"
  using assms
proof (induction es arbitrary: i r last_err e)
  case Nil
  then show ?case by (simp add: pthrow_def)
next
  case (Cons x es)
  then obtain s1 s2 where run:
    "socket_send_message U L out_msg (server_of r i) (dr_sock r) = Some (Ok (), s1)"
    "await_reply U L out_msg (server_of r i) (timeout (dr_config r)) s1 = Some (Ok (Retry x), s2)"
    "silent_run U L out_msg (Suc i) es ((after_choice r)\<lparr>dr_sock := s2\<rparr>) r'"
    by auto
  with Cons.IH [OF run(3), of "Some x" x] Cons.prems(2) show ?case
    by (simp add: choose_server_eq on_sock_def outcome_simps)
qed

subsection \<open>Waiting that does not end\<close>

text \<open>
  In every state of \<open>C\<close> the next datagram decodes to a message from the server that is not a
  response to the query, and leaves the socket in \<open>C\<close>: the read timeout is armed afresh with
  its full value each time.
\<close>

definition chatter :: "'s udp_ops \<Rightarrow> idna_lib \<Rightarrow> message \<Rightarrow> socket_addr \<Rightarrow> duration \<Rightarrow> 's set \<Rightarrow> bool" where
  "chatter U L out_msg ns t C \<longleftrightarrow>
     (\<forall>s \<in> C. \<exists>s0 s1 start msg s2.
        udp_set_read_timeout U (Some t) s = Some (Ok (), s0) \<and> udp_now U s0 = (start, s1) \<and>
        socket_recv_message U L ns MESSAGE_LIMIT s1 = Some (Ok (Some msg), s2) \<and>
        (h_id (m_header msg) \<noteq> h_id (m_header out_msg) \<or> h_qr (m_header msg) = Query) \<and> s2 \<in> C)"

lemma await_body_chatter:
  assumes "chatter U L out_msg ns t C" and "s \<in> C"
  obtains s2 where "s2 \<in> C" and "\<And>f. await_body f U L out_msg ns t s = f U L out_msg ns t s2"
proof -
  from assms obtain s0 s1 start msg s2 where
    "udp_set_read_timeout U (Some t) s = Some (Ok (), s0)" "udp_now U s0 = (start, s1)"
    "socket_recv_message U L ns MESSAGE_LIMIT s1 = Some (Ok (Some msg), s2)"
    "h_id (m_header msg) \<noteq> h_id (m_header out_msg) \<or> h_qr (m_header msg) = Query" "s2 \<in> C"
    unfolding chatter_def by blast
  then show thesis by (intro that [of s2]) (auto simp: await_body_def outcome_simps)
qed

lemma await_reply_chatter:
  assumes "chatter U L out_msg ns t C" and "s \<in> C"
  shows "await_reply U L out_msg ns t s = None"
proof (rule ccontr)
  assume "await_reply U L out_msg ns t s \<noteq> None"
  then obtain y where ret: "await_reply U L out_msg ns t s = Some y" by blast
  have "\<not> (chatter U L out_msg ns t C \<and> s \<in> C)"
  proof (rule await_reply.raw_induct
      [where P = "\<lambda>U L out_msg ns t s y. \<not> (chatter U L out_msg ns t C \<and> s \<in> C)", OF _ ret],
      fold await_body_def)
    fix f U L out_msg ns t s y
    assume IH: "\<And>U L out_msg ns t s y. f U L out_msg ns t s = Some y \<Longrightarrow> \<not> (chatter U L out_msg ns t C \<and> s \<in> C)"
      and body: "await_body f U L out_msg ns t s = Some y"
    show "\<not> (chatter U L out_msg ns t C \<and> s \<in> C)"
    proof
      assume C: "chatter U L out_msg ns t C \<and> s \<in> C"
      then obtain s2 where "s2 \<in> C" "f U L out_msg ns t s2 = Some y"
        using await_body_chatter body by metis
      with IH C show False by blast
    qed
  qed
  with assms show False by blast
qed

subsection \<open>The search list\<close>

text \<open>\<open>f\<close> fails on every name of the list, one after the other.\<close>

inductive failing_run :: "(ustr \<Rightarrow> ('s, 'e, 'a) prog) \<Rightarrow> ustr list \<Rightarrow> 's \<Rightarrow> 's \<Rightarrow> bool" for f where
  none: "failing_run f [] s s"
| step: "f n s = Some (Err e, s1) \<Longrightarrow> failing_run f ns s1 s2 \<Longrightarrow> failing_run f (n # ns) s s2"

inductive_cases failing_run_ConsE: "failing_run f (n # ns) s s2"

inductive_simps failing_run_simps [simp]:
  "failing_run f [] s s2"
  "failing_run f (n # ns) s s2"

lemma try_names_Ok:
  "try_names ns err f s = Some (Ok t, s') \<longleftrightarrow>
     (\<exists>pre n post s1. ns = pre @ n # post \<and> failing_run f pre s s1 \<and> f n s1 = Some (Ok t, s'))"
proof (induction ns arbitrary: err s)
  case Nil
  then show ?case by (simp add: pthrow_def)
next
  case (Cons n ns)
  show ?case
  proof
    assume "try_names (n # ns) err f s = Some (Ok t, s')"
    then consider "f n s = Some (Ok t, s')"
      | e s1 where "f n s = Some (Err e, s1)" "try_names ns (Some e) f s1 = Some (Ok t, s')"
      by (auto split: option.splits outcome.splits)
    then show "\<exists>pre m post s1. n # ns = pre @ m # post \<and> failing_run f pre s s1 \<and> f m s1 = Some (Ok t, s')"
    proof cases
      case 1
      then show ?thesis by (intro exI [of _ "[]"] exI) auto
    next
      case 2
      with Cons.IH obtain pre m post s2 where "ns = pre @ m # post" "failing_run f pre s1 s2" "f m s2 = Some (Ok t, s')"
        by blast
      with 2 show ?thesis by (intro exI [of _ "n # pre"] exI [of _ m] exI [of _ post] exI [of _ s2]) auto
    qed
  next
    assume "\<exists>pre m post s1. n # ns = pre @ m # post \<and> failing_run f pre s s1 \<and> f m s1 = Some (Ok t, s')"
    then obtain pre m post s1 where *: "n # ns = pre @ m # post" "failing_run f pre s s1" "f m s1 = Some (Ok t, s')"
      by blast
    show "try_names (n # ns) err f s = Some (Ok t, s')"
    proof (cases pre)
      case Nil
      with * show ?thesis by simp
    next
      case (Cons x xs)
      with * obtain e s2 where "x = n" "f n s = Some (Err e, s2)" "failing_run f xs s2 s1" by auto
      moreover from this * Cons have "try_names ns (Some e) f s2 = Some (Ok t, s')"
        by (subst Cons.IH) auto
      ultimately show ?thesis by simp
    qed
  qed
qed

subsection \<open>Results of host lookups\<close>

lemma lookup_result_Ok: "lookup_result res err = Ok ips \<longleftrightarrow> res \<noteq> [] \<and> ips = res"
  by (auto simp: lookup_result_def split: option.splits)

lemma lookup_name_Ok:
  assumes "lookup_name U L name r = Some (Ok ips, r')"
  shows "ips \<noteq> [] \<and> (use_inet6 (dr_config r) \<longrightarrow> list_all is_ipv6 ips)"
  using assms
  by (auto simp: lookup_name_def lookup_result_Ok Let_def list_all_iff
      split: if_splits option.splits prod.splits outcome.splits)

subsection \<open>Properties\<close>

text \<open>C3: A message that \<open>send_message\<close> returns came in one datagram from one of the configured name
  servers, carries the identifier of the query, is a response, and reports no error.\<close>

theorem send_message_genuine:
  assumes "resolver_ok r" and "send_message U L out_msg r = Some (Ok msg, r')"
  shows "\<exists>ns \<in> set (name_servers (dr_config r)). genuine_reply U L out_msg ns msg"
  using send_attempts_reply assms unfolding send_message_def by blast

text \<open>C24: When the query is sent and times out \<open>attempts\<close> times, going through the servers in the order
  \<open>server_of\<close> gives, the resolver gives up with the last timeout.\<close>

theorem send_message_all_timeouts:
  assumes "resolver_ok r" and "silent_run U L out_msg 0 es r r'" and "es \<noteq> []"
    and "length es = unat (attempts (dr_config r))"
  shows "send_message U L out_msg r = Some (Err (last es), r')"
  using send_attempts_silent [OF assms(2,1), of None] assms(3,4) by (simp add: send_message_def)

text \<open>With \<open>attempts\<close> zero, which \<open>resolv.conf\<close> may set, every query panics.\<close>

theorem no_attempts_panics:
  assumes "attempts (dr_config r) = 0"
  shows "send_message U L out_msg r = Some (Panic, r)"
  using assms by (rule send_message_no_attempts)

text \<open>C25: Messages from the server that are not the awaited response do not use up the timeout: while
  they keep coming, waiting never ends.\<close>

theorem await_reply_diverges:
  assumes "chatter U L out_msg ns t C" and "s \<in> C"
  shows "await_reply U L out_msg ns t s = None"
  using assms by (rule await_reply_chatter)

text \<open>C26: A name with at least \<open>n_dots\<close> dots (counted in 32 bits) and no final dot, as \<open>use_search\<close>
  says, is tried with every search suffix in order and then as it is; the result is that of the first
  of these names for which the lookup succeeds. The documentation of \<open>n_dots\<close> has it that for such a
  name the absolute query comes first; other names are never tried with a suffix.\<close>

theorem query_names_first_success:
  assumes "use_search name cfg"
  shows "query_names name cfg f s = Some (Ok t, s') \<longleftrightarrow>
    (\<exists>pre n post s1. map (\<lambda>x. name @ [dot] @ x) (search cfg) @ [name] = pre @ n # post \<and>
       failing_run f pre s s1 \<and> f n s1 = Some (Ok t, s'))"
  using assms by (simp add: query_names_def with_suffixes_def try_names_Ok)

text \<open>C27: A name with fewer dots than \<open>n_dots\<close>, or with a final dot, is looked up as it is and never
  with a search suffix.\<close>

theorem query_names_few_dots:
  assumes "length (filter (\<lambda>c. c = dot) name) < unat (n_dots cfg) \<or> ends_with [dot] name"
  shows "query_names name cfg f = f name"
proof -
  let ?k = "length (filter (\<lambda>c. c = dot) name)"
  have "(word_of_nat ?k :: u32) < n_dots cfg" if "?k < unat (n_dots cfg)"
  proof -
    have "unat (word_of_nat ?k :: u32) \<le> ?k"
      by (simp add: unat_of_nat take_bit_nat_less_eq_self)
    with that show ?thesis by (simp only: word_less_nat_alt)
  qed
  with assms show ?thesis by (auto simp: query_names_def use_search_def not_le)
qed

text \<open>C28: A host lookup that succeeds returns at least one address, and only IPv6 addresses when
  \<open>use_inet6\<close> is set.\<close>

theorem lookup_name_addresses:
  assumes "lookup_name U L name r = Some (Ok ips, r')"
  shows "ips \<noteq> [] \<and> (use_inet6 (dr_config r) \<longrightarrow> list_all is_ipv6 ips)"
  using assms by (rule lookup_name_Ok)

end
