(* ===== verification/ResolverExamples.thy ===== *)
theory ResolverExamples
  imports ResolverFacts
begin

text \<open>
  Runs of the resolver against a scripted socket: sending always succeeds, and receiving
  plays back a list of datagrams and errors. They show that the situations the resolver
  properties speak about arise.
\<close>

type_synonym script = "(bytes \<times> socket_addr, io_error) outcome list"

definition script_udp :: "script udp_ops" where
  "script_udp =
     \<lparr>udp_bind = \<lambda>_. pret (), udp_send_to = \<lambda>data _. pret (length data),
      udp_recv_from = \<lambda>_ s. (case s of [] \<Rightarrow> None | x # xs \<Rightarrow> Some (x, xs)),
      udp_set_read_timeout = \<lambda>_. pret (), udp_now = \<lambda>s. (0, s)\<rparr>"

definition timed_out :: io_error where
  "timed_out = io_error_new KWouldBlock (lit ''would block'')"

definition local_server :: socket_addr where
  "local_server = SockV4 (Ipv4Addr 127 0 0 1) 53"

definition local_config :: "u32 \<Rightarrow> dns_config" where
  "local_config n = (with_name_servers [local_server])\<lparr>attempts := n\<rparr>"

definition local_resolver :: "u16 \<Rightarrow> u32 \<Rightarrow> 's \<Rightarrow> 's dns_resolver" where
  "local_resolver c n s = with_sock s c (local_config n)"

lemma local_resolver_ok: "resolver_ok (local_resolver c n s)"
  by (simp add: local_resolver_def local_config_def with_name_servers_def resolver_ok_with_sock)

lemma local_resolver_simps [simp]:
  "server_of (local_resolver c n s) i = local_server" "dr_sock (local_resolver c n s) = s"
  "after_choice (local_resolver c n s) = local_resolver c n s"
  "(local_resolver c n s)\<lparr>dr_sock := s'\<rparr> = local_resolver c n s'"
  "timeout (dr_config (local_resolver c n s)) = from_secs 5"
  "attempts (dr_config (local_resolver c n s)) = n"
  "use_inet6 (dr_config (local_resolver c n s)) = False"
  by (simp_all add: server_of_def after_choice_def local_resolver_def local_config_def with_sock_def
      with_name_servers_def)

lemma socket_address_equal_refl [simp]: "socket_address_equal a a"
  by (simp add: socket_address_equal_def address_equal_refl)

lemma script_send:
  assumes "message_ok L m" and "length (message_bytes L m) \<le> MESSAGE_LIMIT"
  shows "socket_send_message script_udp L m addr s = Some (Ok (), s)"
  using message_encode_run [OF assms(1), of "replicate MESSAGE_LIMIT 0"] assms(2)
  by (auto simp: socket_send_message_def script_udp_def outcome_simps)

lemma script_await_timeout:
  "await_reply script_udp L m ns t (Err timed_out # s) = Some (Ok (Retry (IoError timed_out)), s)"
  by (simp add: await_reply_unfold await_body_def script_udp_def socket_recv_message_def outcome_simps
      is_timeout_def timed_out_def io_error_new_def)

text \<open>A response to a message: the same with the response flag, and answers.\<close>

definition reply_to :: "message \<Rightarrow> resource list \<Rightarrow> message" where
  "reply_to m rrs = m\<lparr>m_header := (m_header m)\<lparr>h_qr := Response, h_rcode := NoError\<rparr>, m_answer := rrs\<rparr>"

lemma script_await_reply:
  assumes "message_ok L (reply_to m rrs)"
  obtains m' where "await_reply script_udp L m ns t (Ok (message_bytes L (reply_to m rrs), ns) # s) =
      Some (Ok (Reply m'), s)" and "message_same L (reply_to m rrs) m'"
proof -
  obtain m' where m': "message_decode L (message_bytes L (reply_to m rrs)) = Some (Ok m')"
    and same: "message_same L (reply_to m rrs) m'"
    using decode_message_bytes [OF assms] by blast
  from same have "m_header m' = to_header (header_as_read (message_full_header (reply_to m rrs)))"
    by (simp add: message_same_def)
  then have "h_id (m_header m') = h_id (m_header m)" "h_qr (m_header m') = Response" "h_rcode (m_header m') = NoError"
    by (simp_all add: header_as_read_def message_full_header_def full_header_of_def to_header_def reply_to_def
        rcode_from_u8_def)
  then have "await_reply script_udp L m ns t (Ok (message_bytes L (reply_to m rrs), ns) # s) = Some (Ok (Reply m'), s)"
    by (simp add: await_reply_unfold await_body_def script_udp_def socket_recv_message_def outcome_simps m'
        get_error_def)
  with same that show thesis by blast
qed

lemma sample_query_short: "length (message_bytes ascii_idna sample_query) \<le> MESSAGE_LIMIT"
  by (simp add: message_bytes_def sample_query_def message_with_id_def question_bytes_def name_bytes_def
      question_new_def name_labels_def label_bytes_def lit_def as_bytes_def utf8_char_def
      starts_with_def ends_with_def MESSAGE_LIMIT_def)

lemma sample_reply_ok: "message_ok ascii_idna (reply_to sample_query [])"
  using sample_query_ok by (simp add: message_ok_def reply_to_def)

theorem send_message_genuine_witness:
  "\<exists>m r'. send_message script_udp ascii_idna sample_query
      (local_resolver 0 1 [Ok (message_bytes ascii_idna (reply_to sample_query []), local_server)]) = Some (Ok m, r') \<and>
     (\<exists>ns \<in> set (name_servers (local_config 1)). genuine_reply script_udp ascii_idna sample_query ns m)"
proof -
  let ?r = "local_resolver 0 1 [Ok (message_bytes ascii_idna (reply_to sample_query []), local_server)]"
  obtain m where m: "await_reply script_udp ascii_idna sample_query local_server (from_secs 5)
      [Ok (message_bytes ascii_idna (reply_to sample_query []), local_server)] = Some (Ok (Reply m), [])"
    using script_await_reply [OF sample_reply_ok] by blast
  have run: "send_message script_udp ascii_idna sample_query ?r = Some (Ok m, local_resolver 0 1 [])"
    unfolding send_message_def
    by (simp add: choose_server_eq local_resolver_ok on_sock_def outcome_simps m
        script_send [OF sample_query_ok sample_query_short])
  from send_message_genuine [OF local_resolver_ok run] run show ?thesis
    by (auto simp: local_resolver_def with_sock_def)
qed

theorem send_message_all_timeouts_witness:
  "send_message script_udp ascii_idna sample_query (local_resolver 0 2 [Err timed_out, Err timed_out]) =
     Some (Err (IoError timed_out), local_resolver 0 2 [])"
  using send_message_all_timeouts [OF local_resolver_ok, of script_udp ascii_idna sample_query
      "[IoError timed_out, IoError timed_out]" 0 2 "[Err timed_out, Err timed_out]" "local_resolver 0 2 []"]
  by (simp add: script_send [OF sample_query_ok sample_query_short] script_await_timeout)

theorem no_attempts_panics_witness:
  "send_message script_udp ascii_idna sample_query (with_sock [] 0 zero_attempts_config) =
     Some (Panic, with_sock [] 0 zero_attempts_config)"
  by (rule no_attempts_panics) (simp add: with_sock_def zero_attempts_config_def)

text \<open>A server that echoes the query over and over.\<close>

definition echo_udp :: "unit udp_ops" where
  "echo_udp =
     \<lparr>udp_bind = \<lambda>_. pret (), udp_send_to = \<lambda>data _. pret (length data),
      udp_recv_from = \<lambda>_ s. Some (Ok (message_bytes ascii_idna sample_query, local_server), s),
      udp_set_read_timeout = \<lambda>_. pret (), udp_now = \<lambda>s. (0, s)\<rparr>"

theorem await_reply_diverges_witness:
  "await_reply echo_udp ascii_idna sample_query local_server (from_secs 5) () = None"
proof (rule await_reply_diverges)
  obtain m' where m': "message_decode ascii_idna (message_bytes ascii_idna sample_query) = Some (Ok m')"
    and "message_same ascii_idna sample_query m'"
    using decode_message_bytes [OF sample_query_ok] by blast
  then have "h_qr (m_header m') = Query"
    by (simp add: message_same_def header_as_read_def message_full_header_def full_header_of_def to_header_def
        sample_query_def message_with_id_def header_with_id_def default_header_def)
  with m' show "chatter echo_udp ascii_idna sample_query local_server (from_secs 5) {()}"
    by (simp add: chatter_def echo_udp_def socket_recv_message_def outcome_simps)
qed simp

theorem query_names_first_success_witness:
  "query_names (lit ''a.b'') ((local_config 1)\<lparr>search := [lit ''c'']\<rparr>)
     (\<lambda>n s. if n = lit ''a.b'' then Some (Ok s, s) else Some (Err name_not_found, Suc s)) 0 = Some (Ok 1, 1)"
proof -
  have "use_search (lit ''a.b'') ((local_config 1)\<lparr>search := [lit ''c'']\<rparr>)"
    by (simp add: use_search_def lit_def ends_with_def starts_with_def local_config_def with_name_servers_def)
  from query_names_first_success [OF this, of "\<lambda>n s. if n = lit ''a.b'' then Some (Ok s, s) else Some (Err name_not_found, Suc s)" 0 1 1]
  show ?thesis
    by (simp, intro exI [of _ "[lit ''a.b.c'']"] exI [of _ "lit ''a.b''"] exI [of _ "[]"] exI [of _ 1])
      (simp add: lit_def)
qed

theorem query_names_few_dots_witness:
  "query_names (lit ''host'') (local_config 1) (\<lambda>n s. Some (Ok (s, n), s)) (7 :: nat) = Some (Ok (7, lit ''host''), 7)"
proof -
  have "length (filter (\<lambda>c. c = dot) (lit ''host'')) < unat (n_dots (local_config 1)) \<or> ends_with [dot] (lit ''host'')"
    by (simp add: lit_def local_config_def with_name_servers_def)
  then show ?thesis by (subst query_names_few_dots) simp_all
qed

text \<open>A host lookup: the IPv4 query is answered, the IPv6 query times out.\<close>

definition sample_answer :: resource where
  "sample_answer = (resource_new (lit ''usnet.de'') TyA Internet 60)\<lparr>r_data := [10, 0, 0, 1]\<rparr>"

definition host_query :: "u16 \<Rightarrow> record_type \<Rightarrow> message" where
  "host_query i ty =
     push_question \<lparr>m_header = (header_with_id i)\<lparr>h_recursion_desired := True\<rparr>, m_question = [],
       m_answer = [], m_authority = [], m_additional = []\<rparr> (question_for (lit ''usnet.de'') ty)"

lemma host_query_ok: "message_ok ascii_idna (host_query i ty)"
  using sample_query_ok
  by (simp add: message_ok_def host_query_def sample_query_def message_with_id_def push_question_def question_ok_def
      question_for_def question_new_def)

lemma host_reply_ok: "message_ok ascii_idna (reply_to (host_query i ty) [sample_answer])"
  using host_query_ok [of i ty]
  by (simp add: message_ok_def reply_to_def sample_answer_def resource_new_def resource_ok_def rdata_of_def
      host_query_def push_question_def question_for_def question_new_def question_ok_def)

lemma host_query_short: "length (message_bytes ascii_idna (host_query i ty)) \<le> MESSAGE_LIMIT"
  by (simp add: message_bytes_def host_query_def push_question_def question_for_def question_bytes_def name_bytes_def
      question_new_def name_labels_def label_bytes_def lit_def as_bytes_def utf8_char_def
      starts_with_def ends_with_def MESSAGE_LIMIT_def)

lemma sample_answer_records:
  assumes "message_same ascii_idna (reply_to (host_query i ty) [sample_answer]) m'"
  shows "answer_records a_record_type a_decode (m_answer m') = Some ([\<lparr>a_address = Ipv4Addr 10 0 0 1\<rparr>], Ok ())"
proof -
  from assms obtain rr where rr: "m_answer m' = [rr]" "resource_same ascii_idna sample_answer rr"
    by (auto simp: message_same_def reply_to_def list_all2_Cons1)
  then have ty: "r_type rr = TyA" and off: "r_offset rr \<le> length (r_data rr)"
    and "drop (r_offset rr) (r_data rr) = octets (Ipv4Addr 10 0 0 1)"
    by (auto simp: resource_same_def sample_answer_def resource_new_def rdata_of_def record_type_from_u16_def)
  then have "r_data rr = take (r_offset rr) (r_data rr) @ octets (Ipv4Addr 10 0 0 1)"
    by (metis append_take_drop_id)
  then have "read_rdata a_decode rr = Some (Ok \<lparr>a_address = Ipv4Addr 10 0 0 1\<rparr>)"
    using a_item.read_rdata_enc [where r = rr and pre = "take (r_offset rr) (r_data rr)" and
        x = "\<lparr>a_address = Ipv4Addr 10 0 0 1\<rparr>"] off
    by (simp del: octets.simps)
  with ty show ?thesis by (simp add: rr(1) a_record_type_def)
qed

lemma local_query:
  "query script_udp ascii_idna (lit ''usnet.de'') ty (local_resolver i 1 (x # s)) =
     (case await_reply script_udp ascii_idna (host_query i ty) local_server (from_secs 5) (x # s) of
        Some (Ok (Reply m), s') \<Rightarrow> Some (Ok m, local_resolver (i + 1) 1 s')
      | Some (Ok (Retry e), s') \<Rightarrow> Some (Err e, local_resolver (i + 1) 1 s')
      | Some (Err e, s') \<Rightarrow> Some (Err e, local_resolver (i + 1) 1 s')
      | Some (Panic, s') \<Rightarrow> Some (Panic, local_resolver (i + 1) 1 s')
      | None \<Rightarrow> None)"
proof -
  have "basic_message (local_resolver i 1 (x # s)) =
      Some (Ok \<lparr>m_header = (header_with_id i)\<lparr>h_recursion_desired := True\<rparr>, m_question = [],
       m_answer = [], m_authority = [], m_additional = []\<rparr>, local_resolver (i + 1) 1 (x # s))"
    by (simp add: basic_message_def message_new_def header_new_def generate_id_def header_with_id_def
        local_resolver_def with_sock_def)
  moreover have "push_question \<lparr>m_header = (header_with_id i)\<lparr>h_recursion_desired := True\<rparr>, m_question = [],
       m_answer = [], m_authority = [], m_additional = []\<rparr> (question_for (lit ''usnet.de'') ty) = host_query i ty"
    by (simp add: host_query_def)
  ultimately show ?thesis
    by (simp add: query_def send_message_def outcome_simps choose_server_eq local_resolver_ok on_sock_def
        script_send [OF host_query_ok host_query_short] pbind_def split: option.splits outcome.splits attempt.splits)
qed

theorem lookup_name_addresses_witness:
  "\<exists>ips r'. lookup_name script_udp ascii_idna (lit ''usnet.de'')
       (local_resolver 0 1 [Ok (message_bytes ascii_idna (reply_to (host_query 0 TyA) [sample_answer]), local_server),
          Err timed_out]) = Some (Ok ips, r') \<and> ips \<noteq> []"
proof -
  let ?d = "message_bytes ascii_idna (reply_to (host_query 0 TyA) [sample_answer])"
  let ?r = "local_resolver 0 1 [Ok (?d, local_server), Err timed_out]"
  obtain m' where m': "await_reply script_udp ascii_idna (host_query 0 TyA) local_server (from_secs 5)
      [Ok (?d, local_server), Err timed_out] = Some (Ok (Reply m'), [Err timed_out])"
    "message_same ascii_idna (reply_to (host_query 0 TyA) [sample_answer]) m'"
    using script_await_reply [OF host_reply_ok] by blast
  have "resolve_host_v4 script_udp ascii_idna (lit ''usnet.de'') ?r =
      Some ([\<lparr>a_address = Ipv4Addr 10 0 0 1\<rparr>], Ok (), local_resolver 1 1 [Err timed_out])"
    using m' sample_answer_records
    by (simp add: resolve_host_v4_def resolve_host_for_def local_query a_record_type_def)
  moreover have "resolve_host_v6 script_udp ascii_idna (lit ''usnet.de'') (local_resolver 1 1 [Err timed_out]) =
      Some ([], Err (IoError timed_out), local_resolver 2 1 [])"
    by (simp add: resolve_host_v6_def resolve_host_for_def local_query script_await_timeout)
  ultimately have run: "lookup_name script_udp ascii_idna (lit ''usnet.de'') ?r =
      Some (Ok [V4 (Ipv4Addr 10 0 0 1)], local_resolver 2 1 [])"
    by (simp add: lookup_name_def lookup_result_def)
  from lookup_name_addresses [OF run] run show ?thesis by blast
qed

end
