(* ===== verification/Transition.thy ===== *)
theory Transition
  imports Main
begin

text \<open>
  Labelled step relations and their runs, and two interfaces for them: an invariant that every
  step keeps, and a simulation of a detailed system by an abstract one that shows the same
  labels. What holds of all runs is proved here once.
\<close>

inductive lts_run :: "('c \<Rightarrow> 'e \<Rightarrow> 'c \<Rightarrow> bool) \<Rightarrow> 'c \<Rightarrow> 'e list \<Rightarrow> 'c \<Rightarrow> bool"
  for step :: "'c \<Rightarrow> 'e \<Rightarrow> 'c \<Rightarrow> bool" where
  lts_nil: "lts_run step s [] s"
| lts_snoc: "lts_run step s tr s' \<Longrightarrow> step s' e s'' \<Longrightarrow> lts_run step s (tr @ [e]) s''"

inductive_cases lts_snocE: "lts_run step s (tr @ [e]) s''"

lemma lts_prefix:
  assumes "lts_run step s (before @ e # after) y"
  obtains s' s'' where "lts_run step s before s'" and "step s' e s''"
  using assms
proof (induction after arbitrary: y thesis rule: rev_induct)
  case Nil
  from Nil.prems(2) show ?case by (auto elim: lts_snocE intro: Nil.prems(1))
next
  case (snoc a after)
  from snoc.prems(2) have "lts_run step s ((before @ e # after) @ [a]) y" by simp
  then obtain y' where "lts_run step s (before @ e # after) y'" by (rule lts_snocE)
  from snoc.IH [OF _ this] snoc.prems(1) show ?case by blast
qed

locale invariant_system =
  fixes step :: "'c \<Rightarrow> 'e \<Rightarrow> 'c \<Rightarrow> bool"
    and inv :: "'c \<Rightarrow> bool"
  assumes inv_step: "step s e s' \<Longrightarrow> inv s \<Longrightarrow> inv s'"
begin

lemma inv_run: "lts_run step s tr s' \<Longrightarrow> inv s \<Longrightarrow> inv s'"
  by (induction rule: lts_run.induct) (auto intro: inv_step)

end

text \<open>Every step is a step of the abstract system with the same label.\<close>

locale simulation = invariant_system step inv
  for step :: "'c \<Rightarrow> 'e \<Rightarrow> 'c \<Rightarrow> bool" and inv :: "'c \<Rightarrow> bool" +
  fixes astep :: "'a \<Rightarrow> 'e \<Rightarrow> 'a \<Rightarrow> bool"
    and abs :: "'c \<Rightarrow> 'a"
  assumes sim_step: "step s e s' \<Longrightarrow> inv s \<Longrightarrow> astep (abs s) e (abs s')"
begin

lemma sim_run: "lts_run step s tr s' \<Longrightarrow> inv s \<Longrightarrow> lts_run astep (abs s) tr (abs s')"
proof (induction rule: lts_run.induct)
  case (lts_snoc s tr s' e s'')
  then have "inv s'" by (blast intro: inv_run)
  with lts_snoc show ?case by (blast intro: lts_run.lts_snoc sim_step)
qed (rule lts_run.lts_nil)

text \<open>So whatever the abstract system guarantees of its runs holds of the traces of the detailed one.\<close>

lemma sim_prefix:
  assumes "lts_run step s (before @ e # after) y" and "inv s"
  obtains a a' where "lts_run astep (abs s) before a" and "astep a e a'"
  using lts_prefix [OF sim_run [OF assms]] by blast

end

end
