(* ===== verification/StcpNet.thy ===== *)
theory StcpNet
  imports Io Transition "HOL-Library.Multiset"
begin

text \<open>
  The shared state of the multithreaded API, \<^verbatim>\<open>StcpNet\<close> of
  \<^verbatim>\<open>apimultithread.rs\<close>, and its background thread \<^verbatim>\<open>bg\<close>. The thread
  alternates between two critical sections and a \<^verbatim>\<open>poll\<close> call between them; clients
  wake it through a datagram socket or, when it is known to be awake, through the flag
  \<open>bg_skip_one_wait\<close>. The interleaving of the thread with its clients is a step relation;
  its invariant says that no submitted work is slept on.

  The TCP/IP stack (the crate \<^verbatim>\<open>smoltcp\<close> with the network device) is a state
  \<open>'s\<close> with a record of operations.
\<close>

subsection \<open>The shared state\<close>

datatype skip = SkWait | SkSkippable | SkSkip

type_synonym raw_fd = int

text \<open>
  \<open>net_notify\<close> counts the datagrams waiting at \<^verbatim>\<open>notify_poll_listener\<close>; the socket
  pair holds a limited number of them.
\<close>

record 's stcp_net =
  net_stack :: 's
  net_fd :: raw_fd
  net_waiting_poll :: bool
  net_notify_fd :: raw_fd
  net_notify :: nat
  net_fds_add :: "raw_fd list"
  net_fds_remove :: "raw_fd list"
  net_skip :: skip
  net_backlog :: nat
  net_wait_delay :: int
  net_buffer_size :: nat
  net_pin_cpu :: "nat option"
  net_port_range :: "u16 \<times> u16"

text \<open>The part of the stack that the thread drives: \<open>poll\<close> and \<open>poll_delay\<close> (in milliseconds).\<close>

record 's stack_poll =
  sp_poll :: "'s \<Rightarrow> (bool, ustr) outcome \<times> 's"
  sp_poll_delay :: "'s \<Rightarrow> nat option"

definition net_poll :: "'s stack_poll \<Rightarrow> 's stcp_net \<Rightarrow> bool \<times> 's stcp_net" where
  "net_poll S net =
     (case sp_poll S (net_stack net) of
        (Ok r, s) \<Rightarrow> (r, net\<lparr>net_stack := s\<rparr>)
      | (_, s) \<Rightarrow> (True, net\<lparr>net_stack := s\<rparr>))"

text \<open>
  \<^verbatim>\<open>StcpNet::new\<close>, with what the backend and the system contribute as arguments.
\<close>

definition net_new ::
  "raw_fd \<Rightarrow> 's \<Rightarrow> raw_fd \<Rightarrow> u16 \<times> u16 \<Rightarrow> bool \<Rightarrow> nat \<Rightarrow> nat option \<Rightarrow> nat \<Rightarrow> 's stcp_net" where
  "net_new fd stack listener_fd ports waiting_poll buffer_size pin_cpu backlog =
     \<lparr>net_stack = stack, net_fd = fd, net_waiting_poll = waiting_poll,
      net_notify_fd = listener_fd, net_notify = 0, net_fds_add = [], net_fds_remove = [],
      net_skip = SkWait, net_backlog = backlog, net_wait_delay = -1,
      net_buffer_size = buffer_size, net_pin_cpu = pin_cpu, net_port_range = ports\<rparr>"

subsection \<open>Waking the thread\<close>

text \<open>
  \<^verbatim>\<open>notify_poll.send(b"$").unwrap()\<close>: the socket does not block, so a full queue is an
  error and the \<^verbatim>\<open>unwrap\<close> a panic. \<open>cap\<close> is the length of the queue.
\<close>

definition notify_send :: "nat \<Rightarrow> ('s stcp_net, 'e, unit) prog" where
  "notify_send cap net =
     (if net_notify net < cap then Some (Ok (), net\<lparr>net_notify := net_notify net + 1\<rparr>)
      else Some (Panic, net))"

text \<open>After submitting work (\<^verbatim>\<open>connect\<close>, \<^verbatim>\<open>write\<close>, \<^verbatim>\<open>send_to\<close>).\<close>

definition wake_bg :: "nat \<Rightarrow> ('s stcp_net, 'e, unit) prog" where
  "wake_bg cap net =
     (if net_skip net = SkWait then notify_send cap net
      else Some (Ok (), net\<lparr>net_skip := SkSkip\<rparr>))"

text \<open>After taking data out (\<^verbatim>\<open>read\<close>): only a thread that would sleep long is woken.\<close>

definition wake_bg_read :: "nat \<Rightarrow> ('s stcp_net, 'e, unit) prog" where
  "wake_bg_read cap net =
     (if net_skip net = SkWait \<and> (net_wait_delay net = -1 \<or> net_wait_delay net > 10)
      then notify_send cap net else Some (Ok (), net))"

subsection \<open>The background thread\<close>

text \<open>The variables that live across turns of the loop.\<close>

record bg_local =
  bg_fds :: "raw_fd list"
  bg_fds_extra :: "raw_fd list"
  bg_waiting_poll :: bool
  bg_skip :: bool

definition bg_start :: bg_local where
  "bg_start = \<lparr>bg_fds = [], bg_fds_extra = [], bg_waiting_poll = False, bg_skip = False\<rparr>"

text \<open>\<^verbatim>\<open>as c_int\<close> keeps the low 32 bits as a signed number.\<close>

definition to_c_int :: "nat \<Rightarrow> int" where
  "to_c_int n = sint (word_of_nat n :: 32 word)"

text \<open>
  The removal loop; \<^verbatim>\<open>position(..).unwrap()\<close> panics on a descriptor that is not there.
\<close>

fun remove_fds :: "raw_fd list \<Rightarrow> raw_fd list \<Rightarrow> raw_fd list option" where
  "remove_fds [] extra = Some extra"
| "remove_fds (fd # fds) extra =
     (if fd \<in> set extra then remove_fds fds (remove1 fd extra) else None)"

text \<open>The first critical section: the outcome is the timeout for \<^verbatim>\<open>poll\<close>.\<close>

definition bg_prepare ::
  "'s stack_poll \<Rightarrow> 's stcp_net \<Rightarrow> bg_local \<Rightarrow> (int \<times> 's stcp_net \<times> bg_local) option" where
  "bg_prepare S net b =
     (let skip = (net_skip net = SkSkip);
          b = b\<lparr>bg_waiting_poll := net_waiting_poll net, bg_skip := skip\<rparr>;
          net = (if skip then net else net\<lparr>net_skip := SkWait\<rparr>);
          (b, net) = (if net_fds_add net \<noteq> []
                      then (b\<lparr>bg_fds_extra := bg_fds_extra b @ net_fds_add net, bg_fds := []\<rparr>,
                            net\<lparr>net_fds_add := []\<rparr>)
                      else (b, net))
      in case remove_fds (net_fds_remove net) (bg_fds_extra b) of
           None \<Rightarrow> None
         | Some extra \<Rightarrow>
             let (b, net) = (if net_fds_remove net \<noteq> []
                             then (b\<lparr>bg_fds_extra := extra, bg_fds := []\<rparr>, net\<lparr>net_fds_remove := []\<rparr>)
                             else (b, net));
                 b = (if bg_fds b = []
                      then b\<lparr>bg_fds := net_fd net # net_notify_fd net # bg_fds_extra b\<rparr> else b);
                 delay = (case sp_poll_delay S (net_stack net) of
                            Some ms \<Rightarrow> to_c_int ms | None \<Rightarrow> -1)
             in Some (delay, net\<lparr>net_wait_delay := delay\<rparr>, b))"

definition bg_blocks :: "bg_local \<Rightarrow> bool" where
  "bg_blocks b \<longleftrightarrow> bg_waiting_poll b \<and> \<not> bg_skip b"

text \<open>The second critical section: notifications are drained, the stack runs, clients are woken.\<close>

definition bg_finish :: "'s stack_poll \<Rightarrow> 's stcp_net \<Rightarrow> 's stcp_net" where
  "bg_finish S net =
     (case net_poll S (net\<lparr>net_notify := 0\<rparr>) of
        (_, net') \<Rightarrow> net'\<lparr>net_skip := SkSkippable\<rparr>)"

subsection \<open>The thread and its clients\<close>

datatype bg_phase = AtTop | AtPoll int | Dead

text \<open>\<open>sy_pending\<close> is a history variable: work was submitted since the stack last ran.\<close>

record 's bg_system =
  sy_net :: "'s stcp_net"
  sy_bg :: bg_local
  sy_phase :: bg_phase
  sy_pending :: bool

text \<open>What a step shows: the descriptor a client registers or removes, the descriptors the thread
  hands to \<^verbatim>\<open>poll\<close>, its end by a panic, and which of the remaining steps it is.\<close>

datatype bg_event =
  Registered raw_fd | Removed raw_fd | Polls "raw_fd list" | Died | StackRun | Submitted | TakenOut | Changed

text \<open>
  \<^verbatim>\<open>poll\<close> between the sections may return at any time, because a descriptor became ready
  or the timeout passed; when it must return is a matter of the invariant below. A client changes
  the stack and wakes the thread (\<open>submit\<close>, \<open>take_out\<close>), queues a descriptor, or changes the stack
  without waking (\<open>quiet\<close>: \<^verbatim>\<open>shutdown\<close>, the drop of a stream, the new listening socket of
  \<^verbatim>\<open>accept\<close>).
\<close>

inductive bg_step :: "'s stack_poll \<Rightarrow> nat \<Rightarrow> 's bg_system \<Rightarrow> bg_event \<Rightarrow> 's bg_system \<Rightarrow> bool"
  for S :: "'s stack_poll" and cap :: nat where
  prepare: "sy_phase y = AtTop \<Longrightarrow> bg_prepare S (sy_net y) (sy_bg y) = Some (delay, net', b') \<Longrightarrow>
    bg_step S cap y (Polls (bg_fds b')) (y\<lparr>sy_net := net', sy_bg := b', sy_phase := AtPoll delay\<rparr>)"
| die: "sy_phase y = AtTop \<Longrightarrow> bg_prepare S (sy_net y) (sy_bg y) = None \<Longrightarrow>
    bg_step S cap y Died (y\<lparr>sy_phase := Dead\<rparr>)"
| finish: "sy_phase y = AtPoll delay \<Longrightarrow>
    bg_step S cap y StackRun (y\<lparr>sy_net := bg_finish S (sy_net y), sy_phase := AtTop, sy_pending := False\<rparr>)"
| submit: "wake_bg cap ((sy_net y)\<lparr>net_stack := s'\<rparr>) = Some (Ok () :: (unit, unit) outcome, net') \<Longrightarrow>
    bg_step S cap y Submitted (y\<lparr>sy_net := net', sy_pending := True\<rparr>)"
| take_out: "wake_bg_read cap ((sy_net y)\<lparr>net_stack := s'\<rparr>) = Some (Ok () :: (unit, unit) outcome, net') \<Longrightarrow>
    bg_step S cap y TakenOut (y\<lparr>sy_net := net'\<rparr>)"
| add_fd: "bg_step S cap y (Registered fd)
    (y\<lparr>sy_net := (sy_net y)\<lparr>net_stack := s', net_fds_add := net_fds_add (sy_net y) @ [fd]\<rparr>\<rparr>)"
| remove_fd: "bg_step S cap y (Removed fd)
    (y\<lparr>sy_net := (sy_net y)\<lparr>net_stack := s', net_fds_remove := net_fds_remove (sy_net y) @ [fd]\<rparr>\<rparr>)"
| quiet: "bg_step S cap y Changed (y\<lparr>sy_net := (sy_net y)\<lparr>net_stack := s'\<rparr>\<rparr>)"

inductive bg_reach :: "'s stack_poll \<Rightarrow> nat \<Rightarrow> 's bg_system \<Rightarrow> 's bg_system \<Rightarrow> bool"
  for S :: "'s stack_poll" and cap :: nat where
  reach_refl: "bg_reach S cap y y"
| reach_step: "bg_reach S cap y y' \<Longrightarrow> bg_step S cap y' e y'' \<Longrightarrow> bg_reach S cap y y''"

definition bg_initial :: "'s stcp_net \<Rightarrow> 's bg_system" where
  "bg_initial net = \<lparr>sy_net = net, sy_bg = bg_start, sy_phase = AtTop, sy_pending = False\<rparr>"

subsection \<open>No work is slept on\<close>

definition wake_inv :: "'s bg_system \<Rightarrow> bool" where
  "wake_inv y \<longleftrightarrow>
     (case sy_phase y of
        AtTop \<Rightarrow> sy_pending y \<longrightarrow> 0 < net_notify (sy_net y) \<or> net_skip (sy_net y) = SkSkip
      | AtPoll delay \<Rightarrow>
          (bg_blocks (sy_bg y) \<longrightarrow> net_skip (sy_net y) = SkWait) \<and>
          (sy_pending y \<longrightarrow> bg_blocks (sy_bg y) \<longrightarrow> 0 < net_notify (sy_net y))
      | Dead \<Rightarrow> True)"

text \<open>The first section in closed form.\<close>

definition bg_delay :: "'s stack_poll \<Rightarrow> 's stcp_net \<Rightarrow> int" where
  "bg_delay S net = (case sp_poll_delay S (net_stack net) of Some ms \<Rightarrow> to_c_int ms | None \<Rightarrow> -1)"

lemma bg_prepare_eq:
  fixes b :: bg_local and net :: "'s stcp_net"
  shows "bg_prepare S net b =
    (case remove_fds (net_fds_remove net) (bg_fds_extra b @ net_fds_add net) of
       None \<Rightarrow> None
     | Some extra \<Rightarrow>
         Some (bg_delay S net,
           net\<lparr>net_skip := (if net_skip net = SkSkip then SkSkip else SkWait), net_fds_add := [],
               net_fds_remove := [], net_wait_delay := bg_delay S net\<rparr>,
           \<lparr>bg_fds = (if net_fds_add net = [] \<and> net_fds_remove net = [] \<and> bg_fds b \<noteq> [] then bg_fds b
                      else net_fd net # net_notify_fd net # extra),
            bg_fds_extra = extra, bg_waiting_poll = net_waiting_poll net,
            bg_skip = (net_skip net = SkSkip)\<rparr>))"
  by (cases net; cases b; cases "net_fds_add net"; cases "net_fds_remove net"; cases "net_skip net = SkSkip")
    (simp_all add: bg_prepare_def bg_delay_def Let_def split: option.splits)

lemma bg_prepare_Some:
  assumes "bg_prepare S net b = Some (delay, net', b')"
  shows "net_notify net' = net_notify net" "bg_skip b' \<longleftrightarrow> net_skip net = SkSkip"
    "net_skip net' = (if net_skip net = SkSkip then SkSkip else SkWait)"
    "net_fd net' = net_fd net" "net_notify_fd net' = net_notify_fd net"
  using assms by (auto simp: bg_prepare_eq split: option.splits)

lemma wake_bg_Ok:
  assumes "wake_bg cap net = Some (Ok (), net')"
  shows "net' = (if net_skip net = SkWait then net\<lparr>net_notify := net_notify net + 1\<rparr>
                 else net\<lparr>net_skip := SkSkip\<rparr>)"
  using assms by (auto simp: wake_bg_def notify_send_def split: if_splits)

lemma wake_bg_read_Ok:
  assumes "wake_bg_read cap net = Some (Ok (), net')"
  shows "net' = net \<or> net' = net\<lparr>net_notify := net_notify net + 1\<rparr>"
  using assms by (auto simp: wake_bg_read_def notify_send_def split: if_splits)

lemma wake_inv_step: "bg_step S cap y e y' \<Longrightarrow> wake_inv y \<Longrightarrow> wake_inv y'"
proof (induction rule: bg_step.induct)
  case (prepare y delay net' b')
  then show ?case by (auto simp: wake_inv_def bg_blocks_def bg_prepare_Some)
next
  case (submit s' y net')
  then show ?case by (auto simp: wake_inv_def dest!: wake_bg_Ok split: bg_phase.splits if_splits)
next
  case (take_out s' y net')
  then show ?case by (auto simp: wake_inv_def dest!: wake_bg_read_Ok split: bg_phase.splits)
qed (auto simp: wake_inv_def split: bg_phase.splits)

interpretation wake: invariant_system "bg_step S cap" wake_inv for S :: "'s stack_poll" and cap
  by unfold_locales (rule wake_inv_step)

lemma bg_reach_run: "bg_reach S cap y y' \<Longrightarrow> \<exists>tr. lts_run (bg_step S cap) y tr y'"
  by (induction rule: bg_reach.induct) (auto intro: lts_run.intros)

lemma wake_inv_reach: "bg_reach S cap y y' \<Longrightarrow> wake_inv y \<Longrightarrow> wake_inv y'"
  using bg_reach_run wake.inv_run by blast

lemma wake_inv_initial: "wake_inv (bg_initial net)"
  by (simp add: wake_inv_def bg_initial_def)

subsection \<open>Descriptors\<close>

lemma remove_fds_Some_iff:
  "remove_fds rs ex = Some ex' \<Longrightarrow> mset rs \<subseteq># mset ex \<and> mset ex' = mset ex - mset rs"
proof (induction rs arbitrary: ex)
  case (Cons r rs)
  then have r: "r \<in> set ex" and rest: "remove_fds rs (remove1 r ex) = Some ex'"
    by (auto split: if_splits)
  from Cons.IH [OF rest] r show ?case by (simp add: insert_subset_eq_iff)
qed simp

lemma remove_fds_defined: "mset rs \<subseteq># mset ex \<Longrightarrow> remove_fds rs ex \<noteq> None"
proof (induction rs arbitrary: ex)
  case (Cons r rs)
  then have "r \<in> set ex" by (metis insert_subset_eq_iff mset.simps(2) set_mset_mset)
  moreover have "mset rs \<subseteq># mset (remove1 r ex)"
    using Cons.prems by (simp add: insert_subset_eq_iff)
  ultimately show ?case using Cons.IH by simp
qed simp

lemma remove_fds_None: "\<not> mset rs \<subseteq># mset ex \<Longrightarrow> remove_fds rs ex = None"
  using remove_fds_Some_iff by (cases "remove_fds rs ex") auto

lemma bg_prepare_None_iff:
  fixes b :: bg_local and net :: "'s stcp_net"
  shows "bg_prepare S net b = None \<longleftrightarrow>
     \<not> mset (net_fds_remove net) \<subseteq># mset (bg_fds_extra b @ net_fds_add net)"
proof (cases "mset (net_fds_remove net) \<subseteq># mset (bg_fds_extra b @ net_fds_add net)")
  case True
  from remove_fds_defined [OF this] True show ?thesis
    by (auto simp: bg_prepare_eq simp del: mset_append)
next
  case False
  from remove_fds_None [OF this] False show ?thesis
    by (simp add: bg_prepare_eq del: mset_append)
qed

text \<open>
  After the first section the descriptors handed to \<^verbatim>\<open>poll\<close> are the network device, the
  notification socket and the descriptors of the sockets in use.
\<close>

definition fds_inv :: "'s stcp_net \<Rightarrow> bg_local \<Rightarrow> bool" where
  "fds_inv net b \<longleftrightarrow> bg_fds b = [] \<or> bg_fds b = net_fd net # net_notify_fd net # bg_fds_extra b"

lemma bg_prepare_fds:
  assumes "bg_prepare S net b = Some (delay, net', b')" and "fds_inv net b"
  shows "bg_fds b' = net_fd net' # net_notify_fd net' # bg_fds_extra b' \<and>
    mset (bg_fds_extra b') = mset (bg_fds_extra b) + mset (net_fds_add net) - mset (net_fds_remove net)"
proof -
  from assms(1) obtain extra where
    extra: "remove_fds (net_fds_remove net) (bg_fds_extra b @ net_fds_add net) = Some extra"
    by (cases "remove_fds (net_fds_remove net) (bg_fds_extra b @ net_fds_add net)") (simp_all add: bg_prepare_eq)
  have "bg_fds_extra b' = extra" "bg_fds b' = net_fd net' # net_notify_fd net' # extra"
    using assms extra by (auto simp: bg_prepare_eq fds_inv_def split: if_splits)
  then show ?thesis using remove_fds_Some_iff [OF extra] by simp
qed

subsection \<open>Properties\<close>

text \<open>C4: No lost wake-up: in every state the thread and its clients can reach from a fresh
  \<open>StcpNet\<close>, if work was submitted since the stack last ran and the thread is about to block in
  \<open>poll\<close>, a notification is waiting, so that \<open>poll\<close> returns at once.\<close>

theorem no_lost_wakeup:
  assumes "bg_reach S cap (bg_initial net) y"
    and "sy_phase y = AtPoll delay" and "bg_blocks (sy_bg y)" and "sy_pending y"
  shows "0 < net_notify (sy_net y)"
  using wake_inv_reach [OF assms(1) wake_inv_initial] assms(2-4) by (simp add: wake_inv_def)

text \<open>The thread panics in its first critical section exactly when a descriptor is to be removed
  that was not registered (as often as it is removed).\<close>

theorem bg_panics_iff:
  "bg_prepare S net b = None \<longleftrightarrow>
     \<not> mset (net_fds_remove net) \<subseteq># mset (bg_fds_extra b @ net_fds_add net)"
  by (rule bg_prepare_None_iff)

text \<open>Otherwise the thread polls the network device, the notification socket and exactly the
  registered descriptors less the removed ones.\<close>

theorem bg_polls_registered:
  assumes "bg_prepare S net b = Some (delay, net', b')" and "fds_inv net b"
  shows "\<exists>extra. bg_fds b' = net_fd net' # net_notify_fd net' # extra \<and>
    mset extra = mset (bg_fds_extra b) + mset (net_fds_add net) - mset (net_fds_remove net)"
  using bg_prepare_fds [OF assms] by blast

text \<open>Waking the thread panics once its notification queue is full: \<open>cap\<close> writes while the thread
  sleeps are queued, the next one panics.\<close>

theorem wake_bg_overflow:
  assumes "net_skip net = SkWait"
  shows "wake_bg cap (net\<lparr>net_notify := n\<rparr>) =
    (if n < cap then Some (Ok (), net\<lparr>net_notify := n + 1\<rparr>) else Some (Panic, net\<lparr>net_notify := n\<rparr>))"
  using assms by (simp add: wake_bg_def notify_send_def)

subsection \<open>Runs\<close>

definition idle_stack :: "unit stack_poll" where
  "idle_stack = \<lparr>sp_poll = \<lambda>s. (Ok False, s), sp_poll_delay = \<lambda>s. None\<rparr>"

definition idle_net :: "unit stcp_net" where
  "idle_net = net_new 3 () 4 (32768, 60999) True 500000 None 32"

text \<open>The thread goes to sleep, then a client submits work.\<close>

definition asleep :: "unit bg_system" where
  "asleep =
     \<lparr>sy_net = idle_net, sy_bg = \<lparr>bg_fds = [3, 4], bg_fds_extra = [], bg_waiting_poll = True, bg_skip = False\<rparr>,
      sy_phase = AtPoll (-1), sy_pending = False\<rparr>"

lemma asleep_reachable: "bg_reach idle_stack cap (bg_initial idle_net) asleep"
proof -
  have "bg_prepare idle_stack idle_net bg_start =
      Some (-1, idle_net, \<lparr>bg_fds = [3, 4], bg_fds_extra = [], bg_waiting_poll = True, bg_skip = False\<rparr>)"
    by (simp add: bg_prepare_def idle_stack_def idle_net_def net_new_def bg_start_def Let_def)
  then have "bg_step idle_stack cap (bg_initial idle_net) (Polls [3, 4])
      ((bg_initial idle_net)\<lparr>sy_net := idle_net, sy_bg := \<lparr>bg_fds = [3, 4], bg_fds_extra = [], bg_waiting_poll = True, bg_skip = False\<rparr>,
         sy_phase := AtPoll (-1)\<rparr>)"
    using bg_step.prepare [of "bg_initial idle_net" idle_stack] by (simp add: bg_initial_def)
  then show ?thesis
    by (simp add: asleep_def bg_initial_def) (blast intro: bg_reach.intros)
qed

theorem no_lost_wakeup_witness:
  "bg_reach idle_stack 10 (bg_initial idle_net)
     (asleep\<lparr>sy_net := idle_net\<lparr>net_notify := 1\<rparr>, sy_pending := True\<rparr>) \<and>
   0 < net_notify (sy_net (asleep\<lparr>sy_net := idle_net\<lparr>net_notify := 1\<rparr>, sy_pending := True\<rparr>))"
proof -
  have "bg_step idle_stack 10 asleep Submitted (asleep\<lparr>sy_net := idle_net\<lparr>net_notify := 1\<rparr>, sy_pending := True\<rparr>)"
    by (rule bg_step.submit [where s' = "()"])
      (simp add: asleep_def idle_net_def net_new_def wake_bg_def notify_send_def)
  with asleep_reachable have "bg_reach idle_stack 10 (bg_initial idle_net)
      (asleep\<lparr>sy_net := idle_net\<lparr>net_notify := 1\<rparr>, sy_pending := True\<rparr>)"
    by (rule bg_reach.reach_step)
  moreover from this have "0 < net_notify (sy_net (asleep\<lparr>sy_net := idle_net\<lparr>net_notify := 1\<rparr>, sy_pending := True\<rparr>))"
    by (rule no_lost_wakeup [where delay = "-1"]) (simp_all add: asleep_def bg_blocks_def)
  ultimately show ?thesis ..
qed

theorem bg_polls_registered_witness:
  "\<exists>delay net' b' extra. bg_prepare idle_stack (idle_net\<lparr>net_fds_add := [7, 8], net_fds_remove := [7]\<rparr>) bg_start =
       Some (delay, net', b') \<and> bg_fds b' = 3 # 4 # extra \<and> mset extra = {#8#}"
proof -
  let ?net = "idle_net\<lparr>net_fds_add := [7, 8], net_fds_remove := [7]\<rparr>"
  have "bg_prepare idle_stack ?net bg_start \<noteq> None"
    by (simp add: bg_prepare_None_iff bg_start_def)
  then obtain delay net' b' where run: "bg_prepare idle_stack ?net bg_start = Some (delay, net', b')"
    by auto
  moreover have "net_fd net' = 3" "net_notify_fd net' = 4"
    using bg_prepare_Some(4,5) [OF run] by (simp_all add: idle_net_def net_new_def)
  ultimately show ?thesis
    using bg_polls_registered [OF run] by (simp add: fds_inv_def bg_start_def)
qed

theorem wake_bg_overflow_witness:
  "wake_bg 10 (idle_net\<lparr>net_notify := 10\<rparr>) = Some (Panic :: (unit, unit) outcome, idle_net\<lparr>net_notify := 10\<rparr>)"
  using wake_bg_overflow [of idle_net 10 10] by (simp add: idle_net_def net_new_def)

text \<open>Registering a descriptor does not wake the thread: a state is reachable in which the loopback
  socket of a new listener is registered, yet the thread sleeps without a timeout and without that
  descriptor, and no notification is on its way.\<close>

theorem bind_does_not_wake:
  "\<exists>y. bg_reach idle_stack cap (bg_initial idle_net) y \<and> sy_phase y = AtPoll (-1) \<and> bg_blocks (sy_bg y) \<and>
     net_fds_add (sy_net y) = [9] \<and> 9 \<notin> set (bg_fds (sy_bg y)) \<and> net_notify (sy_net y) = 0"
proof -
  let ?y = "asleep\<lparr>sy_net := (sy_net asleep)\<lparr>net_stack := (), net_fds_add := net_fds_add (sy_net asleep) @ [9]\<rparr>\<rparr>"
  have "bg_reach idle_stack cap (bg_initial idle_net) ?y"
    using asleep_reachable bg_step.add_fd by (rule bg_reach.reach_step)
  then show ?thesis
    by (intro exI [of _ ?y]) (simp add: asleep_def bg_blocks_def idle_net_def net_new_def)
qed

end
