(* ===== verification/Api.thy ===== *)
theory Api
  imports StcpNet Address
begin

text \<open>
  What the socket types of \<^verbatim>\<open>apimultithread.rs\<close> share: the operations of the TCP/IP
  stack on its sockets, the settings that clones of a socket have in common, the clock, and
  the condition variable on which blocking calls wait for the background thread.
\<close>

subsection \<open>The stack's sockets\<close>

type_synonym handle = nat

text \<open>\<^verbatim>\<open>smoltcp::wire::IpAddress\<close>; the last constructor is its hidden non-exhaustive one.\<close>

datatype ip_address = AddrUnspecified | AddrV4 ipv4_addr | AddrV6 ipv6_addr | AddrHidden

record ip_endpoint =
  ep_addr :: ip_address
  ep_port :: u16

definition ip_address_from :: "ip_addr \<Rightarrow> ip_address" where
  "ip_address_from a = (case a of V4 x \<Rightarrow> AddrV4 x | V6 x \<Rightarrow> AddrV6 x)"

definition endpoint_to_socket_addr :: "ip_endpoint \<Rightarrow> (socket_addr, 'e) outcome" where
  "endpoint_to_socket_addr ep =
     (case ep_addr ep of
        AddrV4 v \<Rightarrow> Ok (socket_addr_new (V4 v) (ep_port ep))
      | AddrV6 v \<Rightarrow> Ok (socket_addr_new (V6 v) (ep_port ep))
      | AddrUnspecified \<Rightarrow> Ok (socket_addr_new (V4 (Ipv4Addr 0 0 0 0)) (ep_port ep))
      | AddrHidden \<Rightarrow> Panic)"

text \<open>
  TCP sockets of the stack. Sending and receiving return what was transferred or an error
  text; \<open>release\<close>, \<open>retain\<close> and \<open>prune\<close> maintain the reference counts of the socket set.
\<close>

record 's tcp_ops =
  tcp_new :: "nat \<Rightarrow> nat \<Rightarrow> 's \<Rightarrow> handle \<times> 's"
    \<comment> \<open>sizes of the two buffers\<close>
  tcp_listen :: "handle \<Rightarrow> u16 \<Rightarrow> 's \<Rightarrow> (unit, ustr) outcome \<times> 's"
  tcp_connect :: "handle \<Rightarrow> socket_addr \<Rightarrow> u16 \<Rightarrow> 's \<Rightarrow> (unit, ustr) outcome \<times> 's"
  tcp_is_active :: "handle \<Rightarrow> 's \<Rightarrow> bool"
  tcp_may_recv :: "handle \<Rightarrow> 's \<Rightarrow> bool"
  tcp_may_send :: "handle \<Rightarrow> 's \<Rightarrow> bool"
  tcp_can_recv :: "handle \<Rightarrow> 's \<Rightarrow> bool"
  tcp_can_send :: "handle \<Rightarrow> 's \<Rightarrow> bool"
  tcp_recv_slice :: "handle \<Rightarrow> nat \<Rightarrow> 's \<Rightarrow> (bytes, ustr) outcome \<times> 's"
  tcp_peek_slice :: "handle \<Rightarrow> nat \<Rightarrow> 's \<Rightarrow> (bytes, ustr) outcome \<times> 's"
  tcp_send_slice :: "handle \<Rightarrow> bytes \<Rightarrow> 's \<Rightarrow> (nat, ustr) outcome \<times> 's"
  tcp_set_hop_limit :: "handle \<Rightarrow> u8 option \<Rightarrow> 's \<Rightarrow> 's"
  tcp_hop_limit :: "handle \<Rightarrow> 's \<Rightarrow> u8 option"
  tcp_local_endpoint :: "handle \<Rightarrow> 's \<Rightarrow> ip_endpoint"
  tcp_remote_endpoint :: "handle \<Rightarrow> 's \<Rightarrow> ip_endpoint"
  ep_is_specified :: "ip_endpoint \<Rightarrow> bool"
    \<comment> \<open>\<^verbatim>\<open>IpEndpoint::is_specified\<close>\<close>
  tcp_close :: "handle \<Rightarrow> 's \<Rightarrow> 's"
  tcp_abort :: "handle \<Rightarrow> 's \<Rightarrow> 's"
  set_release :: "handle \<Rightarrow> 's \<Rightarrow> 's"
  set_retain :: "handle \<Rightarrow> 's \<Rightarrow> 's"
  set_prune :: "'s \<Rightarrow> 's"

definition create_socket :: "'s tcp_ops \<Rightarrow> 's stcp_net \<Rightarrow> handle \<times> 's stcp_net" where
  "create_socket T net =
     (case tcp_new T (net_buffer_size net) (net_buffer_size net) (net_stack net) of
        (h, s) \<Rightarrow> (h, net\<lparr>net_stack := s\<rparr>))"

text \<open>
  What is documented of the socket set: \<open>live s\<close> are the handles in use and \<open>port_of s h\<close> the port
  that socket \<open>h\<close> listens on. Adding a socket gives a handle that was not in use and leaves the other
  sockets alone; \<^verbatim>\<open>listen\<close>, when it succeeds, makes this socket listen on the port; the hop
  limit has nothing to do with either.
\<close>

definition socket_laws :: "'s tcp_ops \<Rightarrow> ('s \<Rightarrow> handle set) \<Rightarrow> ('s \<Rightarrow> handle \<Rightarrow> u16 option) \<Rightarrow> bool" where
  "socket_laws T live port_of \<longleftrightarrow>
     (\<forall>rx tx s h s'. tcp_new T rx tx s = (h, s') \<longrightarrow>
        h \<notin> live s \<and> live s' = insert h (live s) \<and> (\<forall>k \<in> live s. port_of s' k = port_of s k)) \<and>
     (\<forall>h p s s'. h \<in> live s \<longrightarrow> tcp_listen T h p s = (Ok (), s') \<longrightarrow>
        live s' = live s \<and> port_of s' h = Some p \<and> (\<forall>k. k \<noteq> h \<longrightarrow> port_of s' k = port_of s k)) \<and>
     (\<forall>h t s. live (tcp_set_hop_limit T h t s) = live s \<and> port_of (tcp_set_hop_limit T h t s) = port_of s)"

lemma create_socket_laws:
  assumes "socket_laws T live port_of" and "create_socket T net = (h, net1)"
  shows "h \<notin> live (net_stack net)" "live (net_stack net1) = insert h (live (net_stack net))"
    "\<And>k. k \<in> live (net_stack net) \<Longrightarrow> port_of (net_stack net1) k = port_of (net_stack net) k"
proof -
  obtain s where "tcp_new T (net_buffer_size net) (net_buffer_size net) (net_stack net) = (h, s)" "net_stack net1 = s"
    using assms(2) by (auto simp: create_socket_def split: prod.splits)
  with assms(1) show "h \<notin> live (net_stack net)" "live (net_stack net1) = insert h (live (net_stack net))"
    "\<And>k. k \<in> live (net_stack net) \<Longrightarrow> port_of (net_stack net1) k = port_of (net_stack net) k"
    unfolding socket_laws_def by metis+
qed

lemma listen_laws:
  assumes "socket_laws T live port_of" and "h \<in> live s" and "tcp_listen T h p s = (Ok (), s')"
  shows "live s' = live s" "port_of s' h = Some p" "\<And>k. k \<noteq> h \<Longrightarrow> port_of s' k = port_of s k"
  using assms unfolding socket_laws_def by blast+

lemma hop_limit_laws:
  assumes "socket_laws T live port_of"
  shows "live (tcp_set_hop_limit T h t s) = live s" "port_of (tcp_set_hop_limit T h t s) = port_of s"
  using assms unfolding socket_laws_def by blast+

subsection \<open>Shared settings and waiting\<close>

text \<open>
  The settings behind the \<^verbatim>\<open>Arc\<close>s of a socket: clones point to the same cell, so a cell
  is a key into a store that belongs to the whole process. \<open>api_connected\<close> is the peer of a
  connected UDP socket.
\<close>

record stream_cfg =
  cf_nonblocking :: bool
  cf_read_timeout :: "duration option"
  cf_write_timeout :: "duration option"

type_synonym cell = nat

record 's api =
  api_net :: "'s stcp_net"
  api_cells :: "cell \<Rightarrow> stream_cfg"
  api_connected :: "cell \<Rightarrow> socket_addr option"
  api_fresh :: cell

text \<open>
  While a call waits, the lock is free: the background thread and other callers change the
  state. \<open>sy_wait\<close> is \<^verbatim>\<open>Condvar::wait\<close> (\<open>None\<close>: never notified), \<open>sy_wait_until\<close> is
  \<^verbatim>\<open>wait_until\<close> with whether the deadline passed, \<open>sy_now\<close> the clock. \<open>sy_deadline\<close> is
  \<^verbatim>\<open>Instant + Duration\<close>, which panics (\<open>None\<close>) when the platform cannot represent the sum.
  \<open>sy_unlocked\<close> is what the other threads do between two critical sections of one call.
\<close>

record 's sync_ops =
  sy_wait :: "'s api \<Rightarrow> 's api option"
  sy_wait_until :: "nat \<Rightarrow> 's api \<Rightarrow> (bool \<times> 's api) option"
  sy_now :: "'s api \<Rightarrow> nat"
  sy_deadline :: "nat \<Rightarrow> duration \<Rightarrow> nat option"
  sy_unlocked :: "'s api \<Rightarrow> 's api"

abbreviation api_stack :: "'s api \<Rightarrow> 's" where
  "api_stack a \<equiv> net_stack (api_net a)"

definition with_stack :: "('s \<Rightarrow> 'r \<times> 's) \<Rightarrow> 's api \<Rightarrow> 'r \<times> 's api" where
  "with_stack f a =
     (case f (api_stack a) of (r, s) \<Rightarrow> (r, a\<lparr>api_net := (api_net a)\<lparr>net_stack := s\<rparr>\<rparr>))"

definition upd_stack :: "('s \<Rightarrow> 's) \<Rightarrow> 's api \<Rightarrow> 's api" where
  "upd_stack f a = a\<lparr>api_net := (api_net a)\<lparr>net_stack := f (api_stack a)\<rparr>\<rparr>"

definition on_net :: "('s stcp_net, 'e, 'a) prog \<Rightarrow> ('s api, 'e, 'a) prog" where
  "on_net m a = map_option (\<lambda>(out, n). (out, a\<lparr>api_net := n\<rparr>)) (m (api_net a))"

definition new_cell :: "stream_cfg \<Rightarrow> 's api \<Rightarrow> cell \<times> 's api" where
  "new_cell c a =
     (api_fresh a, a\<lparr>api_cells := (api_cells a)(api_fresh a := c),
                     api_connected := (api_connected a)(api_fresh a := None),
                     api_fresh := api_fresh a + 1\<rparr>)"

text \<open>
  The loop in front of every transfer: it is left when the socket is closed in the direction
  concerned, when it is ready, when waiting is not allowed or has taken too long, or by a panic
  because the deadline cannot be represented.
\<close>

datatype readiness = Closed | NotReady | IsReady

datatype wait_end = WClosed | WReady | WBlocked | WPanic

partial_function (option) wait_ready ::
  "'s sync_ops \<Rightarrow> ('s \<Rightarrow> readiness) \<Rightarrow> (stream_cfg \<Rightarrow> duration option) \<Rightarrow> cell \<Rightarrow> nat \<Rightarrow> 's api \<Rightarrow>
   (wait_end \<times> 's api) option" where
  "wait_ready Y check limit c start a =
     (case check (api_stack a) of
        Closed \<Rightarrow> Some (WClosed, a)
      | IsReady \<Rightarrow> Some (WReady, a)
      | NotReady \<Rightarrow>
          if cf_nonblocking (api_cells a c) then Some (WBlocked, a)
          else (case limit (api_cells a c) of
                  Some d \<Rightarrow>
                    (case sy_deadline Y start d of
                       None \<Rightarrow> Some (WPanic, a)
                     | Some t \<Rightarrow>
                         (case sy_wait_until Y t a of
                            None \<Rightarrow> None
                          | Some (timed_out, a') \<Rightarrow>
                              if timed_out then Some (WBlocked, a')
                              else wait_ready Y check limit c start a'))
                | None \<Rightarrow>
                    (case sy_wait Y a of
                       None \<Rightarrow> None
                     | Some a' \<Rightarrow> wait_ready Y check limit c start a')))"

subsection \<open>What waiting establishes\<close>

fun wait_end_ok :: "('s \<Rightarrow> readiness) \<Rightarrow> wait_end \<times> 's api \<Rightarrow> bool" where
  "wait_end_ok check (WClosed, a) \<longleftrightarrow> check (api_stack a) = Closed"
| "wait_end_ok check (WReady, a) \<longleftrightarrow> check (api_stack a) = IsReady"
| "wait_end_ok check (WBlocked, a) \<longleftrightarrow> True"
| "wait_end_ok check (WPanic, a) \<longleftrightarrow> True"

lemma wait_ready_end:
  assumes ret: "wait_ready Y check limit c start a = Some y"
  shows "wait_end_ok check y"
proof (rule wait_ready.raw_induct [where P = "\<lambda>Y check limit c start a y. wait_end_ok check y", OF _ ret])
  fix f and Y :: "'s sync_ops" and check limit c start a y
  assume IH: "\<And>(Y :: 's sync_ops) check limit c start a y. f Y check limit c start a = Some y \<Longrightarrow> wait_end_ok check y"
    and body: "(case check (api_stack a) of
        Closed \<Rightarrow> Some (WClosed, a)
      | NotReady \<Rightarrow>
          if cf_nonblocking (api_cells a c) then Some (WBlocked, a)
          else (case limit (api_cells a c) of
                  None \<Rightarrow> (case sy_wait Y a of None \<Rightarrow> None | Some a' \<Rightarrow> f Y check limit c start a')
                | Some d \<Rightarrow>
                    (case sy_deadline Y start d of
                       None \<Rightarrow> Some (WPanic, a)
                     | Some t \<Rightarrow>
                         (case sy_wait_until Y t a of
                            None \<Rightarrow> None
                          | Some (timed_out, a') \<Rightarrow>
                              if timed_out then Some (WBlocked, a') else f Y check limit c start a')))
      | IsReady \<Rightarrow> Some (WReady, a)) = Some y"
  show "wait_end_ok check y"
  proof (cases "check (api_stack a)")
    case NotReady
    with body show ?thesis
      by (auto split: if_splits option.splits dest: IH)
  qed (use body in auto)
qed

text \<open>A call that may not block does not wait: it answers at once and changes nothing.\<close>

lemma wait_ready_nonblocking:
  "cf_nonblocking (api_cells a c) \<Longrightarrow>
   wait_ready Y check limit c start a =
     Some (case check (api_stack a) of Closed \<Rightarrow> WClosed | IsReady \<Rightarrow> WReady | NotReady \<Rightarrow> WBlocked, a)"
  by (subst wait_ready.simps) (simp split: readiness.splits)

text \<open>
  Under what conditions a call with a timeout comes back: waiting until a deadline returns; there
  is no endless sequence of early wake-ups before one and the same deadline; and while this call
  waits nobody else changes the settings of the stream.
\<close>

definition early_wake :: "'s sync_ops \<Rightarrow> nat \<Rightarrow> ('s api \<times> 's api) set" where
  "early_wake Y t = {(a', a). sy_wait_until Y t a = Some (False, a')}"

definition timely :: "'s sync_ops \<Rightarrow> cell \<Rightarrow> bool" where
  "timely Y c \<longleftrightarrow>
     (\<forall>t. wf (early_wake Y t)) \<and>
     (\<forall>t a. \<exists>late a'. sy_wait_until Y t a = Some (late, a') \<and> api_cells a' c = api_cells a c)"

lemma timely_wf: "timely Y c \<Longrightarrow> wf (early_wake Y t)"
  by (simp add: timely_def)

lemma timely_waitE:
  assumes "timely Y c"
  obtains late a' where "sy_wait_until Y t a = Some (late, a')" and "api_cells a' c = api_cells a c"
    and "\<not> late \<Longrightarrow> (a', a) \<in> early_wake Y t"
  using assms unfolding timely_def early_wake_def by auto metis

lemma wait_ready_returns:
  assumes "timely Y c" and "limit (api_cells a c) = Some d"
  shows "wait_ready Y check limit c start a \<noteq> None"
proof (cases "sy_deadline Y start d")
  case None
  with assms(2) show ?thesis by (subst wait_ready.simps) (auto split: readiness.splits)
next
  case (Some t)
  from timely_wf [OF assms(1), of t] show ?thesis
    using assms(2)
  proof (induction a rule: wf_induct_rule)
    case (less a)
    obtain late a' where "sy_wait_until Y t a = Some (late, a')" "api_cells a' c = api_cells a c"
      "\<not> late \<Longrightarrow> (a', a) \<in> early_wake Y t"
      using timely_waitE [OF assms(1), of t a] by blast
    with less Some show ?case
      by (subst wait_ready.simps) (auto split: readiness.splits)
  qed
qed

end
