(* ===== verification/TcpStream.thy ===== *)
theory TcpStream
  imports Api
begin

text \<open>
  \<^verbatim>\<open>StcpStream\<close> and \<^verbatim>\<open>TcpStream\<close> of \<^verbatim>\<open>apimultithread.rs\<close>: a connection
  over the user-space stack, and the enumeration that also covers connections of the
  operating system. The data returned by a read is the front of the caller's buffer.
\<close>

subsection \<open>\<open>StcpStream\<close>\<close>

record stcp_stream =
  ss_handle :: handle
  ss_cell :: cell

definition default_cfg :: "bool \<Rightarrow> stream_cfg" where
  "default_cfg nonblocking =
     \<lparr>cf_nonblocking = nonblocking, cf_read_timeout = None, cf_write_timeout = None\<rparr>"

text \<open>The value of a new stream: fresh settings, no timeouts.\<close>

definition stream_new :: "handle \<Rightarrow> bool \<Rightarrow> 's api \<Rightarrow> stcp_stream \<times> 's api" where
  "stream_new h nonblocking a =
     (case new_cell (default_cfg nonblocking) a of (c, a') \<Rightarrow> (\<lparr>ss_handle = h, ss_cell = c\<rparr>, a'))"

definition recv_check :: "'s tcp_ops \<Rightarrow> handle \<Rightarrow> 's \<Rightarrow> readiness" where
  "recv_check T h s =
     (if \<not> tcp_may_recv T h s then Closed else if \<not> tcp_can_recv T h s then NotReady else IsReady)"

definition send_check :: "'s tcp_ops \<Rightarrow> handle \<Rightarrow> 's \<Rightarrow> readiness" where
  "send_check T h s =
     (if \<not> tcp_may_send T h s then Closed else if \<not> tcp_can_send T h s then NotReady else IsReady)"

definition would_block :: "ustr \<Rightarrow> io_error" where
  "would_block t = io_error_new KWouldBlock t"

text \<open>\<^verbatim>\<open>map_err(|e| io::Error::new(Other, e.to_string()))\<close>\<close>

fun stack_result :: "('a, ustr) outcome \<Rightarrow> ('a, io_error) outcome" where
  "stack_result (Ok x) = Ok x"
| "stack_result (Err t) = Err (io_error_new KOther t)"
| "stack_result Panic = Panic"

text \<open>Run the transfer, then wake the thread; a panic in either ends the call.\<close>

definition transfer ::
  "('s \<Rightarrow> ('a, ustr) outcome \<times> 's) \<Rightarrow> ('s stcp_net, io_error, unit) prog \<Rightarrow> ('s api, io_error, 'a) prog" where
  "transfer f wake a =
     (case with_stack f a of
        (Panic, a1) \<Rightarrow> Some (Panic, a1)
      | (out, a1) \<Rightarrow> pbind (on_net wake) (\<lambda>_ a2. Some (stack_result out, a2)) a1)"

definition stream_peek ::
  "'s sync_ops \<Rightarrow> 's tcp_ops \<Rightarrow> stcp_stream \<Rightarrow> nat \<Rightarrow> ('s api, io_error, bytes) prog" where
  "stream_peek Y T st n a =
     (case wait_ready Y (recv_check T (ss_handle st)) cf_read_timeout (ss_cell st) (sy_now Y a) a of
        None \<Rightarrow> None
      | Some (WClosed, a1) \<Rightarrow> Some (Ok [], a1)
      | Some (WBlocked, a1) \<Rightarrow> Some (Err (would_block (lit ''peek not ready'')), a1)
      | Some (WPanic, a1) \<Rightarrow> Some (Panic, a1)
      | Some (WReady, a1) \<Rightarrow>
          (case with_stack (tcp_peek_slice T (ss_handle st) n) a1 of
             (out, a2) \<Rightarrow> Some (stack_result out, a2)))"

definition stream_read ::
  "'s sync_ops \<Rightarrow> 's tcp_ops \<Rightarrow> nat \<Rightarrow> stcp_stream \<Rightarrow> nat \<Rightarrow> ('s api, io_error, bytes) prog" where
  "stream_read Y T cap st n a =
     (case wait_ready Y (recv_check T (ss_handle st)) cf_read_timeout (ss_cell st) (sy_now Y a) a of
        None \<Rightarrow> None
      | Some (WClosed, a1) \<Rightarrow> Some (Ok [], a1)
      | Some (WBlocked, a1) \<Rightarrow> Some (Err (would_block (lit ''read not ready'')), a1)
      | Some (WPanic, a1) \<Rightarrow> Some (Panic, a1)
      | Some (WReady, a1) \<Rightarrow> transfer (tcp_recv_slice T (ss_handle st) n) (wake_bg_read cap) a1)"

definition not_connected :: io_error where
  "not_connected = io_error_new KOther (lit ''not connected (anymore)'')"

definition stream_write ::
  "'s sync_ops \<Rightarrow> 's tcp_ops \<Rightarrow> nat \<Rightarrow> stcp_stream \<Rightarrow> bytes \<Rightarrow> ('s api, io_error, nat) prog" where
  "stream_write Y T cap st buf a =
     (case wait_ready Y (send_check T (ss_handle st)) cf_write_timeout (ss_cell st) (sy_now Y a) a of
        None \<Rightarrow> None
      | Some (WClosed, a1) \<Rightarrow> Some (Err not_connected, a1)
      | Some (WBlocked, a1) \<Rightarrow> Some (Err (would_block (lit ''write not ready'')), a1)
      | Some (WPanic, a1) \<Rightarrow> Some (Panic, a1)
      | Some (WReady, a1) \<Rightarrow> transfer (tcp_send_slice T (ss_handle st) buf) (wake_bg cap) a1)"

definition upd_cell :: "cell \<Rightarrow> (stream_cfg \<Rightarrow> stream_cfg) \<Rightarrow> 's api \<Rightarrow> 's api" where
  "upd_cell c f a = a\<lparr>api_cells := (api_cells a)(c := f (api_cells a c))\<rparr>"

definition stream_set_read_timeout :: "stcp_stream \<Rightarrow> duration option \<Rightarrow> ('s api, io_error, unit) prog" where
  "stream_set_read_timeout st dur a = Some (Ok (), upd_cell (ss_cell st) (\<lambda>c. c\<lparr>cf_read_timeout := dur\<rparr>) a)"

definition stream_read_timeout :: "stcp_stream \<Rightarrow> ('s api, io_error, duration option) prog" where
  "stream_read_timeout st a = Some (Ok (cf_read_timeout (api_cells a (ss_cell st))), a)"

definition stream_set_write_timeout :: "stcp_stream \<Rightarrow> duration option \<Rightarrow> ('s api, io_error, unit) prog" where
  "stream_set_write_timeout st dur a = Some (Ok (), upd_cell (ss_cell st) (\<lambda>c. c\<lparr>cf_write_timeout := dur\<rparr>) a)"

definition stream_write_timeout :: "stcp_stream \<Rightarrow> ('s api, io_error, duration option) prog" where
  "stream_write_timeout st a = Some (Ok (cf_write_timeout (api_cells a (ss_cell st))), a)"

definition stream_set_nodelay :: "bool \<Rightarrow> ('s api, io_error, unit) prog" where
  "stream_set_nodelay nodelay =
     (if nodelay then pret ()
      else pthrow (io_error_new KOther (lit ''smoltcp does not have Nagle's algorithm'')))"

definition stream_nodelay :: "('s api, io_error, bool) prog" where
  "stream_nodelay = pret True"

definition stream_flush :: "('s api, io_error, unit) prog" where
  "stream_flush = pret ()"

definition stream_set_nonblocking :: "stcp_stream \<Rightarrow> bool \<Rightarrow> ('s api, io_error, unit) prog" where
  "stream_set_nonblocking st nb a = Some (Ok (), upd_cell (ss_cell st) (\<lambda>c. c\<lparr>cf_nonblocking := nb\<rparr>) a)"

text \<open>\<^verbatim>\<open>ttl as u8\<close> keeps the low eight bits.\<close>

definition stream_set_ttl :: "'s tcp_ops \<Rightarrow> stcp_stream \<Rightarrow> u32 \<Rightarrow> ('s api, io_error, unit) prog" where
  "stream_set_ttl T st ttl a =
     Some (Ok (), upd_stack (tcp_set_hop_limit T (ss_handle st) (Some (ucast ttl))) a)"

definition stream_ttl :: "'s tcp_ops \<Rightarrow> stcp_stream \<Rightarrow> ('s api, io_error, u32) prog" where
  "stream_ttl T st a =
     Some (Ok (ucast (case tcp_hop_limit T (ss_handle st) (api_stack a) of Some x \<Rightarrow> x | None \<Rightarrow> 64)), a)"

definition stream_local_addr :: "'s tcp_ops \<Rightarrow> stcp_stream \<Rightarrow> ('s api, io_error, socket_addr) prog" where
  "stream_local_addr T st a =
     Some (endpoint_to_socket_addr (tcp_local_endpoint T (ss_handle st) (api_stack a)), a)"

definition stream_peer_addr :: "'s tcp_ops \<Rightarrow> stcp_stream \<Rightarrow> ('s api, io_error, socket_addr) prog" where
  "stream_peer_addr T st a =
     (let peer = tcp_remote_endpoint T (ss_handle st) (api_stack a)
      in if \<not> ep_is_specified T peer then Some (Err not_connected, a)
         else Some (endpoint_to_socket_addr peer, a))"

datatype shutdown_how = ShutRead | ShutWrite | ShutBoth

definition stream_shutdown :: "'s tcp_ops \<Rightarrow> stcp_stream \<Rightarrow> shutdown_how \<Rightarrow> ('s api, io_error, unit) prog" where
  "stream_shutdown T st how a =
     (case how of
        ShutRead \<Rightarrow> Some (Ok (), a)
      | ShutWrite \<Rightarrow> Some (Ok (), upd_stack (tcp_close T (ss_handle st)) a)
      | ShutBoth \<Rightarrow> Some (Ok (), upd_stack (tcp_abort T (ss_handle st)) a))"

definition stream_try_clone :: "'s tcp_ops \<Rightarrow> stcp_stream \<Rightarrow> ('s api, io_error, stcp_stream) prog" where
  "stream_try_clone T st a =
     Some (Ok \<lparr>ss_handle = ss_handle st, ss_cell = ss_cell st\<rparr>, upd_stack (set_retain T (ss_handle st)) a)"

definition stream_drop :: "'s tcp_ops \<Rightarrow> stcp_stream \<Rightarrow> 's api \<Rightarrow> 's api" where
  "stream_drop T st = upd_stack (\<lambda>s. set_prune T (set_release T (ss_handle st) s))"

subsection \<open>\<open>TcpStream\<close>\<close>

datatype 'y tcp_stream = System 'y | Stcp stcp_stream

text \<open>Connections of the operating system, \<^verbatim>\<open>std::net::TcpStream\<close>.\<close>

record ('y, 's) sys_stream =
  sys_read :: "'y \<Rightarrow> nat \<Rightarrow> ('s api, io_error, bytes) prog"
  sys_write :: "'y \<Rightarrow> bytes \<Rightarrow> ('s api, io_error, nat) prog"
  sys_flush :: "'y \<Rightarrow> ('s api, io_error, unit) prog"
  sys_peek :: "'y \<Rightarrow> nat \<Rightarrow> ('s api, io_error, bytes) prog"
  sys_set_read_timeout :: "'y \<Rightarrow> duration option \<Rightarrow> ('s api, io_error, unit) prog"
  sys_read_timeout :: "'y \<Rightarrow> ('s api, io_error, duration option) prog"
  sys_set_write_timeout :: "'y \<Rightarrow> duration option \<Rightarrow> ('s api, io_error, unit) prog"
  sys_write_timeout :: "'y \<Rightarrow> ('s api, io_error, duration option) prog"
  sys_set_nodelay :: "'y \<Rightarrow> bool \<Rightarrow> ('s api, io_error, unit) prog"
  sys_nodelay :: "'y \<Rightarrow> ('s api, io_error, bool) prog"
  sys_set_ttl :: "'y \<Rightarrow> u32 \<Rightarrow> ('s api, io_error, unit) prog"
  sys_ttl :: "'y \<Rightarrow> ('s api, io_error, u32) prog"
  sys_take_error :: "'y \<Rightarrow> ('s api, io_error, io_error option) prog"
  sys_set_nonblocking :: "'y \<Rightarrow> bool \<Rightarrow> ('s api, io_error, unit) prog"
  sys_try_clone :: "'y \<Rightarrow> ('s api, io_error, 'y) prog"
  sys_local_addr :: "'y \<Rightarrow> ('s api, io_error, socket_addr) prog"
  sys_peer_addr :: "'y \<Rightarrow> ('s api, io_error, socket_addr) prog"
  sys_shutdown :: "'y \<Rightarrow> shutdown_how \<Rightarrow> ('s api, io_error, unit) prog"

definition tcp_read where
  "tcp_read Z Y T cap st n =
     (case st of Stcp s \<Rightarrow> stream_read Y T cap s n | System y \<Rightarrow> sys_read Z y n)"

definition tcp_write where
  "tcp_write Z Y T cap st buf =
     (case st of Stcp s \<Rightarrow> stream_write Y T cap s buf | System y \<Rightarrow> sys_write Z y buf)"

definition tcp_flush where
  "tcp_flush Z st = (case st of Stcp s \<Rightarrow> stream_flush | System y \<Rightarrow> sys_flush Z y)"

definition tcp_set_read_timeout where
  "tcp_set_read_timeout Z st dur =
     (case st of Stcp s \<Rightarrow> stream_set_read_timeout s dur | System y \<Rightarrow> sys_set_read_timeout Z y dur)"

definition tcp_read_timeout where
  "tcp_read_timeout Z st =
     (case st of Stcp s \<Rightarrow> stream_read_timeout s | System y \<Rightarrow> sys_read_timeout Z y)"

definition tcp_set_write_timeout where
  "tcp_set_write_timeout Z st dur =
     (case st of Stcp s \<Rightarrow> stream_set_write_timeout s dur | System y \<Rightarrow> sys_set_write_timeout Z y dur)"

definition tcp_write_timeout where
  "tcp_write_timeout Z st =
     (case st of Stcp s \<Rightarrow> stream_write_timeout s | System y \<Rightarrow> sys_write_timeout Z y)"

definition tcp_peek where
  "tcp_peek Z Y T st n = (case st of Stcp s \<Rightarrow> stream_peek Y T s n | System y \<Rightarrow> sys_peek Z y n)"

definition tcp_set_nodelay where
  "tcp_set_nodelay Z st b =
     (case st of Stcp s \<Rightarrow> stream_set_nodelay b | System y \<Rightarrow> sys_set_nodelay Z y b)"

definition tcp_nodelay where
  "tcp_nodelay Z st = (case st of Stcp s \<Rightarrow> stream_nodelay | System y \<Rightarrow> sys_nodelay Z y)"

definition tcp_set_ttl where
  "tcp_set_ttl Z T st ttl = (case st of Stcp s \<Rightarrow> stream_set_ttl T s ttl | System y \<Rightarrow> sys_set_ttl Z y ttl)"

definition tcp_ttl where
  "tcp_ttl Z T st = (case st of Stcp s \<Rightarrow> stream_ttl T s | System y \<Rightarrow> sys_ttl Z y)"

definition tcp_take_error where
  "tcp_take_error Z st = (case st of Stcp s \<Rightarrow> pret None | System y \<Rightarrow> sys_take_error Z y)"

definition tcp_set_nonblocking where
  "tcp_set_nonblocking Z st b =
     (case st of Stcp s \<Rightarrow> stream_set_nonblocking s b | System y \<Rightarrow> sys_set_nonblocking Z y b)"

definition tcp_try_clone where
  "tcp_try_clone Z T st =
     (case st of
        Stcp s \<Rightarrow> pbind (stream_try_clone T s) (\<lambda>s'. pret (Stcp s'))
      | System y \<Rightarrow> pbind (sys_try_clone Z y) (\<lambda>y'. pret (System y')))"

definition tcp_local_addr where
  "tcp_local_addr Z T st = (case st of Stcp s \<Rightarrow> stream_local_addr T s | System y \<Rightarrow> sys_local_addr Z y)"

definition tcp_peer_addr where
  "tcp_peer_addr Z T st = (case st of Stcp s \<Rightarrow> stream_peer_addr T s | System y \<Rightarrow> sys_peer_addr Z y)"

definition tcp_shutdown where
  "tcp_shutdown Z T st how =
     (case st of Stcp s \<Rightarrow> stream_shutdown T s how | System y \<Rightarrow> sys_shutdown Z y how)"

lemma wake_then_defined:
  "(\<And>x. wake x \<noteq> None) \<Longrightarrow> pbind (on_net wake) (\<lambda>_ a2. Some (out, a2)) c \<noteq> None"
  by (intro pbind_defined) (simp_all add: on_net_def)

lemma transfer_defined: "(\<And>x. wake x \<noteq> None) \<Longrightarrow> transfer f wake b \<noteq> None"
  using wake_then_defined [of wake "stack_result (fst (with_stack f b))" "snd (with_stack f b)"]
  by (cases "with_stack f b"; cases "fst (with_stack f b)") (simp_all add: transfer_def)

subsection \<open>Properties\<close>

text \<open>C10: A read with a read timeout comes to an end, and so does a write with a write timeout, whatever
  the stack does, under the conditions of \<open>timely\<close>: waiting on the condition variable until a
  deadline returns, is not woken endlessly often before one deadline, and no other thread changes the
  settings of this stream while the call waits.\<close>

theorem timed_transfer_returns:
  assumes "timely Y (ss_cell st)"
  shows "(cf_read_timeout (api_cells a (ss_cell st)) = Some d \<longrightarrow> (\<exists>out a'. stream_read Y T cap st n a = Some (out, a'))) \<and>
    (cf_write_timeout (api_cells a (ss_cell st)) = Some e \<longrightarrow> (\<exists>out a'. stream_write Y T cap st buf a = Some (out, a')))"
proof -
  have "transfer f (wake_bg_read cap) b \<noteq> None" "transfer g (wake_bg cap) b \<noteq> None" for f g and b :: "'a api"
    by (rule transfer_defined, simp add: wake_bg_read_def wake_bg_def notify_send_def)+
  then have "stream_read Y T cap st n a \<noteq> None" if "cf_read_timeout (api_cells a (ss_cell st)) = Some d"
    using that wait_ready_returns [OF assms, of cf_read_timeout a d "recv_check T (ss_handle st)" "sy_now Y a"]
    by (auto simp: stream_read_def split: wait_end.splits)
  moreover have "stream_write Y T cap st buf a \<noteq> None" if "cf_write_timeout (api_cells a (ss_cell st)) = Some e"
    using that wait_ready_returns [OF assms, of cf_write_timeout a e "send_check T (ss_handle st)" "sy_now Y a"]
      \<open>\<And>g f b. transfer g (wake_bg cap) b \<noteq> None\<close>
    by (auto simp: stream_write_def split: wait_end.splits)
  ultimately show ?thesis by auto
qed

text \<open>A process whose stack only counts time; waiting takes one tick at a time.\<close>

definition tick_sync :: "nat sync_ops" where
  "tick_sync =
     \<lparr>sy_wait = Some,
      sy_wait_until = \<lambda>t a. if api_stack a + 1 < t then Some (False, upd_stack Suc a) else Some (True, a),
      sy_now = api_stack, sy_deadline = \<lambda>start d. Some (start + d), sy_unlocked = \<lambda>a. a\<rparr>"

lemma tick_sync_timely: "timely tick_sync c"
proof -
  have "early_wake tick_sync t \<subseteq> measure (\<lambda>a. t - api_stack a)" for t
    by (auto simp: early_wake_def tick_sync_def upd_stack_def split: if_splits)
  then have "wf (early_wake tick_sync t)" for t by (rule wf_subset [OF wf_measure])
  then show ?thesis by (auto simp: timely_def tick_sync_def upd_stack_def)
qed

definition tick_api :: "stream_cfg \<Rightarrow> nat api" where
  "tick_api cfg = \<lparr>api_net = net_new 3 0 4 (0, 0) True 1 None 1, api_cells = \<lambda>_. cfg, api_connected = \<lambda>_. None,
      api_fresh = 0\<rparr>"

text \<open>A stack in which every socket is an established connection from \<^verbatim>\<open>10.0.0.1:99\<close>.\<close>

definition open_tcp :: "nat tcp_ops" where
  "open_tcp =
     \<lparr>tcp_new = \<lambda>_ _ s. (s, s + 1), tcp_listen = \<lambda>_ _ s. (Ok (), s), tcp_connect = \<lambda>_ _ _ s. (Ok (), s),
      tcp_is_active = \<lambda>_ _. True, tcp_may_recv = \<lambda>_ _. True, tcp_may_send = \<lambda>_ _. True,
      tcp_can_recv = \<lambda>_ _. True, tcp_can_send = \<lambda>_ _. True,
      tcp_recv_slice = \<lambda>_ _ s. (Ok [], s), tcp_peek_slice = \<lambda>_ _ s. (Ok [], s),
      tcp_send_slice = \<lambda>_ b s. (Ok (length b), s), tcp_set_hop_limit = \<lambda>_ _ s. s,
      tcp_hop_limit = \<lambda>_ _. None,
      tcp_local_endpoint = \<lambda>_ _. \<lparr>ep_addr = AddrV4 (Ipv4Addr 10 0 0 2), ep_port = 80\<rparr>,
      tcp_remote_endpoint = \<lambda>_ _. \<lparr>ep_addr = AddrV4 (Ipv4Addr 10 0 0 1), ep_port = 99\<rparr>,
      ep_is_specified = \<lambda>ep. ep_port ep \<noteq> 0, tcp_close = \<lambda>_ s. s, tcp_abort = \<lambda>_ s. s, set_release = \<lambda>_ s. s, set_retain = \<lambda>_ s. s,
      set_prune = \<lambda>s. s\<rparr>"

theorem timed_transfer_returns_witness:
  "\<forall>T. \<exists>out a'. stream_read tick_sync T 10 \<lparr>ss_handle = 0, ss_cell = 0\<rparr> 5
     (tick_api \<lparr>cf_nonblocking = False, cf_read_timeout = Some 3, cf_write_timeout = None\<rparr>) = Some (out, a')"
proof
  fix T :: "nat tcp_ops"
  show "\<exists>out a'. stream_read tick_sync T 10 \<lparr>ss_handle = 0, ss_cell = 0\<rparr> 5
     (tick_api \<lparr>cf_nonblocking = False, cf_read_timeout = Some 3, cf_write_timeout = None\<rparr>) = Some (out, a')"
    using timed_transfer_returns [of tick_sync "\<lparr>ss_handle = 0, ss_cell = 0\<rparr>"
        "tick_api \<lparr>cf_nonblocking = False, cf_read_timeout = Some 3, cf_write_timeout = None\<rparr>" 3 T 10 5]
      tick_sync_timely
    by (simp add: tick_api_def)
qed

text \<open>A nonblocking read answers at once: end of stream when the peer has closed, \<open>WouldBlock\<close> without
  any effect when nothing has arrived, and otherwise the transfer itself.\<close>

theorem stream_read_nonblocking:
  assumes "cf_nonblocking (api_cells a (ss_cell st))"
  shows "stream_read Y T cap st n a =
    (if \<not> tcp_may_recv T (ss_handle st) (api_stack a) then Some (Ok [], a)
     else if \<not> tcp_can_recv T (ss_handle st) (api_stack a)
     then Some (Err (would_block (lit ''read not ready'')), a)
     else transfer (tcp_recv_slice T (ss_handle st) n) (wake_bg_read cap) a)"
  by (simp add: stream_read_def wait_ready_nonblocking [OF assms] recv_check_def)

theorem stream_read_nonblocking_witness:
  "stream_read tick_sync (open_tcp\<lparr>tcp_can_recv := \<lambda>_ _. False\<rparr>) 10 \<lparr>ss_handle = 0, ss_cell = 0\<rparr> 5
     (tick_api (default_cfg True)) =
   Some (Err (would_block (lit ''read not ready'')), tick_api (default_cfg True))"
  using stream_read_nonblocking [of "tick_api (default_cfg True)" "\<lparr>ss_handle = 0, ss_cell = 0\<rparr>" tick_sync
      "open_tcp\<lparr>tcp_can_recv := \<lambda>_ _. False\<rparr>" 10 5]
  by (simp add: tick_api_def default_cfg_def open_tcp_def)

text \<open>Clones of a stream share their settings: a timeout set through the clone is the one the original
  reports and uses, and the clone holds its own reference to the socket.\<close>

theorem clone_shares_settings:
  "\<exists>st' a1. stream_try_clone T st a = Some (Ok st', a1) \<and>
     api_stack a1 = set_retain T (ss_handle st) (api_stack a) \<and>
     pbind (stream_set_read_timeout st' dur) (\<lambda>_. stream_read_timeout st) a1 =
       Some (Ok dur, upd_cell (ss_cell st) (\<lambda>c. c\<lparr>cf_read_timeout := dur\<rparr>) a1)"
  by (simp add: stream_try_clone_def stream_set_read_timeout_def stream_read_timeout_def upd_stack_def upd_cell_def
      pbind_def)

end
