(* ===== verification/Listener.thy ===== *)
theory Listener
  imports TcpStream
begin

text \<open>
  \<^verbatim>\<open>StcpListener\<close>, \<^verbatim>\<open>StcpListenerRef\<close> and \<^verbatim>\<open>StcpListenerIt\<close> of
  \<^verbatim>\<open>apimultithread.rs\<close>: a listener keeps a pool of listening sockets of the
  user-space stack beside a loopback listener of the operating system. A call holds the lock
  of the listener to its end, so the listener is threaded through explicitly.
\<close>

subsection \<open>State and the system's listener\<close>

record 'l stcp_listener =
  ln_handles :: "handle list option"
  ln_lo :: 'l
  ln_port :: u16
  ln_ttl :: "u8 option"
  ln_nonblocking :: bool

text \<open>\<^verbatim>\<open>std::net::TcpListener\<close>: any call may block (\<open>None\<close>).\<close>

record ('l, 'y, 's) sys_listener =
  lo_accept :: "'l \<Rightarrow> ('s api, io_error, 'y \<times> socket_addr) prog"
  lo_fd :: "'l \<Rightarrow> raw_fd"
  lo_local_addr :: "'l \<Rightarrow> ('s api, io_error, socket_addr) prog"
  lo_set_ttl :: "'l \<Rightarrow> u32 \<Rightarrow> ('s api, io_error, unit) prog"
  lo_take_error :: "'l \<Rightarrow> ('s api, io_error, io_error option) prog"
  lo_set_nonblocking :: "'l \<Rightarrow> bool \<Rightarrow> ('s api, io_error, unit) prog"

subsection \<open>Accepting\<close>

text \<open>A connection of the system takes over the mode of the listener; failing at that panics.\<close>

definition adopt_system ::
  "('y, 's) sys_stream \<Rightarrow> bool \<Rightarrow> 'y \<times> socket_addr \<Rightarrow> ('s api, io_error, 'y tcp_stream \<times> socket_addr) prog" where
  "adopt_system Z nb = (\<lambda>(y, addr) a.
     (case sys_set_nonblocking Z y nb a of
        None \<Rightarrow> None
      | Some (Ok _, a') \<Rightarrow> Some (Ok (System y, addr), a')
      | Some (_, a') \<Rightarrow> Some (Panic, a')))"

definition conn_ready :: "'s tcp_ops \<Rightarrow> 's \<Rightarrow> handle \<Rightarrow> bool" where
  "conn_ready T s h \<longleftrightarrow> tcp_is_active T h s \<and> tcp_may_recv T h s \<and> tcp_may_send T h s"

text \<open>The scan of the pool: the position and handle of the first established connection.\<close>

fun find_conn :: "(handle \<Rightarrow> bool) \<Rightarrow> nat \<Rightarrow> handle list \<Rightarrow> (nat \<times> handle) option" where
  "find_conn P i [] = None"
| "find_conn P i (h # hs) = (if P h then Some (i, h) else find_conn P (i + 1) hs)"

definition remove_at :: "nat \<Rightarrow> 'a list \<Rightarrow> 'a list" where
  "remove_at i xs = take i xs @ drop (Suc i) xs"

text \<open>The accepted socket leaves the pool and a fresh listening socket takes its place.\<close>

definition replace_listening ::
  "'s tcp_ops \<Rightarrow> 'l stcp_listener \<Rightarrow> nat \<Rightarrow> handle list \<Rightarrow> 's api \<Rightarrow>
   (unit, io_error) outcome \<times> 'l stcp_listener \<times> 's api" where
  "replace_listening T ln i hs a =
     (let ln1 = ln\<lparr>ln_handles := Some (remove_at i hs)\<rparr>
      in case create_socket T (api_net a) of
           (h, net1) \<Rightarrow>
             let s2 = tcp_set_hop_limit T h (ln_ttl ln) (net_stack net1)
             in case tcp_listen T h (ln_port ln) s2 of
                  (out, s3) \<Rightarrow>
                    let a3 = a\<lparr>api_net := net1\<lparr>net_stack := s3\<rparr>\<rparr>
                    in (case out of
                          Ok _ \<Rightarrow> (Ok (), ln1\<lparr>ln_handles := Some (remove_at i hs @ [h])\<rparr>, a3)
                        | _ \<Rightarrow> (Panic, ln1, a3)))"

definition no_active :: io_error where
  "no_active = io_error_new KWouldBlock (lit ''no active connection found'')"

text \<open>One turn of the loop, the rest of the loop as \<open>again\<close>. The lock of the stack is released between
  the scan of the pool and the replacement of the accepted socket.\<close>

definition accept_turn where
  "accept_turn Z X Y T ln hs a again =
     (case lo_accept X (ln_lo ln) a of
        None \<Rightarrow> None
      | Some (Panic, a1) \<Rightarrow> Some (Panic, ln, a1)
      | Some (Ok ya, a1) \<Rightarrow>
          map_option (\<lambda>(out, a2). (out, ln, a2)) (adopt_system Z (ln_nonblocking ln) ya a1)
      | Some (Err _, a1) \<Rightarrow>
          (case find_conn (conn_ready T (api_stack a1)) 0 hs of
             Some (i, h) \<Rightarrow>
               (case endpoint_to_socket_addr (tcp_remote_endpoint T h (api_stack a1)) of
                  Ok sadd \<Rightarrow>
                    (case stream_new h (ln_nonblocking ln) a1 of
                       (st, a2) \<Rightarrow>
                         (case replace_listening T ln i hs (sy_unlocked Y a2) of
                            (Ok _, ln', a3) \<Rightarrow> Some (Ok (Stcp st, sadd), ln', a3)
                          | (Err e, ln', a3) \<Rightarrow> Some (Err e, ln', a3)
                          | (Panic, ln', a3) \<Rightarrow> Some (Panic, ln', a3)))
                | Err e \<Rightarrow> Some (Err e, ln, a1)
                | Panic \<Rightarrow> Some (Panic, ln, a1))
           | None \<Rightarrow> if ln_nonblocking ln then Some (Err no_active, ln, a1) else again a1))"

lemma accept_turn_mono [partial_function_mono]:
  fixes again :: "('x \<Rightarrow> 'z option) \<Rightarrow> _"
  assumes "\<And>a1. mono_option (\<lambda>f. again f a1)"
  shows "mono_option (\<lambda>f. accept_turn Z X Y T ln hs a (again f))"
proof -
  have const: "mono_option (\<lambda>f :: 'x \<Rightarrow> 'z option. c)" for c
    by (rule monotoneI) (simp add: flat_ord_def)
  show ?thesis
  proof (cases "lo_accept X (ln_lo ln) a")
    case None
    then show ?thesis by (simp add: accept_turn_def const)
  next
    case (Some p)
    obtain out a1 where p: "p = (out, a1)" by fastforce
    show ?thesis
      by (cases out; cases "find_conn (conn_ready T (api_stack a1)) 0 hs"; cases "ln_nonblocking ln")
        (simp_all add: accept_turn_def Some p const assms)
  qed
qed

partial_function (option) accept_loop ::
  "('y, 's) sys_stream \<Rightarrow> ('l, 'y, 's) sys_listener \<Rightarrow> 's sync_ops \<Rightarrow> 's tcp_ops \<Rightarrow> 'l stcp_listener \<Rightarrow>
   handle list \<Rightarrow> 's api \<Rightarrow> (('y tcp_stream \<times> socket_addr, io_error) outcome \<times> 'l stcp_listener \<times> 's api) option" where
  "accept_loop Z X Y T ln hs a =
     (case (if ln_nonblocking ln then Some a else sy_wait Y a) of
        None \<Rightarrow> None
      | Some a0 \<Rightarrow> accept_turn Z X Y T ln hs a0 (\<lambda>a1. accept_loop Z X Y T ln hs a1))"

definition listener_accept where
  "listener_accept Z X Y T ln a =
     (case ln_handles ln of
        None \<Rightarrow>
          map_option (\<lambda>(out, a'). (out, ln, a'))
            (pbind (lo_accept X (ln_lo ln)) (adopt_system Z (ln_nonblocking ln)) a)
      | Some hs \<Rightarrow> accept_loop Z X Y T ln hs a)"

text \<open>\<^verbatim>\<open>StcpListenerIt::next\<close>: an error ends the iteration.\<close>

definition incoming_next where
  "incoming_next Z X Y T ln a =
     (case listener_accept Z X Y T ln a of
        None \<Rightarrow> None
      | Some (Ok (st, _), ln', a') \<Rightarrow> Some (Ok (Some st), ln', a')
      | Some (Err _, ln', a') \<Rightarrow> Some (Ok None, ln', a')
      | Some (Panic, ln', a') \<Rightarrow> Some (Panic, ln', a'))"

subsection \<open>Other operations\<close>

definition listener_local_addr where
  "listener_local_addr X T ln a =
     (case ln_handles ln of
        None \<Rightarrow> lo_local_addr X (ln_lo ln) a
      | Some [] \<Rightarrow> Some (Panic, a)
      | Some (h # _) \<Rightarrow> Some (endpoint_to_socket_addr (tcp_local_endpoint T h (api_stack a)), a))"

definition listener_ttl :: "'l stcp_listener \<Rightarrow> u32" where
  "listener_ttl ln = ucast (case ln_ttl ln of Some t \<Rightarrow> t | None \<Rightarrow> 64)"

definition listener_set_ttl where
  "listener_set_ttl X T ln ttl a =
     (let ln1 = ln\<lparr>ln_ttl := Some (ucast (ttl :: u32))\<rparr>;
          a1 = (case ln_handles ln of
                  None \<Rightarrow> a
                | Some hs \<Rightarrow> upd_stack (fold (\<lambda>h. tcp_set_hop_limit T h (ln_ttl ln1)) hs) a)
      in map_option (\<lambda>(out, a2). (out, ln1, a2)) (lo_set_ttl X (ln_lo ln) ttl a1))"

definition listener_take_error where
  "listener_take_error X ln = lo_take_error X (ln_lo ln)"

definition listener_set_nonblocking where
  "listener_set_nonblocking X ln nb a =
     (let ln1 = ln\<lparr>ln_nonblocking := nb\<rparr>
      in if ln_handles ln = None
         then map_option (\<lambda>(out, a1). (out, ln1, a1)) (lo_set_nonblocking X (ln_lo ln) nb a)
         else Some (Ok (), ln1, a))"

text \<open>\<^verbatim>\<open>Drop\<close>: the descriptor is queued for removal whether or not it was ever registered.\<close>

definition listener_drop :: "('l, 'y, 's) sys_listener \<Rightarrow> 's tcp_ops \<Rightarrow> 'l stcp_listener \<Rightarrow> 's api \<Rightarrow> 's api" where
  "listener_drop X T ln a =
     (let net = api_net a;
          a1 = a\<lparr>api_net := net\<lparr>net_fds_remove := net_fds_remove net @ [lo_fd X (ln_lo ln)]\<rparr>\<rparr>
      in case ln_handles ln of
           None \<Rightarrow> a1
         | Some hs \<Rightarrow> upd_stack (fold (\<lambda>h s. set_prune T (set_release T h s)) hs) a1)"

subsection \<open>Facts\<close>

lemma find_conn_first:
  assumes "find_conn P i hs = Some (j, h)"
  obtains pre post where "hs = pre @ h # post" and "j = i + length pre" and "P h" and "\<forall>k \<in> set pre. \<not> P k"
  using assms
proof (induction hs arbitrary: i thesis)
  case (Cons x xs)
  show ?case
  proof (cases "P x")
    case True
    with Cons.prems show ?thesis by (intro Cons.prems(1) [of "[]" xs]) auto
  next
    case False
    with Cons.prems(2) have "find_conn P (i + 1) xs = Some (j, h)" by simp
    then obtain pre post where "xs = pre @ h # post" "j = i + 1 + length pre" "P h" "\<forall>k \<in> set pre. \<not> P k"
      using Cons.IH by metis
    with False show ?thesis by (intro Cons.prems(1) [of "x # pre" post]) auto
  qed
qed simp

lemma remove_at_middle [simp]: "remove_at (length pre) (pre @ h # post) = pre @ post"
  by (simp add: remove_at_def)

text \<open>
  What accepting a connection of the stack means: in the state \<open>a1\<close> in which the pool was scanned
  the accepted socket is the first established connection; others may run after the scan; then a
  socket that was not in use takes its place at the end of the pool and listens on the port.
\<close>

definition accepted_from ::
  "('l, 'y, 's) sys_listener \<Rightarrow> 's sync_ops \<Rightarrow> 's tcp_ops \<Rightarrow> ('s \<Rightarrow> handle set) \<Rightarrow> ('s \<Rightarrow> handle \<Rightarrow> u16 option) \<Rightarrow>
   'l stcp_listener \<Rightarrow> handle list \<Rightarrow> stcp_stream \<Rightarrow> socket_addr \<Rightarrow> 'l stcp_listener \<Rightarrow> 's api \<Rightarrow> bool" where
  "accepted_from X Y T live port_of ln hs st addr ln' a' \<longleftrightarrow>
     (\<exists>a0 e a1 a2 pre post new.
        lo_accept X (ln_lo ln) a0 = Some (Err e, a1) \<and>
        hs = pre @ ss_handle st # post \<and> conn_ready T (api_stack a1) (ss_handle st) \<and>
        (\<forall>k \<in> set pre. \<not> conn_ready T (api_stack a1) k) \<and>
        endpoint_to_socket_addr (tcp_remote_endpoint T (ss_handle st) (api_stack a1)) = (Ok addr :: (_, io_error) outcome) \<and>
        stream_new (ss_handle st) (ln_nonblocking ln) a1 = (st, a2) \<and>
        ln' = ln\<lparr>ln_handles := Some (pre @ post @ [new])\<rparr> \<and>
        new \<notin> live (api_stack (sy_unlocked Y a2)) \<and>
        live (api_stack a') = insert new (live (api_stack (sy_unlocked Y a2))) \<and>
        port_of (api_stack a') new = Some (ln_port ln) \<and>
        (\<forall>k \<in> live (api_stack (sy_unlocked Y a2)). port_of (api_stack a') k = port_of (api_stack (sy_unlocked Y a2)) k))"

lemma replace_listening_Ok:
  assumes "replace_listening T ln (length pre) (pre @ h # post) a = (Ok (), ln', a')"
    and "socket_laws T live port_of"
  shows "\<exists>new. ln' = ln\<lparr>ln_handles := Some (pre @ post @ [new])\<rparr> \<and> new \<notin> live (api_stack a) \<and>
    live (api_stack a') = insert new (live (api_stack a)) \<and> port_of (api_stack a') new = Some (ln_port ln) \<and>
    (\<forall>k \<in> live (api_stack a). port_of (api_stack a') k = port_of (api_stack a) k)"
proof -
  obtain new net1 where c: "create_socket T (api_net a) = (new, net1)" by fastforce
  define s2 where "s2 = tcp_set_hop_limit T new (ln_ttl ln) (net_stack net1)"
  obtain s3 where l: "tcp_listen T new (ln_port ln) s2 = (Ok (), s3)"
    and fin: "ln' = ln\<lparr>ln_handles := Some (pre @ post @ [new])\<rparr>" "api_stack a' = s3"
    using assms(1) c by (auto simp: replace_listening_def Let_def s2_def split: prod.splits outcome.splits)
  note cs = create_socket_laws [OF assms(2) c] and hl = hop_limit_laws [OF assms(2)]
  have "new \<in> live s2" using cs(2) hl(1) by (simp add: s2_def)
  note ls = listen_laws [OF assms(2) this l]
  have "port_of (api_stack a') k = port_of (api_stack a) k" if "k \<in> live (api_stack a)" for k
  proof -
    from that cs(1) have "k \<noteq> new" by blast
    with ls(3) hl(2) cs(3) [OF that] fin(2) show ?thesis by (simp add: s2_def)
  qed
  then show ?thesis
    using cs hl ls fin by (intro exI [of _ new]) (auto simp: s2_def)
qed

lemma accept_turn_Stcp:
  assumes "accept_turn Z X Y T ln hs a again = Some (Ok (Stcp st, addr), ln', a')"
    and laws: "socket_laws T live port_of"
  shows "accepted_from X Y T live port_of ln hs st addr ln' a' \<or> (\<exists>a1. again a1 = Some (Ok (Stcp st, addr), ln', a'))"
proof -
  from assms(1) obtain out a1 where acc: "lo_accept X (ln_lo ln) a = Some (out, a1)"
    by (auto simp: accept_turn_def split: option.splits)
  have "\<exists>e. out = Err e"
    using assms(1) acc
    by (cases out) (auto simp: accept_turn_def adopt_system_def split: prod.splits option.splits outcome.splits)
  then obtain e where out: "out = Err e" by blast
  show ?thesis
  proof (cases "find_conn (conn_ready T (api_stack a1)) 0 hs")
    case None
    with assms(1) acc out show ?thesis by (auto simp: accept_turn_def split: if_splits)
  next
    case (Some ih)
    obtain i h where ih: "ih = (i, h)" by fastforce
    obtain sadd where ep: "endpoint_to_socket_addr (tcp_remote_endpoint T h (api_stack a1)) = (Ok sadd :: (socket_addr, io_error) outcome)"
      using assms(1) acc out Some ih
      by (cases "endpoint_to_socket_addr (tcp_remote_endpoint T h (api_stack a1)) :: (socket_addr, io_error) outcome")
        (auto simp: accept_turn_def)
    obtain st2 a2 where sn: "stream_new h (ln_nonblocking ln) a1 = (st2, a2)" by fastforce
    have h: "ss_handle st2 = h" using sn by (auto simp: stream_new_def split: prod.splits)
    obtain r ln2 a3 where rl: "replace_listening T ln i hs (sy_unlocked Y a2) = (r, ln2, a3)"
      by (cases "replace_listening T ln i hs (sy_unlocked Y a2)") auto
    have fin: "r = Ok ()" "st = st2" "ln' = ln2" "a' = a3" "addr = sadd"
      using assms(1) acc out Some ih ep sn rl by (cases r; auto simp: accept_turn_def)+
    obtain pre post where hs: "hs = pre @ h # post" "i = length pre" "conn_ready T (api_stack a1) h"
      "\<forall>k \<in> set pre. \<not> conn_ready T (api_stack a1) k"
      using find_conn_first [OF Some [unfolded ih]] by auto
    have "replace_listening T ln (length pre) (pre @ h # post) (sy_unlocked Y a2) = (Ok (), ln', a')"
      using rl fin hs by simp
    from replace_listening_Ok [OF this laws] acc out hs ep sn h fin show ?thesis
      unfolding accepted_from_def by blast
  qed
qed

definition accept_result_ok where
  "accept_result_ok X Y T live port_of ln hs y \<longleftrightarrow>
     (\<forall>st addr ln' a'. y = (Ok (Stcp st, addr), ln', a') \<longrightarrow> accepted_from X Y T live port_of ln hs st addr ln' a')"

lemma accept_loop_Stcp:
  fixes Z :: "('y, 's) sys_stream" and X :: "('l, 'y, 's) sys_listener"
  assumes ret: "accept_loop Z X Y T ln hs a = Some y" and "socket_laws T live port_of"
  shows "accept_result_ok X Y T live port_of ln hs y"
proof -
  have "socket_laws T live port_of \<longrightarrow> accept_result_ok X Y T live port_of ln hs y"
  proof (rule accept_loop.raw_induct
      [where P = "\<lambda>Z X Y T ln hs a y. socket_laws T live port_of \<longrightarrow> accept_result_ok X Y T live port_of ln hs y", OF _ ret])
    fix f and Z :: "('y, 's) sys_stream" and X :: "('l, 'y, 's) sys_listener" and Y T ln hs a y
    assume IH: "\<And>(Z :: ('y, 's) sys_stream) (X :: ('l, 'y, 's) sys_listener) Y T ln hs a y.
        f Z X Y T ln hs a = Some y \<Longrightarrow> socket_laws T live port_of \<longrightarrow> accept_result_ok X Y T live port_of ln hs y"
      and body: "(case if ln_nonblocking ln then Some a else sy_wait Y a of None \<Rightarrow> None
        | Some a0 \<Rightarrow> accept_turn Z X Y T ln hs a0 (f Z X Y T ln hs)) = Some y"
    from body obtain a0 where turn: "accept_turn Z X Y T ln hs a0 (f Z X Y T ln hs) = Some y"
      by (auto split: option.splits)
    show "socket_laws T live port_of \<longrightarrow> accept_result_ok X Y T live port_of ln hs y"
      unfolding accept_result_ok_def
    proof (intro allI impI)
      fix st addr ln' a' assume laws: "socket_laws T live port_of" and y: "y = (Ok (Stcp st, addr), ln', a')"
      from accept_turn_Stcp [OF turn [unfolded y] laws] show "accepted_from X Y T live port_of ln hs st addr ln' a'"
        using IH [of Z X Y T ln hs] laws unfolding accept_result_ok_def by blast
    qed
  qed
  with assms(2) show ?thesis by simp
qed

subsection \<open>Properties\<close>

text \<open>C13: Accepting a connection of the stack keeps the pool, for a stack whose socket set hands out unused
  handles and whose \<open>listen\<close> listens. Let \<open>a1\<close> be the state after the system's listener had nothing to
  accept, in which the pool is scanned, and \<open>b\<close> the state in which the lock is taken again. In \<open>a1\<close> the
  accepted socket is the first established connection of the pool and the returned address is its
  peer. It leaves the pool, the others keep their order, and at the end comes a socket that was not in
  use in \<open>b\<close> and that listens on the port of the listener when the call returns; the sockets in use
  in \<open>b\<close> are as they were.\<close>

theorem accept_keeps_backlog:
  fixes X :: "('l, 'y, 's) sys_listener"
  assumes "socket_laws T live port_of"
    and "ln_handles ln = Some hs" and "listener_accept Z X Y T ln a = Some (Ok (Stcp st, addr), ln', a')"
  shows "\<exists>a0 e a1 a2 b pre post new.
    lo_accept X (ln_lo ln) a0 = Some (Err e, a1) \<and> stream_new (ss_handle st) (ln_nonblocking ln) a1 = (st, a2) \<and>
    b = sy_unlocked Y a2 \<and>
    hs = pre @ ss_handle st # post \<and> conn_ready T (api_stack a1) (ss_handle st) \<and>
    (\<forall>k \<in> set pre. \<not> conn_ready T (api_stack a1) k) \<and>
    endpoint_to_socket_addr (tcp_remote_endpoint T (ss_handle st) (api_stack a1)) = (Ok addr :: (_, io_error) outcome) \<and>
    ln_handles ln' = Some (pre @ post @ [new]) \<and> length (pre @ post @ [new]) = length hs \<and>
    new \<notin> live (api_stack b) \<and> live (api_stack a') = insert new (live (api_stack b)) \<and>
    port_of (api_stack a') new = Some (ln_port ln) \<and>
    (\<forall>k \<in> live (api_stack b). port_of (api_stack a') k = port_of (api_stack b) k)"
proof -
  from assms have "accept_loop Z X Y T ln hs a = Some (Ok (Stcp st, addr), ln', a')"
    by (simp add: listener_accept_def)
  from accept_loop_Stcp [OF this assms(1)] have "accepted_from X Y T live port_of ln hs st addr ln' a'"
    by (simp add: accept_result_ok_def)
  then obtain a0 e a1 a2 pre post new where w:
    "lo_accept X (ln_lo ln) a0 = Some (Err e, a1)" "stream_new (ss_handle st) (ln_nonblocking ln) a1 = (st, a2)"
    "hs = pre @ ss_handle st # post" "conn_ready T (api_stack a1) (ss_handle st)"
    "\<forall>k \<in> set pre. \<not> conn_ready T (api_stack a1) k"
    "endpoint_to_socket_addr (tcp_remote_endpoint T (ss_handle st) (api_stack a1)) = (Ok addr :: (_, io_error) outcome)"
    "ln' = ln\<lparr>ln_handles := Some (pre @ post @ [new])\<rparr>" "new \<notin> live (api_stack (sy_unlocked Y a2))"
    "live (api_stack a') = insert new (live (api_stack (sy_unlocked Y a2)))"
    "port_of (api_stack a') new = Some (ln_port ln)"
    "\<forall>k \<in> live (api_stack (sy_unlocked Y a2)). port_of (api_stack a') k = port_of (api_stack (sy_unlocked Y a2)) k"
    unfolding accepted_from_def by blast
  show ?thesis
    by (intro exI [of _ a0] exI [of _ e] exI [of _ a1] exI [of _ a2] exI [of _ "sy_unlocked Y a2"] exI [of _ pre]
        exI [of _ post] exI [of _ new]) (use w in simp)
qed

text \<open>C33: Dropping a loopback listener, whose descriptor was never registered with the background thread,
  makes the thread panic at its next turn.\<close>

theorem loopback_drop_kills_bg:
  assumes "ln_handles ln = None"
    and "lo_fd X (ln_lo ln) \<notin> set (bg_fds_extra b)" and "lo_fd X (ln_lo ln) \<notin> set (net_fds_add (api_net a))"
  shows "bg_prepare S (api_net (listener_drop X T ln a)) b = None"
proof -
  have "lo_fd X (ln_lo ln) \<in># mset (net_fds_remove (api_net (listener_drop X T ln a)))"
    using assms(1) by (simp add: listener_drop_def Let_def)
  moreover have "lo_fd X (ln_lo ln) \<notin># mset (bg_fds_extra b @ net_fds_add (api_net (listener_drop X T ln a)))"
    using assms by (simp add: listener_drop_def Let_def)
  ultimately show ?thesis unfolding bg_prepare_None_iff by (meson mset_subset_eqD)
qed

subsection \<open>Runs\<close>

text \<open>A system listener that has nothing to accept.\<close>

definition quiet_listener :: "(raw_fd, unit, 's) sys_listener" where
  "quiet_listener =
     \<lparr>lo_accept = \<lambda>_ a. Some (Err no_active, a), lo_fd = \<lambda>fd. fd,
      lo_local_addr = \<lambda>_ a. Some (Err no_active, a), lo_set_ttl = \<lambda>_ _ a. Some (Ok (), a),
      lo_take_error = \<lambda>_ a. Some (Ok None, a), lo_set_nonblocking = \<lambda>_ _ a. Some (Ok (), a)\<rparr>"

definition pool_listener :: "handle list option \<Rightarrow> raw_fd stcp_listener" where
  "pool_listener hs = \<lparr>ln_handles = hs, ln_lo = 9, ln_port = 80, ln_ttl = None, ln_nonblocking = True\<rparr>"

text \<open>
  A stack that keeps a table: how many sockets there are, and which port each listens on. Socket 1
  is an established connection from \<^verbatim>\<open>10.0.0.1:99\<close>.
\<close>

type_synonym table_stack = "nat \<times> (handle \<Rightarrow> u16 option)"

definition table_tcp :: "table_stack tcp_ops" where
  "table_tcp =
     \<lparr>tcp_new = \<lambda>_ _ (n, f). (n, (n + 1, f)), tcp_listen = \<lambda>h p (n, f). (Ok (), (n, f(h \<mapsto> p))),
      tcp_connect = \<lambda>_ _ _ s. (Ok (), s),
      tcp_is_active = \<lambda>h _. h = 1, tcp_may_recv = \<lambda>_ _. True, tcp_may_send = \<lambda>_ _. True,
      tcp_can_recv = \<lambda>_ _. True, tcp_can_send = \<lambda>_ _. True,
      tcp_recv_slice = \<lambda>_ _ s. (Ok [], s), tcp_peek_slice = \<lambda>_ _ s. (Ok [], s),
      tcp_send_slice = \<lambda>_ b s. (Ok (length b), s), tcp_set_hop_limit = \<lambda>_ _ s. s, tcp_hop_limit = \<lambda>_ _. None,
      tcp_local_endpoint = \<lambda>_ _. \<lparr>ep_addr = AddrV4 (Ipv4Addr 10 0 0 2), ep_port = 80\<rparr>,
      tcp_remote_endpoint = \<lambda>_ _. \<lparr>ep_addr = AddrV4 (Ipv4Addr 10 0 0 1), ep_port = 99\<rparr>,
      ep_is_specified = \<lambda>ep. ep_port ep \<noteq> 0, tcp_close = \<lambda>_ s. s, tcp_abort = \<lambda>_ s. s,
      set_release = \<lambda>_ s. s, set_retain = \<lambda>_ s. s, set_prune = \<lambda>s. s\<rparr>"

lemma table_laws: "socket_laws table_tcp (\<lambda>s. {..< fst s}) snd"
  by (auto simp: socket_laws_def table_tcp_def split: prod.splits)

definition table_api :: "nat \<Rightarrow> table_stack api" where
  "table_api n =
     \<lparr>api_net = net_new 3 (n, \<lambda>h. if h < n then Some 80 else None) 4 (0, 0) True 1 None 2,
      api_cells = \<lambda>_. default_cfg False, api_connected = \<lambda>_. None, api_fresh = 0\<rparr>"

theorem accept_keeps_backlog_witness:
  "\<forall>Z Y. \<exists>st addr ln' a' new. listener_accept Z quiet_listener Y table_tcp (pool_listener (Some [0, 1])) (table_api 2) =
       Some (Ok (Stcp st, addr), ln', a') \<and> ss_handle st = 1 \<and> addr = SockV4 (Ipv4Addr 10 0 0 1) 99 \<and>
       ln_handles ln' = Some [0, new] \<and> snd (api_stack a') new = Some 80"
proof (intro allI)
  fix Z :: "(unit, table_stack) sys_stream" and Y :: "table_stack sync_ops"
  let ?ln = "pool_listener (Some [0, 1])" and ?a = "table_api 2"
  have "\<exists>st addr ln' a'. listener_accept Z quiet_listener Y table_tcp ?ln ?a = Some (Ok (Stcp st, addr), ln', a') \<and>
      ss_handle st = 1"
    by (simp add: listener_accept_def pool_listener_def accept_loop.simps accept_turn_def quiet_listener_def
        conn_ready_def table_tcp_def endpoint_to_socket_addr_def stream_new_def new_cell_def replace_listening_def
        create_socket_def table_api_def net_new_def Let_def split: prod.splits)
  then obtain st addr ln' a' where run: "listener_accept Z quiet_listener Y table_tcp ?ln ?a =
      Some (Ok (Stcp st, addr), ln', a')" and st: "ss_handle st = 1"
    by blast
  have hs: "ln_handles ?ln = Some [0, 1]" by (simp add: pool_listener_def)
  from accept_keeps_backlog [OF table_laws hs run] st
  obtain pre post new where "[0, 1] = pre @ 1 # post" "ln_handles ln' = Some (pre @ post @ [new])"
    "snd (api_stack a') new = Some 80" "addr = SockV4 (Ipv4Addr 10 0 0 1) 99"
    by (auto simp: pool_listener_def table_tcp_def endpoint_to_socket_addr_def)
  moreover from this(1) have "pre = [0]" "post = []" by (auto simp: Cons_eq_append_conv)
  ultimately show "\<exists>st addr ln' a' new. listener_accept Z quiet_listener Y table_tcp ?ln ?a =
       Some (Ok (Stcp st, addr), ln', a') \<and> ss_handle st = 1 \<and> addr = SockV4 (Ipv4Addr 10 0 0 1) 99 \<and>
       ln_handles ln' = Some [0, new] \<and> snd (api_stack a') new = Some 80"
    using run st by auto
qed

theorem loopback_drop_kills_bg_witness:
  "\<forall>S. bg_prepare S (api_net (listener_drop quiet_listener open_tcp (pool_listener None) (tick_api (default_cfg False)))) bg_start = None"
proof
  fix S :: "nat stack_poll"
  show "bg_prepare S (api_net (listener_drop quiet_listener open_tcp (pool_listener None) (tick_api (default_cfg False)))) bg_start = None"
    by (rule loopback_drop_kills_bg) (simp_all add: pool_listener_def bg_start_def tick_api_def net_new_def)
qed

end
