(* ===== verification/UdpSock.thy ===== *)
theory UdpSock
  imports Listener
begin

text \<open>
  \<^verbatim>\<open>UdpSocket\<close> of \<^verbatim>\<open>apimultithread.rs\<close>: a socket of the user-space stack beside a
  loopback socket of the operating system. Receiving takes from the stack first, filters by
  the connected peer, and otherwise waits for the background thread.
\<close>

subsection \<open>State and operations underneath\<close>

record 'l udp_socket =
  us_handle :: "handle option"
  us_lo :: 'l
  us_cell :: cell

record 's udp_stack =
  udp_new :: "nat \<Rightarrow> nat \<Rightarrow> 's \<Rightarrow> handle \<times> 's"
    \<comment> \<open>number of packets and bytes of each of the two buffers\<close>
  udp_bind_port :: "handle \<Rightarrow> u16 \<Rightarrow> 's \<Rightarrow> (unit, ustr) outcome \<times> 's"
  udp_can_recv :: "handle \<Rightarrow> 's \<Rightarrow> bool"
  udp_can_send :: "handle \<Rightarrow> 's \<Rightarrow> bool"
  udp_recv_slice :: "handle \<Rightarrow> nat \<Rightarrow> 's \<Rightarrow> (bytes \<times> ip_endpoint, ustr) outcome \<times> 's"
  udp_peek_slice :: "handle \<Rightarrow> nat \<Rightarrow> 's \<Rightarrow> (bytes \<times> ip_endpoint, ustr) outcome \<times> 's"
  udp_send_slice :: "handle \<Rightarrow> bytes \<Rightarrow> socket_addr \<Rightarrow> 's \<Rightarrow> (unit, ustr) outcome \<times> 's"
  udp_endpoint :: "handle \<Rightarrow> 's \<Rightarrow> ip_endpoint"
  udp_set_hop_limit :: "handle \<Rightarrow> u8 option \<Rightarrow> 's \<Rightarrow> 's"
  iface_ips :: "'s \<Rightarrow> ip_address list"
    \<comment> \<open>the addresses of \<^verbatim>\<open>iface.ips()\<close>\<close>

text \<open>\<^verbatim>\<open>std::net::UdpSocket\<close>\<close>

record ('l, 's) sys_udp =
  lou_recv_from :: "'l \<Rightarrow> nat \<Rightarrow> ('s api, io_error, bytes \<times> socket_addr) prog"
  lou_peek_from :: "'l \<Rightarrow> nat \<Rightarrow> ('s api, io_error, bytes \<times> socket_addr) prog"
  lou_send_to :: "'l \<Rightarrow> bytes \<Rightarrow> socket_addr \<Rightarrow> ('s api, io_error, nat) prog"
  lou_fd :: "'l \<Rightarrow> raw_fd"
  lou_local_addr :: "'l \<Rightarrow> ('s api, io_error, socket_addr) prog"
  lou_try_clone :: "'l \<Rightarrow> ('s api, io_error, 'l) prog"
  lou_set_read_timeout :: "'l \<Rightarrow> duration option \<Rightarrow> ('s api, io_error, unit) prog"
  lou_set_write_timeout :: "'l \<Rightarrow> duration option \<Rightarrow> ('s api, io_error, unit) prog"
  lou_set_ttl :: "'l \<Rightarrow> u32 \<Rightarrow> ('s api, io_error, unit) prog"
  lou_ttl :: "'l \<Rightarrow> ('s api, io_error, u32) prog"
  lou_take_error :: "'l \<Rightarrow> ('s api, io_error, io_error option) prog"
  lou_connect :: "'l \<Rightarrow> socket_addr \<Rightarrow> ('s api, io_error, unit) prog"
  lou_set_nonblocking :: "'l \<Rightarrow> bool \<Rightarrow> ('s api, io_error, unit) prog"

subsection \<open>Receiving\<close>

text \<open>The condition under which a datagram is kept: the peer, or a wildcard address or port.\<close>

definition peer_accepts :: "socket_addr \<Rightarrow> socket_addr \<Rightarrow> bool" where
  "peer_accepts conn sa \<longleftrightarrow>
     sa = conn \<or> (is_unspecified (sa_ip conn) \<and> sa_port conn = 0) \<or>
     (is_unspecified (sa_ip conn) \<and> sa_port sa = sa_port conn) \<or>
     (sa_port conn = 0 \<and> sa_ip conn = sa_ip sa)"

fun udp_result :: "(bytes \<times> ip_endpoint, ustr) outcome \<Rightarrow> (bytes \<times> socket_addr, io_error) outcome" where
  "udp_result (Ok (d, ep)) =
     (case endpoint_to_socket_addr ep of Ok sa \<Rightarrow> Ok (d, sa) | Err e \<Rightarrow> Err e | Panic \<Rightarrow> Panic)"
| "udp_result (Err t) = Err (io_error_new KOther t)"
| "udp_result Panic = Panic"

definition filtered :: "socket_addr option \<Rightarrow> (bytes \<times> socket_addr, io_error) outcome \<Rightarrow> bool" where
  "filtered conn r =
     (case (conn, r) of (Some c, Ok (_, sa)) \<Rightarrow> \<not> peer_accepts c sa | _ \<Rightarrow> False)"

definition recv_not_ready :: io_error where
  "recv_not_ready = would_block (lit ''recv not ready'')"

text \<open>\<open>again\<close> is the next turn of the loop.\<close>

definition udp_wait where
  "udp_wait Y c start a again =
     (if cf_nonblocking (api_cells a c) then Some (Err recv_not_ready, a)
      else case cf_read_timeout (api_cells a c) of
             Some d \<Rightarrow>
               (case sy_deadline Y start d of
                  None \<Rightarrow> Some (Panic, a)
                | Some t \<Rightarrow>
                    (case sy_wait_until Y t a of
                       None \<Rightarrow> None
                     | Some (timed_out, a') \<Rightarrow> if timed_out then Some (Err recv_not_ready, a') else again a'))
           | None \<Rightarrow> (case sy_wait Y a of None \<Rightarrow> None | Some a' \<Rightarrow> again a'))"

text \<open>The two calls, on the stack and on the loopback socket, that \<open>recv\<close> chooses between.\<close>

definition udp_take where
  "udp_take V h recv n = (if recv then udp_recv_slice V h n else udp_peek_slice V h n)"

definition udp_lo_recv where
  "udp_lo_recv N us recv n = (if recv then lou_recv_from N (us_lo us) n else lou_peek_from N (us_lo us) n)"

definition udp_recv_turn where
  "udp_recv_turn N V Y us h recv n start a again =
     (let c = us_cell us
      in if udp_can_recv V h (api_stack a) then
           (case with_stack (udp_take V h recv n) a of
              (out, a1) \<Rightarrow>
                let r = udp_result out
                in if filtered (api_connected a1 c) r then again a1 else Some (r, a1))
         else if api_connected a c = None then
           (case udp_lo_recv N us recv n a of
              None \<Rightarrow> None
            | Some (Err e, a1) \<Rightarrow>
                if io_kind e = KWouldBlock then udp_wait Y c start a1 again else Some (Err e, a1)
            | Some (out, a1) \<Rightarrow> Some (out, a1))
         else udp_wait Y c start a again)"

lemma udp_recv_turn_cases [simp]:
  "udp_can_recv V h (api_stack a) \<Longrightarrow> with_stack (udp_take V h recv n) a = (out, a1) \<Longrightarrow>
   udp_recv_turn N V Y us h recv n start a again =
     (if filtered (api_connected a1 (us_cell us)) (udp_result out) then again a1 else Some (udp_result out, a1))"
  "\<not> udp_can_recv V h (api_stack a) \<Longrightarrow> api_connected a (us_cell us) = None \<Longrightarrow>
   udp_lo_recv N us recv n a = None \<Longrightarrow> udp_recv_turn N V Y us h recv n start a again = None"
  "\<not> udp_can_recv V h (api_stack a) \<Longrightarrow> api_connected a (us_cell us) = None \<Longrightarrow>
   udp_lo_recv N us recv n a = Some (Err e, a1) \<Longrightarrow>
   udp_recv_turn N V Y us h recv n start a again =
     (if io_kind e = KWouldBlock then udp_wait Y (us_cell us) start a1 again else Some (Err e, a1))"
  "\<not> udp_can_recv V h (api_stack a) \<Longrightarrow> api_connected a (us_cell us) = None \<Longrightarrow>
   udp_lo_recv N us recv n a = Some (Ok r, a1) \<Longrightarrow>
   udp_recv_turn N V Y us h recv n start a again = Some (Ok r, a1)"
  "\<not> udp_can_recv V h (api_stack a) \<Longrightarrow> api_connected a (us_cell us) = None \<Longrightarrow>
   udp_lo_recv N us recv n a = Some (Panic, a1) \<Longrightarrow>
   udp_recv_turn N V Y us h recv n start a again = Some (Panic, a1)"
  "\<not> udp_can_recv V h (api_stack a) \<Longrightarrow> api_connected a (us_cell us) \<noteq> None \<Longrightarrow>
   udp_recv_turn N V Y us h recv n start a again = udp_wait Y (us_cell us) start a again"
  by (simp_all add: udp_recv_turn_def Let_def del: not_None_eq)

lemma udp_wait_mono [partial_function_mono]:
  fixes again :: "('x \<Rightarrow> 'z option) \<Rightarrow> _"
  assumes "\<And>a1. mono_option (\<lambda>f. again f a1)"
  shows "mono_option (\<lambda>f. udp_wait Y c start a (again f))"
proof -
  have const: "mono_option (\<lambda>f :: 'x \<Rightarrow> 'z option. x)" for x
    by (rule monotoneI) (simp add: flat_ord_def)
  show ?thesis
    by (cases "cf_nonblocking (api_cells a c)"; cases "cf_read_timeout (api_cells a c)"; cases "sy_wait Y a";
        cases "sy_deadline Y start (the (cf_read_timeout (api_cells a c)))";
        cases "sy_wait_until Y (the (sy_deadline Y start (the (cf_read_timeout (api_cells a c))))) a")
      (auto simp: udp_wait_def const assms split: prod.splits intro: if_mono)
qed

lemma udp_recv_turn_mono [partial_function_mono]:
  fixes again :: "('x \<Rightarrow> 'z option) \<Rightarrow> _"
  assumes "\<And>a1. mono_option (\<lambda>f. again f a1)"
  shows "mono_option (\<lambda>f. udp_recv_turn N V Y us h recv n start a (again f))"
proof -
  have const: "mono_option (\<lambda>f :: 'x \<Rightarrow> 'z option. x)" for x
    by (rule monotoneI) (simp add: flat_ord_def)
  have wait: "mono_option (\<lambda>f. udp_wait Y c start b (again f))" for b c
    by (rule udp_wait_mono) (rule assms)
  obtain out a1 where w: "with_stack (udp_take V h recv n) a = (out, a1)" by fastforce
  consider (stack) "udp_can_recv V h (api_stack a)"
    | (lo) "\<not> udp_can_recv V h (api_stack a)" "api_connected a (us_cell us) = None"
    | (conn) "\<not> udp_can_recv V h (api_stack a)" "api_connected a (us_cell us) \<noteq> None" by blast
  then show ?thesis
  proof cases
    case stack
    then show ?thesis
      by (cases "filtered (api_connected a1 (us_cell us)) (udp_result out)") (simp_all add: w const assms)
  next
    case lo
    consider "udp_lo_recv N us recv n a = None" | e a2 where "udp_lo_recv N us recv n a = Some (Err e, a2)"
      | r a2 where "udp_lo_recv N us recv n a = Some (Ok r, a2)"
      | a2 where "udp_lo_recv N us recv n a = Some (Panic, a2)"
      by (metis option.exhaust outcome.exhaust surj_pair)
    then show ?thesis
    proof cases
      case (2 e a2)
      with lo show ?thesis by (cases "io_kind e = KWouldBlock") (simp_all add: const wait)
    qed (use lo const in simp_all)
  next
    case conn
    then show ?thesis by (simp add: wait)
  qed
qed

partial_function (option) udp_recv_loop ::
  "('l, 's) sys_udp \<Rightarrow> 's udp_stack \<Rightarrow> 's sync_ops \<Rightarrow> 'l udp_socket \<Rightarrow> handle \<Rightarrow> bool \<Rightarrow> nat \<Rightarrow> nat \<Rightarrow>
   ('s api, io_error, bytes \<times> socket_addr) prog" where
  "udp_recv_loop N V Y us h recv n start a =
     udp_recv_turn N V Y us h recv n start a (\<lambda>a1. udp_recv_loop N V Y us h recv n start a1)"

definition peek_or_recv_from where
  "peek_or_recv_from N V Y us recv n a =
     (if us_handle us = None \<or>
         (case api_connected a (us_cell us) of Some sa \<Rightarrow> is_loopback (sa_ip sa) | None \<Rightarrow> False)
      then udp_lo_recv N us recv n a
      else udp_recv_loop N V Y us (the (us_handle us)) recv n (sy_now Y a) a)"

definition us_recv_from where
  "us_recv_from N V Y us n = peek_or_recv_from N V Y us True n"

definition us_peek_from where
  "us_peek_from N V Y us n = peek_or_recv_from N V Y us False n"

subsection \<open>Sending\<close>

definition us_set_nonblocking where
  "us_set_nonblocking N us nb a =
     pbind (lou_set_nonblocking N (us_lo us)
              (case api_connected a (us_cell us) of
                 Some addr \<Rightarrow> if \<not> nb then \<not> is_loopback (sa_ip addr) else True
               | None \<Rightarrow> if us_handle us \<noteq> None then True else nb))
       (\<lambda>_ a1. Some (Ok (), upd_cell (us_cell us) (\<lambda>c. c\<lparr>cf_nonblocking := nb\<rparr>) a1)) a"

definition send_not_ready :: io_error where
  "send_not_ready = would_block (lit ''send not ready'')"

text \<open>The wait for room in the send buffer; the deadline is the read timeout of the socket.\<close>

definition udp_send_check :: "'s udp_stack \<Rightarrow> handle \<Rightarrow> 's \<Rightarrow> readiness" where
  "udp_send_check V h s = (if udp_can_send V h s then IsReady else NotReady)"

definition udp_send_loopback where
  "udp_send_loopback N us buf addr a =
     pbind (\<lambda>a. if us_handle us \<noteq> None \<and> \<not> cf_nonblocking (api_cells a (us_cell us))
                then lou_set_nonblocking N (us_lo us) False a else Some (Ok (), a)) (\<lambda>_ a1.
       case lou_send_to N (us_lo us) buf addr a1 of
         None \<Rightarrow> None
       | Some (Panic, a2) \<Rightarrow> Some (Panic, a2)
       | Some (r, a2) \<Rightarrow>
           if us_handle us \<noteq> None \<and> \<not> cf_nonblocking (api_cells a2 (us_cell us))
           then pbind (us_set_nonblocking N us (cf_nonblocking (api_cells a2 (us_cell us)))) (\<lambda>_ a3. Some (r, a3)) a2
           else Some (r, a2)) a"

definition us_send_to where
  "us_send_to N V Y cap us buf addr a =
     (if us_handle us = None \<or> is_loopback (sa_ip addr) then udp_send_loopback N us buf addr a
      else
        let h = the (us_handle us)
        in case wait_ready Y (udp_send_check V h) cf_read_timeout (us_cell us) (sy_now Y a) a of
             None \<Rightarrow> None
           | Some (WBlocked, a1) \<Rightarrow> Some (Err send_not_ready, a1)
           | Some (WPanic, a1) \<Rightarrow> Some (Panic, a1)
           | Some (_, a1) \<Rightarrow>
               pbind (transfer (udp_send_slice V h buf addr) (wake_bg cap)) (\<lambda>_. pret (length buf)) a1)"

definition us_send where
  "us_send N V Y cap us buf a =
     (case api_connected a (us_cell us) of
        Some c \<Rightarrow> us_send_to N V Y cap us buf c a
      | None \<Rightarrow> Some (Err (io_error_new KInvalidInput (lit ''not connected'')), a))"

definition us_recv where
  "us_recv N V Y us n a =
     (if api_connected a (us_cell us) = None
      then Some (Err (io_error_new KInvalidInput (lit ''not connected'')), a)
      else pbind (us_recv_from N V Y us n) (\<lambda>(d, _). pret d) a)"

definition us_peek where
  "us_peek N V Y us n a =
     (if api_connected a (us_cell us) = None
      then Some (Err (io_error_new KInvalidInput (lit ''not connected'')), a)
      else pbind (us_peek_from N V Y us n) (\<lambda>(d, _). pret d) a)"

subsection \<open>Settings\<close>

definition us_connect where
  "us_connect N V us addr a =
     pbind (\<lambda>a. if \<not> cf_nonblocking (api_cells a (us_cell us))
                then lou_set_nonblocking N (us_lo us) (is_loopback (sa_ip addr)) a
                else Some (Ok (), a)) (\<lambda>_ a1.
       pbind (pindex (iface_ips V (api_stack a1)) 0) (\<lambda>ipv4 a2.
         if is_loopback (sa_ip addr) \<or> ip_address_from (sa_ip addr) = ipv4
         then lou_connect N (us_lo us) addr
                (a2\<lparr>api_connected := (api_connected a2)
                      (us_cell us := Some (socket_addr_new (V4 (Ipv4Addr 127 0 0 1)) (sa_port addr)))\<rparr>)
         else Some (Ok (), a2\<lparr>api_connected := (api_connected a2)(us_cell us := Some addr)\<rparr>)) a1) a"

definition us_local_addr where
  "us_local_addr N V us a =
     (case us_handle us of
        None \<Rightarrow> lou_local_addr N (us_lo us) a
      | Some h \<Rightarrow> Some (endpoint_to_socket_addr (udp_endpoint V h (api_stack a)), a))"

definition us_try_clone where
  "us_try_clone N T us a =
     (let a1 = (case us_handle us of Some h \<Rightarrow> upd_stack (set_retain T h) a | None \<Rightarrow> a)
      in pbind (lou_try_clone N (us_lo us))
           (\<lambda>lo. pret \<lparr>us_handle = us_handle us, us_lo = lo, us_cell = us_cell us\<rparr>) a1)"

definition us_set_read_timeout where
  "us_set_read_timeout N us dur a =
     lou_set_read_timeout N (us_lo us) dur (upd_cell (us_cell us) (\<lambda>c. c\<lparr>cf_read_timeout := dur\<rparr>) a)"

definition us_set_write_timeout where
  "us_set_write_timeout N us dur a =
     lou_set_write_timeout N (us_lo us) dur (upd_cell (us_cell us) (\<lambda>c. c\<lparr>cf_write_timeout := dur\<rparr>) a)"

definition us_read_timeout where
  "us_read_timeout us a = Some (Ok (cf_read_timeout (api_cells a (us_cell us))), a)"

definition us_write_timeout where
  "us_write_timeout us a = Some (Ok (cf_write_timeout (api_cells a (us_cell us))), a)"

definition us_set_ttl where
  "us_set_ttl N V us ttl a =
     (let a1 = (case us_handle us of
                  Some h \<Rightarrow> upd_stack (udp_set_hop_limit V h (Some (ucast (ttl :: u32)))) a
                | None \<Rightarrow> a)
      in lou_set_ttl N (us_lo us) ttl a1)"

definition us_ttl where
  "us_ttl N us = lou_ttl N (us_lo us)"

definition us_take_error where
  "us_take_error N us = lou_take_error N (us_lo us)"

text \<open>
  Broadcast, multicast options and group membership are declared and not implemented: the calls
  panic.
\<close>

definition us_unsupported :: "('s api, io_error, 'a) prog" where
  "us_unsupported = ppanic"

definition us_membership :: "('s api, io_error, unit) prog" where
  "us_membership = ppanic"

definition us_drop :: "('l, 's) sys_udp \<Rightarrow> 's tcp_ops \<Rightarrow> 'l udp_socket \<Rightarrow> 's api \<Rightarrow> 's api" where
  "us_drop N T us a =
     (let net = api_net a;
          a1 = a\<lparr>api_net := net\<lparr>net_fds_remove := net_fds_remove net @ [lou_fd N (us_lo us)]\<rparr>\<rparr>
      in case us_handle us of
           None \<Rightarrow> a1
         | Some h \<Rightarrow> upd_stack (\<lambda>s. set_prune T (set_release T h s)) a1)"

subsection \<open>Facts\<close>

text \<open>Receiving on the loopback socket does not change which peer a socket is connected to.\<close>

definition lo_keeps_peer :: "('l, 's) sys_udp \<Rightarrow> bool" where
  "lo_keeps_peer N \<longleftrightarrow>
     (\<forall>l n a out a1. lou_recv_from N l n a = Some (out, a1) \<or> lou_peek_from N l n a = Some (out, a1) \<longrightarrow>
        api_connected a1 = api_connected a)"

definition recv_result_ok :: "'l udp_socket \<Rightarrow> (bytes \<times> socket_addr, io_error) outcome \<times> 's api \<Rightarrow> bool" where
  "recv_result_ok us y \<longleftrightarrow>
     (\<forall>d sa a' c. y = (Ok (d, sa), a') \<longrightarrow> api_connected a' (us_cell us) = Some c \<longrightarrow> peer_accepts c sa)"

lemma udp_wait_cases:
  assumes "udp_wait Y c start a again = Some y"
  shows "(\<exists>a1. y = (Err recv_not_ready, a1) \<or> y = (Panic, a1)) \<or> (\<exists>a1. again a1 = Some y)"
  using assms by (auto simp: udp_wait_def split: if_splits option.splits prod.splits)

lemma udp_wait_ok:
  assumes "udp_wait Y c start a again = Some y"
  shows "recv_result_ok us y \<or> (\<exists>a1. again a1 = Some y)"
  using udp_wait_cases [OF assms] by (auto simp: recv_result_ok_def)

lemma udp_recv_turn_ok:
  assumes "lo_keeps_peer N" and ret: "udp_recv_turn N V Y us h recv n start a again = Some y"
  shows "recv_result_ok us y \<or> (\<exists>a1. again a1 = Some y)"
proof -
  consider (stack) "udp_can_recv V h (api_stack a)"
    | (lo) "\<not> udp_can_recv V h (api_stack a)" "api_connected a (us_cell us) = None"
    | (conn) "\<not> udp_can_recv V h (api_stack a)" "api_connected a (us_cell us) \<noteq> None" by blast
  then show ?thesis
  proof cases
    case stack
    obtain out a1 where w: "with_stack (udp_take V h recv n) a = (out, a1)" by fastforce
    show ?thesis
    proof (cases "filtered (api_connected a1 (us_cell us)) (udp_result out)")
      case True
      with ret stack w show ?thesis by auto
    next
      case False
      with ret stack w have "y = (udp_result out, a1)" by simp
      with False show ?thesis by (auto simp: recv_result_ok_def filtered_def)
    qed
  next
    case lo
    consider (none) "udp_lo_recv N us recv n a = None" | (err) e a2 where "udp_lo_recv N us recv n a = Some (Err e, a2)"
      | (ok) r a2 where "udp_lo_recv N us recv n a = Some (Ok r, a2)"
      | (panic) a2 where "udp_lo_recv N us recv n a = Some (Panic, a2)"
      by (metis option.exhaust outcome.exhaust surj_pair)
    then show ?thesis
    proof cases
      case none
      with ret lo show ?thesis by simp
    next
      case (err e a2)
      show ?thesis
      proof (cases "io_kind e = KWouldBlock")
        case True
        with ret lo err have "udp_wait Y (us_cell us) start a2 again = Some y" by simp
        then show ?thesis by (rule udp_wait_ok)
      qed (use ret lo err in \<open>auto simp: recv_result_ok_def\<close>)
    next
      case (ok r a2)
      then have "api_connected a2 = api_connected a"
        using assms(1) by (auto simp: lo_keeps_peer_def udp_lo_recv_def split: if_splits)
      with ret lo ok show ?thesis by (auto simp: recv_result_ok_def)
    next
      case (panic a2)
      with ret lo show ?thesis by (auto simp: recv_result_ok_def)
    qed
  next
    case conn
    with ret have "udp_wait Y (us_cell us) start a again = Some y" by simp
    then show ?thesis by (rule udp_wait_ok)
  qed
qed

lemma udp_recv_loop_ok:
  fixes N :: "('l, 's) sys_udp" and us :: "'l udp_socket" and a :: "'s api"
  assumes ret: "udp_recv_loop N V Y us h recv n start a = Some y" and "lo_keeps_peer N"
  shows "recv_result_ok us y"
proof -
  have "lo_keeps_peer N \<longrightarrow> recv_result_ok us y"
  proof (rule udp_recv_loop.raw_induct
      [where P = "\<lambda>N V Y us h recv n start a y. lo_keeps_peer N \<longrightarrow> recv_result_ok us y", OF _ ret])
    fix f and N :: "('l, 's) sys_udp" and V Y us h recv n start a y
    assume IH: "\<And>(N :: ('l, 's) sys_udp) V Y us h recv n start a y.
        f N V Y us h recv n start a = Some y \<Longrightarrow> lo_keeps_peer N \<longrightarrow> recv_result_ok us y"
      and body: "udp_recv_turn N V Y us h recv n start a (f N V Y us h recv n start) = Some y"
    show "lo_keeps_peer N \<longrightarrow> recv_result_ok us y"
      using udp_recv_turn_ok [OF _ body] IH by blast
  qed
  with assms(2) show ?thesis by simp
qed

text \<open>A datagram that is not from the peer stays at the head of the queue when it is only peeked at.\<close>

definition stray_head :: "'s udp_stack \<Rightarrow> 'l udp_socket \<Rightarrow> handle \<Rightarrow> nat \<Rightarrow> 's api \<Rightarrow> bool" where
  "stray_head V us h n a \<longleftrightarrow>
     udp_can_recv V h (api_stack a) \<and>
     (\<exists>d ep sa c. udp_peek_slice V h n (api_stack a) = (Ok (d, ep), api_stack a) \<and>
        endpoint_to_socket_addr ep = (Ok sa :: (socket_addr, io_error) outcome) \<and>
        api_connected a (us_cell us) = Some c \<and> \<not> peer_accepts c sa)"

lemma udp_peek_turn_stray:
  assumes "stray_head V us h n a"
  shows "udp_recv_turn N V Y us h False n start a again = again a"
  using assms
  by (auto simp: stray_head_def udp_recv_turn_def udp_take_def with_stack_def filtered_def Let_def)

lemma udp_peek_loop_stray:
  fixes N :: "('l, 's) sys_udp"
  assumes "stray_head V us h n a"
  shows "udp_recv_loop N V Y us h False n start a = None"
proof (rule ccontr)
  assume "udp_recv_loop N V Y us h False n start a \<noteq> None"
  then obtain y where ret: "udp_recv_loop N V Y us h False n start a = Some y" by blast
  have "\<not> (stray_head V us h n a \<and> \<not> False)"
  proof (rule udp_recv_loop.raw_induct
      [where P = "\<lambda>N V Y us h recv n start a y. \<not> (stray_head V us h n a \<and> \<not> recv)", OF _ ret])
    fix f and N :: "('l, 's) sys_udp" and V Y us h recv n start a y
    assume IH: "\<And>(N :: ('l, 's) sys_udp) V Y us h recv n start a y.
        f N V Y us h recv n start a = Some y \<Longrightarrow> \<not> (stray_head V us h n a \<and> \<not> recv)"
      and body: "udp_recv_turn N V Y us h recv n start a (f N V Y us h recv n start) = Some y"
    show "\<not> (stray_head V us h n a \<and> \<not> recv)"
    proof
      assume s: "stray_head V us h n a \<and> \<not> recv"
      with body udp_peek_turn_stray [of V us h n a N Y start] have "f N V Y us h recv n start a = Some y"
        by simp
      from IH [OF this] s show False by blast
    qed
  qed
  with assms show False by simp
qed

subsection \<open>Properties\<close>

text \<open>C15: A datagram that \<open>recv_from\<close> returns on a socket connected to a peer outside this machine is
  from that peer. If the peer has an address and a port, the sender is exactly it; port zero stands
  for every port of the address, the unspecified address for every address with the port. The peer is
  the one the socket is connected to when the call returns.\<close>

theorem connected_udp_filters:
  assumes "us_handle us = Some h" and "api_connected a (us_cell us) = Some c0" and "\<not> is_loopback (sa_ip c0)"
    and "lo_keeps_peer N" and "us_recv_from N V Y us n a = Some (Ok (d, sa), a')"
    and "api_connected a' (us_cell us) = Some c"
  shows "if is_unspecified (sa_ip c) then sa_port c = 0 \<or> sa_port sa = sa_port c
    else if sa_port c = 0 then sa_ip sa = sa_ip c
    else sa = c"
  using udp_recv_loop_ok [of N V Y us h True n "sy_now Y a" a "(Ok (d, sa), a')"] assms
  by (auto simp: us_recv_from_def peek_or_recv_from_def recv_result_ok_def peer_accepts_def)

text \<open>Peeking does not take a datagram of someone else out of the way: with one at the head of the queue,
  \<open>peek\<close> on a connected socket spins forever, holding the lock.\<close>

theorem udp_peek_spins:
  assumes "us_handle us = Some h" and "stray_head V us h n a"
    and "api_connected a (us_cell us) = Some c" and "\<not> is_loopback (sa_ip c)"
  shows "us_peek N V Y us n a = None"
  using udp_peek_loop_stray [OF assms(2), of N Y "sy_now Y a"] assms
  by (simp add: us_peek_def us_peek_from_def peek_or_recv_from_def pbind_None)

subsection \<open>Runs\<close>

text \<open>A stack with one datagram from \<^verbatim>\<open>10.0.0.1:99\<close> that never goes away.\<close>

definition one_datagram :: "nat udp_stack" where
  "one_datagram =
     \<lparr>udp_new = \<lambda>_ _ s. (s, s + 1), udp_bind_port = \<lambda>_ _ s. (Ok (), s),
      udp_can_recv = \<lambda>_ _. True, udp_can_send = \<lambda>_ _. True,
      udp_recv_slice = \<lambda>_ _ s. (Ok ([1], \<lparr>ep_addr = AddrV4 (Ipv4Addr 10 0 0 1), ep_port = 99\<rparr>), s),
      udp_peek_slice = \<lambda>_ _ s. (Ok ([1], \<lparr>ep_addr = AddrV4 (Ipv4Addr 10 0 0 1), ep_port = 99\<rparr>), s),
      udp_send_slice = \<lambda>_ _ _ s. (Ok (), s),
      udp_endpoint = \<lambda>_ _. \<lparr>ep_addr = AddrUnspecified, ep_port = 1\<rparr>,
      udp_set_hop_limit = \<lambda>_ _ s. s, iface_ips = \<lambda>_. [AddrV4 (Ipv4Addr 10 0 0 2)]\<rparr>"

definition peer_api :: "socket_addr \<Rightarrow> nat api" where
  "peer_api c = (tick_api (default_cfg True))\<lparr>api_connected := \<lambda>_. Some c\<rparr>"

definition plain_udp :: "unit udp_socket" where
  "plain_udp = \<lparr>us_handle = Some 0, us_lo = (), us_cell = 0\<rparr>"

text \<open>A loopback socket on which nothing arrives.\<close>

definition quiet_lo :: "(unit, nat) sys_udp" where
  "quiet_lo =
     \<lparr>lou_recv_from = \<lambda>_ _ a. Some (Err recv_not_ready, a), lou_peek_from = \<lambda>_ _ a. Some (Err recv_not_ready, a),
      lou_send_to = \<lambda>_ buf _ a. Some (Ok (length buf), a), lou_fd = \<lambda>_. 9,
      lou_local_addr = \<lambda>_ a. Some (Ok (SockV4 (Ipv4Addr 127 0 0 1) 99), a), lou_try_clone = \<lambda>l a. Some (Ok l, a),
      lou_set_read_timeout = \<lambda>_ _ a. Some (Ok (), a), lou_set_write_timeout = \<lambda>_ _ a. Some (Ok (), a),
      lou_set_ttl = \<lambda>_ _ a. Some (Ok (), a), lou_ttl = \<lambda>_ a. Some (Ok 64, a),
      lou_take_error = \<lambda>_ a. Some (Ok None, a), lou_connect = \<lambda>_ _ a. Some (Ok (), a),
      lou_set_nonblocking = \<lambda>_ _ a. Some (Ok (), a)\<rparr>"

lemma quiet_lo_keeps_peer: "lo_keeps_peer quiet_lo"
  by (auto simp: lo_keeps_peer_def quiet_lo_def)

theorem connected_udp_filters_witness:
  "\<exists>sa. us_recv_from quiet_lo one_datagram tick_sync plain_udp 5 (peer_api (SockV4 (Ipv4Addr 10 0 0 1) 99)) =
     Some (Ok ([1], sa), peer_api (SockV4 (Ipv4Addr 10 0 0 1) 99)) \<and> sa = SockV4 (Ipv4Addr 10 0 0 1) 99"
proof -
  let ?c = "SockV4 (Ipv4Addr 10 0 0 1) 99"
  have "\<exists>sa. us_recv_from quiet_lo one_datagram tick_sync plain_udp 5 (peer_api ?c) = Some (Ok ([1], sa), peer_api ?c)"
    unfolding us_recv_from_def peek_or_recv_from_def
    by (subst udp_recv_loop.simps)
      (simp add: plain_udp_def udp_recv_turn_def udp_take_def one_datagram_def with_stack_def
        endpoint_to_socket_addr_def filtered_def peer_accepts_def peer_api_def tick_api_def net_new_def Let_def)
  then obtain sa where run: "us_recv_from quiet_lo one_datagram tick_sync plain_udp 5 (peer_api ?c) =
      Some (Ok ([1], sa), peer_api ?c)" by blast
  with connected_udp_filters [OF _ _ _ quiet_lo_keeps_peer run, of 0 ?c ?c] show ?thesis
    by (simp add: plain_udp_def peer_api_def)
qed

theorem udp_peek_spins_witness:
  "us_peek quiet_lo one_datagram tick_sync plain_udp 5 (peer_api (SockV4 (Ipv4Addr 10 0 0 7) 53)) = None"
  by (rule udp_peek_spins [where h = 0 and c = "SockV4 (Ipv4Addr 10 0 0 7) 53"])
    (simp_all add: plain_udp_def peer_api_def stray_head_def one_datagram_def endpoint_to_socket_addr_def
      peer_accepts_def)

end
