(* ===== verification/Utf8.thy ===== *)
theory Utf8
  imports Io
begin

text \<open>
  \<^verbatim>\<open>str::from_utf8\<close> of the standard library, as the system queries and the host name
  use it, and \<^verbatim>\<open>resolve/hostname.rs\<close>. The decoder rejects overlong forms, surrogates
  and values beyond the Unicode range, so it is the inverse of \<open>as_bytes\<close> on scalar values.
\<close>

subsection \<open>Decoding\<close>

definition is_scalar :: "nat \<Rightarrow> bool" where
  "is_scalar c \<longleftrightarrow> c < 0xD800 \<or> (0xE000 \<le> c \<and> c < 0x110000)"

definition is_cont :: "nat \<Rightarrow> bool" where
  "is_cont b \<longleftrightarrow> 128 \<le> b \<and> b < 192"

definition if_scalar :: "nat \<Rightarrow> nat \<Rightarrow> nat list \<Rightarrow> (nat \<times> nat list) option" where
  "if_scalar least c rest = (if least \<le> c \<and> is_scalar c then Some (c, rest) else None)"

text \<open>One character from the front of the octets.\<close>

fun utf8_next :: "nat list \<Rightarrow> (nat \<times> nat list) option" where
  "utf8_next [] = None"
| "utf8_next (b # bs) =
     (if b < 128 then Some (b, bs)
      else if b < 192 then None
      else if b < 224 then
        (case bs of
           c # rest \<Rightarrow> if is_cont c then if_scalar 128 ((b - 192) * 64 + (c - 128)) rest else None
         | _ \<Rightarrow> None)
      else if b < 240 then
        (case bs of
           c # d # rest \<Rightarrow>
             if is_cont c \<and> is_cont d
             then if_scalar 2048 ((b - 224) * 4096 + (c - 128) * 64 + (d - 128)) rest else None
         | _ \<Rightarrow> None)
      else if b < 248 then
        (case bs of
           c # d # e # rest \<Rightarrow>
             if is_cont c \<and> is_cont d \<and> is_cont e
             then if_scalar 65536 ((b - 240) * 262144 + (c - 128) * 4096 + (d - 128) * 64 + (e - 128)) rest
             else None
         | _ \<Rightarrow> None)
      else None)"

lemma utf8_next_shorter: "utf8_next bs = Some (c, rest) \<Longrightarrow> length rest < length bs"
  by (cases bs) (auto simp: if_scalar_def split: if_splits list.splits)

function utf8_decode :: "nat list \<Rightarrow> ustr option" where
  "utf8_decode bs =
     (if bs = [] then Some []
      else case utf8_next bs of
             None \<Rightarrow> None
           | Some (c, rest) \<Rightarrow> map_option (Cons c) (utf8_decode rest))"
  by pat_completeness auto
termination
  by (relation "measure length") (auto dest: utf8_next_shorter)

declare utf8_decode.simps [simp del]

definition from_utf8 :: "bytes \<Rightarrow> ustr option" where
  "from_utf8 bs = utf8_decode (map unat bs)"

subsection \<open>Decoding inverts encoding\<close>

lemma utf8_split_64: "(n :: nat) div 64 * 64 + n mod 64 = n"
  by simp

lemma utf8_next_char:
  assumes "is_scalar c"
  shows "utf8_next (map unat (utf8_char c) @ bs) = Some (c, bs)"
proof -
  have c: "c < 0x110000" using assms by (auto simp: is_scalar_def)
  consider (one) "c < 128" | (two) "128 \<le> c" "c < 2048" | (three) "2048 \<le> c" "c < 65536" | (four) "65536 \<le> c"
    by linarith
  then show ?thesis
  proof cases
    case one
    then show ?thesis by (simp add: utf8_char_def unat_u8_of_nat)
  next
    case two
    then have "c div 64 < 32" "2 \<le> c div 64" by (simp_all add: less_mult_imp_div_less div_le_mono [of 128 c 64, simplified])
    with two assms show ?thesis
      by (simp add: utf8_char_def unat_u8_of_nat is_cont_def if_scalar_def del: of_nat_add)
  next
    case three
    have "c div 4096 < 16" using three by (simp add: less_mult_imp_div_less)
    moreover have "c div 4096 * 4096 + c div 64 mod 64 * 64 + c mod 64 = c"
    proof -
      have "c div 4096 = c div 64 div 64" by (simp flip: div_mult2_eq)
      then show ?thesis using utf8_split_64 [of "c div 64"] utf8_split_64 [of c] by linarith
    qed
    ultimately show ?thesis using three assms
      by (simp add: utf8_char_def unat_u8_of_nat is_cont_def if_scalar_def del: of_nat_add)
  next
    case four
    have "c div 262144 < 5" using c by (simp add: less_mult_imp_div_less)
    moreover have "c div 262144 * 262144 + c div 4096 mod 64 * 4096 + c div 64 mod 64 * 64 + c mod 64 = c"
    proof -
      have "c div 4096 = c div 64 div 64" "c div 262144 = c div 4096 div 64" by (simp_all flip: div_mult2_eq)
      then show ?thesis
        using utf8_split_64 [of "c div 4096"] utf8_split_64 [of "c div 64"] utf8_split_64 [of c] by linarith
    qed
    ultimately show ?thesis using four assms
      by (simp add: utf8_char_def unat_u8_of_nat is_cont_def if_scalar_def del: of_nat_add)
  qed
qed

lemma from_utf8_as_bytes:
  assumes "list_all is_scalar s"
  shows "from_utf8 (as_bytes s) = Some s"
  using assms
proof (induction s)
  case Nil
  show ?case by (simp add: from_utf8_def utf8_decode.simps)
next
  case (Cons c s)
  then have "utf8_next (map unat (utf8_char c) @ map unat (as_bytes s)) = Some (c, map unat (as_bytes s))"
    by (intro utf8_next_char) simp
  with Cons show ?case
    by (subst from_utf8_def, subst utf8_decode.simps) (simp add: from_utf8_def)
qed

subsection \<open>\<open>resolve/hostname.rs\<close>\<close>

text \<open>
  \<open>res\<close> and \<open>buf\<close> are what the C function \<^verbatim>\<open>gethostname\<close> returned and left in the
  buffer of 256 bytes, \<open>errno\<close> the last error of the system. \<^verbatim>\<open>CStr::from_ptr\<close> reads to the
  first zero byte.
\<close>

definition get_hostname :: "int \<Rightarrow> bytes \<Rightarrow> io_error \<Rightarrow> (ustr, io_error) outcome" where
  "get_hostname res buf errno =
     (if res = -1 then Err errno
      else case from_utf8 (takeWhile (\<lambda>b. b \<noteq> 0) buf) of
             Some s \<Rightarrow> Ok s
           | None \<Rightarrow> Err (io_error_new KOther (lit ''invalid hostname'')))"

lemma takeWhile_nonzero_append: "0 \<notin> set xs \<Longrightarrow> takeWhile (\<lambda>b. b \<noteq> 0) (xs @ 0 # ys) = (xs :: bytes)"
  by (induction xs) auto

lemma get_hostname_name:
  assumes "res \<noteq> -1" and "list_all is_scalar name" and "0 \<notin> set (as_bytes name)"
  shows "get_hostname res (as_bytes name @ 0 # rest) errno = Ok name"
  using assms by (simp add: get_hostname_def takeWhile_nonzero_append from_utf8_as_bytes)

end
