(* ===== verification/SysInfo.thy ===== *)
theory SysInfo
  imports Utf8 Address
begin

text \<open>
  \<^verbatim>\<open>system.rs\<close>: what the library asks the operating system about interfaces, routes and
  ports, by running commands and reading files, and the devices it creates. The operating
  system is a state \<open>'w\<close> with a record of operations; the program is everything the code
  does with their results, with each \<^verbatim>\<open>unwrap\<close>, \<^verbatim>\<open>expect\<close> and index a possible panic.
\<close>

subsection \<open>The operating system\<close>

record 'w sys_ops =
  sc_output :: "ustr \<Rightarrow> ustr list \<Rightarrow> 'w \<Rightarrow> bytes option \<times> 'w"
    \<comment> \<open>\<^verbatim>\<open>Command::new(p).args(a).output()\<close>, the standard output; \<open>None\<close> if it could not be run\<close>
  sc_status :: "ustr \<Rightarrow> ustr list \<Rightarrow> 'w \<Rightarrow> 'w"
    \<comment> \<open>\<^verbatim>\<open>status()\<close>, whose result the code ignores\<close>
  sc_read_file :: "ustr \<Rightarrow> 'w \<Rightarrow> ustr option \<times> 'w"
    \<comment> \<open>open and \<^verbatim>\<open>read_to_string\<close>; \<open>None\<close> if either fails\<close>
  sc_env :: "ustr \<Rightarrow> 'w \<Rightarrow> ustr option \<times> 'w"
    \<comment> \<open>\<^verbatim>\<open>env::var\<close>\<close>
  sc_random6 :: "'w \<Rightarrow> (u8 \<times> u8 \<times> u8 \<times> u8 \<times> u8 \<times> u8) \<times> 'w"
    \<comment> \<open>\<^verbatim>\<open>rand::random\<close> for six bytes\<close>

text \<open>\<^verbatim>\<open>unwrap\<close> and \<^verbatim>\<open>expect\<close>, and indexing a vector.\<close>

definition punwrap :: "'a option \<Rightarrow> ('w, 'e, 'a) prog" where
  "punwrap x = (case x of Some a \<Rightarrow> pret a | None \<Rightarrow> ppanic)"

definition pexpect :: "('w \<Rightarrow> 'a option \<times> 'w) \<Rightarrow> ('w, 'e, 'a) prog" where
  "pexpect f w = (case f w of (x, w') \<Rightarrow> punwrap x w')"

definition pdo :: "('w \<Rightarrow> 'w) \<Rightarrow> ('w, 'e, unit) prog" where
  "pdo f w = Some (Ok (), f w)"

text \<open>The outcome of a pure computation.\<close>

definition pout :: "('a, 'e) outcome \<Rightarrow> ('w, 'e, 'a) prog" where
  "pout r w = Some (r, w)"

lemma pout_apply [outcome_simps]: "pout r w = Some (r, w)"
  by (simp add: pout_def)

lemma punwrap_apply [outcome_simps]:
  "punwrap (Some a) w = Some (Ok a, w)" "punwrap None w = Some (Panic, w)"
  by (simp_all add: punwrap_def outcome_simps)

lemma pexpect_apply [outcome_simps]: "f w = (x, w') \<Longrightarrow> pexpect f w = punwrap x w'"
  by (simp add: pexpect_def)

lemma pindex_apply [outcome_simps]:
  "i < length xs \<Longrightarrow> pindex xs i w = Some (Ok (xs ! i), w)" "length xs \<le> i \<Longrightarrow> pindex xs i w = Some (Panic, w)"
  by (simp_all add: pindex_def outcome_simps)

lemma pdo_apply [outcome_simps]: "pdo f w = Some (Ok (), f w)"
  by (simp add: pdo_def)

subsection \<open>More of \<open>str\<close>\<close>

text \<open>\<^verbatim>\<open>s.split(pat)\<close> for a pattern that is a nonempty string.\<close>

function split_str :: "ustr \<Rightarrow> ustr \<Rightarrow> ustr list" where
  "split_str p s =
     (if s = [] then [[]]
      else if p \<noteq> [] \<and> starts_with p s then [] # split_str p (drop (length p) s)
      else case split_str p (tl s) of [] \<Rightarrow> [[hd s]] | seg # segs \<Rightarrow> (hd s # seg) # segs)"
  by pat_completeness auto
termination
  by (relation "measure (\<lambda>(p, s). length s)") auto

declare split_str.simps [simp del]

definition trim :: "ustr \<Rightarrow> ustr" where
  "trim s = rev (dropWhile is_whitespace (rev (dropWhile is_whitespace s)))"

subsection \<open>\<open>system.rs\<close>\<close>

text \<open>The text a command prints.\<close>

definition command_text :: "'w sys_ops \<Rightarrow> ustr \<Rightarrow> ustr list \<Rightarrow> ('w, 'e, ustr) prog" where
  "command_text S p args = pbind (pexpect (sc_output S p args)) (\<lambda>out. punwrap (from_utf8 out))"

definition get_default_interface :: "'w sys_ops \<Rightarrow> ('w, 'e, ustr) prog" where
  "get_default_interface S =
     pbind (command_text S (lit ''ip'') [lit ''route'', lit ''get'', lit ''1'']) (\<lambda>sout1.
       pbind (pindex (split_on 32 sout1) 4) (\<lambda>origifname.
         pret (replace_str (lit ''usnetd'') [] origifname)))"

definition route_gateway :: "'w sys_ops \<Rightarrow> ustr \<Rightarrow> ('w, 'e, ustr) prog" where
  "route_gateway S ifname =
     pbind (command_text S (lit ''ip'')
              [lit ''-4'', lit ''route'', lit ''get'', lit ''1'', lit ''oif'', ifname]) (\<lambda>sout1.
       pindex (split_on 32 sout1) 2)"

lemma ends_with_append: "ends_with p (s @ p)"
  by (simp add: ends_with_def starts_with_def)

function get_gateway :: "'w sys_ops \<Rightarrow> ustr \<Rightarrow> ('w, 'e, ustr option) prog" where
  "get_gateway S ifname =
     pbind (route_gateway S ifname) (\<lambda>gateway.
       if gateway = ifname then
         if ends_with (lit ''usnetd'') ifname then pret None
         else get_gateway S (ifname @ lit ''usnetd'')
       else pret (Some gateway))"
  by pat_completeness auto
termination
  by (relation "measure (\<lambda>(S, ifname). if ends_with (lit ''usnetd'') ifname then 0 else 1)")
    (auto simp: ends_with_append)

declare get_gateway.simps [simp del]

text \<open>The parsers of \<^verbatim>\<open>smoltcp\<close>; \<open>None\<close> is an error or, for \<open>cidr\<close>, a refused prefix length.\<close>

record 'c wire_lib =
  wl_ipv4_from_str :: "ustr \<Rightarrow> ipv4_addr option"
  wl_cidr :: "ustr \<Rightarrow> u8 \<Rightarrow> 'c option"
    \<comment> \<open>\<^verbatim>\<open>IpCidr::new(IpAddress::from_str(s).expect(..), sub)\<close>\<close>

definition ip_addr_from_str :: "'c wire_lib \<Rightarrow> ustr \<Rightarrow> ('w, 'e, ipv4_addr) prog" where
  "ip_addr_from_str W s = punwrap (wl_ipv4_from_str W s)"

definition ip_cidr_from_str :: "'c wire_lib \<Rightarrow> ustr \<Rightarrow> u8 \<Rightarrow> ('w, 'e, 'c) prog" where
  "ip_cidr_from_str W s sub = punwrap (wl_cidr W s sub)"

text \<open>\<^verbatim>\<open>u8::from_str(s).expect(..)\<close>, and \<^verbatim>\<open>u16\<close>\<close>

definition u8_expect :: "ustr \<Rightarrow> ('w, 'e, u8) prog" where
  "u8_expect s = punwrap (map_option word_of_nat (parse_unsigned 10 256 s))"

definition u16_expect :: "ustr \<Rightarrow> ('w, 'e, u16) prog" where
  "u16_expect s = punwrap (map_option word_of_nat (parse_unsigned 10 65536 s))"

definition get_ipv4 :: "'w sys_ops \<Rightarrow> ustr \<Rightarrow> ('w, 'e, ustr \<times> u8) prog" where
  "get_ipv4 S ifname =
     pbind (command_text S (lit ''ip'') [lit ''-4'', lit ''a'', lit ''show'', lit ''dev'', ifname]) (\<lambda>iout1a.
       pbind (pindex (split_str (lit ''inet '') iout1a) 1) (\<lambda>iout1.
         pbind (pindex (split_on 32 iout1) 0) (\<lambda>field.
           let ipandsub = split_on 47 field
           in pbind (pindex ipandsub 0) (\<lambda>ipv4.
                pbind (pindex ipandsub 1) (\<lambda>s. pbind (u8_expect s) (\<lambda>sub. pret (ipv4, sub)))))))"

definition get_macaddr :: "'w sys_ops \<Rightarrow> ustr \<Rightarrow> ('w, 'e, ustr) prog" where
  "get_macaddr S ifname = pexpect (sc_read_file S (lit ''/sys/class/net/'' @ ifname @ lit ''/address''))"

type_synonym eth_addr = "u8 \<times> u8 \<times> u8 \<times> u8 \<times> u8 \<times> u8"

text \<open>Every part is converted before the first six are taken.\<close>

definition mac_str_to_eth_addr :: "ustr \<Rightarrow> (eth_addr, 'e) outcome" where
  "mac_str_to_eth_addr macaddr =
     (case those (map (parse_unsigned 16 256) (split_on colon (trim macaddr))) of
        None \<Rightarrow> Panic
      | Some ms \<Rightarrow>
          (case map word_of_nat ms of
             m0 # m1 # m2 # m3 # m4 # m5 # _ \<Rightarrow> Ok (m0, m1, m2, m3, m4, m5)
           | _ \<Rightarrow> Panic))"

definition create_macvtap :: "'w sys_ops \<Rightarrow> ustr \<Rightarrow> ustr \<Rightarrow> ustr \<Rightarrow> ustr \<Rightarrow> ('w, 'e, unit) prog" where
  "create_macvtap S ifname origifname mode macaddr =
     pbind (pdo (sc_status S (lit ''pkexec'')
       [lit ''ip'', lit ''link'', lit ''add'', lit ''link'', origifname, lit ''name'', ifname, lit ''type'',
        lit ''macvtap'', lit ''mode'', mode])) (\<lambda>_.
     pbind (pdo (sc_status S (lit ''pkexec'')
       [lit ''ip'', lit ''link'', lit ''set'', ifname, lit ''address'', macaddr, lit ''up''])) (\<lambda>_.
     pbind (pexpect (sc_read_file S (lit ''/sys/class/net/'' @ ifname @ lit ''/ifindex''))) (\<lambda>ifindex.
     pbind (pexpect (sc_env S (lit ''USER''))) (\<lambda>username.
     pbind (pindex (split_on 10 ifindex) 0) (\<lambda>index.
       pdo (sc_status S (lit ''pkexec'')
         [lit ''chown'', username @ [colon] @ username, lit ''/dev/tap'' @ index]))))))"

definition get_macvtap_parent :: "'w sys_ops \<Rightarrow> ustr \<Rightarrow> ('w, 'e, ustr) prog" where
  "get_macvtap_parent S ifname =
     pbind (command_text S (lit ''ip'') [lit ''a'', lit ''show'', lit ''dev'', ifname]) (\<lambda>iout1a.
       pbind (pindex (split_str (lit ''@'') iout1a) 1) (\<lambda>iout1. pindex (split_on colon iout1) 0))"

text \<open>\<^verbatim>\<open>{:02X}\<close>\<close>

definition show_02X :: "u8 \<Rightarrow> ustr" where
  "show_02X b = [upper_digit_char (unat b div 16), upper_digit_char (unat b mod 16)]"

fun format_mac :: "eth_addr \<Rightarrow> ustr" where
  "format_mac (m0, m1, m2, m3, m4, m5) =
     show_02X m0 @ [colon] @ show_02X m1 @ [colon] @ show_02X m2 @ [colon] @
     show_02X m3 @ [colon] @ show_02X m4 @ [colon] @ show_02X m5"

definition gen_random_mac :: "'w sys_ops \<Rightarrow> ('w, 'e, ustr) prog" where
  "gen_random_mac S w = (case sc_random6 S w of (m, w') \<Rightarrow> Some (Ok (format_mac m), w'))"

definition create_tap :: "'w sys_ops \<Rightarrow> ustr \<Rightarrow> ustr \<Rightarrow> u8 \<Rightarrow> ('w, 'e, unit) prog" where
  "create_tap S ifname host_ip sub =
     pbind (pexpect (sc_env S (lit ''USER''))) (\<lambda>username.
     pbind (pdo (sc_status S (lit ''pkexec'')
       [lit ''ip'', lit ''tuntap'', lit ''add'', lit ''name'', ifname, lit ''mode'', lit ''tap'', lit ''user'',
        username])) (\<lambda>_.
     pbind (pdo (sc_status S (lit ''pkexec'') [lit ''ip'', lit ''link'', lit ''set'', ifname, lit ''up''])) (\<lambda>_.
       pdo (sc_status S (lit ''pkexec'')
         [lit ''ip'', lit ''addr'', lit ''add'', host_ip @ lit ''/'' @ show_nat (unat sub), lit ''dev'',
          ifname]))))"

definition read_kernel_local_port_range :: "'w sys_ops \<Rightarrow> ('w, 'e, u16 \<times> u16) prog" where
  "read_kernel_local_port_range S =
     pbind (pexpect (sc_read_file S (lit ''/proc/sys/net/ipv4/ip_local_port_range''))) (\<lambda>contents.
       let splitted = split_whitespace contents
       in pbind (pindex splitted 0) (\<lambda>l. pbind (u16_expect l) (\<lambda>lower.
            pbind (pindex splitted 1) (\<lambda>u. pbind (u16_expect u) (\<lambda>upper. pret (lower, upper))))))"

subsection \<open>Facts\<close>

lemma upper_digit_char_props:
  assumes "d < 16"
  shows "digit_val 16 (upper_digit_char d) = Some d" "upper_digit_char d \<noteq> colon"
    "upper_digit_char d \<noteq> 43" "\<not> is_whitespace (upper_digit_char d)"
  using assms by (auto simp: upper_digit_char_def digit_val_def is_whitespace_def)

lemma nibbles_lt: "unat (b :: u8) div 16 < 16" "unat b mod 16 < 16"
  using unat_u8_lt [of b] by (simp_all add: less_mult_imp_div_less)

lemma parse_show_02X: "parse_unsigned 16 256 (show_02X b) = Some (unat b)"
  using nibbles_lt [of b]
  by (simp add: parse_unsigned_def show_02X_def upper_digit_char_props Let_def)

lemma colon_show_02X: "colon \<notin> set (show_02X b)"
  using upper_digit_char_props(2) [OF nibbles_lt(1) [of b]] upper_digit_char_props(2) [OF nibbles_lt(2) [of b]]
  by (auto simp: show_02X_def)

lemma format_mac_join:
  "format_mac (m0, m1, m2, m3, m4, m5) = join colon (map show_02X [m0, m1, m2, m3, m4, m5])"
  by simp

lemma split_format_mac:
  "split_on colon (format_mac (m0, m1, m2, m3, m4, m5)) = map show_02X [m0, m1, m2, m3, m4, m5]"
  unfolding format_mac_join by (rule split_on_join) (auto simp: colon_show_02X)

lemma trim_append_newline:
  assumes "s \<noteq> []" and "\<not> is_whitespace (hd s)" and "\<not> is_whitespace (last s)"
  shows "trim s = s" "trim (s @ [10]) = s"
proof -
  have "dropWhile is_whitespace s = s" "dropWhile is_whitespace (rev s) = rev s"
    using assms by (simp_all add: dropWhile_eq_self_iff hd_rev)
  moreover have "dropWhile is_whitespace (s @ [10]) = s @ [10]"
    using assms by (cases s) simp_all
  ultimately show "trim s = s" "trim (s @ [10]) = s"
    by (simp_all add: trim_def is_whitespace_def)
qed

lemma mac_roundtrip_newline:
  "mac_str_to_eth_addr (format_mac m) = Ok m" "mac_str_to_eth_addr (format_mac m @ [10]) = Ok m"
proof -
  obtain m0 m1 m2 m3 m4 m5 where m: "m = (m0, m1, m2, m3, m4, m5)" by (cases m) auto
  have "format_mac m \<noteq> []" "\<not> is_whitespace (hd (format_mac m))" "\<not> is_whitespace (last (format_mac m))"
    unfolding m by (simp_all add: show_02X_def upper_digit_char_props(4) nibbles_lt)
  note trim = trim_append_newline [OF this]
  show "mac_str_to_eth_addr (format_mac m) = Ok m" "mac_str_to_eth_addr (format_mac m @ [10]) = Ok m"
    unfolding mac_str_to_eth_addr_def trim
    by (simp_all add: m split_format_mac parse_show_02X del: format_mac.simps)
qed

text \<open>The interface asked for and the name under which \<^verbatim>\<open>usnetd\<close> keeps it.\<close>

lemma get_gateway_steps:
  assumes g: "route_gateway S ifname w = Some (Ok g :: (ustr, 'e) outcome, w1)"
  shows "(get_gateway S ifname :: ('w, 'e, ustr option) prog) w =
    (if g \<noteq> ifname then Some (Ok (Some g), w1)
     else if ends_with (lit ''usnetd'') ifname then Some (Ok None, w1)
     else get_gateway S (ifname @ lit ''usnetd'') w1)"
  by (subst get_gateway.simps) (simp add: pbind_def g pret_def)

text \<open>Words of digits separated by white space.\<close>

lemma digits_no_space: "c \<in> set (show_nat n) \<Longrightarrow> \<not> is_whitespace c"
  using show_radix_chars [of 10 c n] by (auto simp: is_whitespace_def)

lemma split_port_range:
  "split_whitespace (show_nat l @ [9] @ show_nat u @ [10]) = [show_nat l, show_nat u]"
proof -
  have "split_whitespace_from [] (show_nat l @ [9] @ show_nat u @ [10]) =
      split_whitespace_from (rev (show_nat l)) ([9] @ show_nat u @ [10])"
    using digits_no_space by (intro split_whitespace_from_word [of _ "[]", simplified]) (simp add: list_all_iff)
  also have "\<dots> = show_nat l # split_whitespace_from [] (show_nat u @ [10])"
    by (simp add: is_whitespace_def)
  also have "split_whitespace_from [] (show_nat u @ [10]) = [show_nat u]"
    using split_whitespace_from_word [of "show_nat u" "[]" "[10]"] digits_no_space
    by (simp add: is_whitespace_def list_all_iff)
  finally show ?thesis by (simp add: split_whitespace_def)
qed

lemma port_range_read:
  assumes "sc_read_file S (lit ''/proc/sys/net/ipv4/ip_local_port_range'') w =
      (Some (show_nat (unat (l :: u16)) @ [9] @ show_nat (unat (u :: u16)) @ [10]), w')"
  shows "read_kernel_local_port_range S w = Some (Ok (l, u), w')"
  using assms split_port_range [of "unat l" "unat u"]
  by (simp add: read_kernel_local_port_range_def pbind_def pexpect_def punwrap_def pret_def pindex_def
      u16_expect_def parse_show_radix Let_def)

text \<open>Splitting at a string that does not occur earlier.\<close>

lemma split_str_no_occurrence:
  assumes "\<not> contains_str p s"
  shows "split_str p s = [s]"
  using assms
proof (induction s)
  case Nil
  then show ?case by (simp add: split_str.simps)
next
  case (Cons c s)
  then show ?case by (subst split_str.simps) simp
qed

subsection \<open>Properties\<close>

text \<open>C34: A generated MAC address is read back as the six random bytes it was made of, with or without the
  final newline that reading it from a file would add.\<close>

theorem random_mac_roundtrip:
  "\<exists>s. gen_random_mac S w = Some (Ok s, snd (sc_random6 S w)) \<and>
     mac_str_to_eth_addr s = Ok (fst (sc_random6 S w)) \<and>
     mac_str_to_eth_addr (s @ [10]) = Ok (fst (sc_random6 S w))"
  by (simp add: gen_random_mac_def mac_roundtrip_newline split: prod.splits)

text \<open>The gateway of an interface is asked for at most twice: under the name given and, if there is none
  and the name does not already end in \<open>usnetd\<close>, under the name with \<open>usnetd\<close> appended. \<open>g1\<close> and \<open>g2\<close> are
  the third words the routing command prints; the interface itself there means that there is no gateway.\<close>

theorem gateway_fallback:
  fixes S :: "'w sys_ops"
  assumes "route_gateway S ifname w = Some (Ok g1 :: (ustr, 'e) outcome, w1)"
    and "route_gateway S (ifname @ lit ''usnetd'') w1 = Some (Ok g2 :: (ustr, 'e) outcome, w2)"
  shows "(get_gateway S ifname :: ('w, 'e, ustr option) prog) w =
    (if g1 \<noteq> ifname then Some (Ok (Some g1), w1)
     else if ends_with (lit ''usnetd'') ifname then Some (Ok None, w1)
     else Some (Ok (if g2 \<noteq> ifname @ lit ''usnetd'' then Some g2 else None), w2))"
  by (simp add: get_gateway_steps [OF assms(1)] get_gateway_steps [OF assms(2)] ends_with_append)

text \<open>A machine on which only \<^verbatim>\<open>eth0usnetd\<close> has a gateway.\<close>

definition routed_system :: "unit sys_ops" where
  "routed_system =
     \<lparr>sc_output = \<lambda>_ args w.
        (Some (as_bytes (if last args = lit ''eth0usnetd'' then lit ''1.0.0.0 via 10.0.0.1 dev eth0usnetd''
                         else lit ''1.0.0.0 dev eth0 src 10.0.0.2'')), w),
      sc_status = \<lambda>_ _ w. w, sc_read_file = \<lambda>_ w. (None, w), sc_env = \<lambda>_ w. (None, w),
      sc_random6 = \<lambda>w. ((0, 0, 0, 0, 0, 0), w)\<rparr>"

lemma scalars_of_lit: "list_all is_scalar (lit s)"
  by (auto simp: list_all_iff lit_def is_scalar_def intro: less_trans [OF nat_of_char_less_256])

lemma routed_system_gateways:
  "route_gateway routed_system (lit ''eth0'') () = Some (Ok (lit ''eth0'') :: (ustr, unit) outcome, ())"
  "route_gateway routed_system (lit ''eth0'' @ lit ''usnetd'') () =
     Some (Ok (lit ''10.0.0.1'') :: (ustr, unit) outcome, ())"
  by (simp_all add: route_gateway_def command_text_def pbind_def pexpect_def routed_system_def punwrap_def
      from_utf8_as_bytes scalars_of_lit pret_def pindex_def)
    (simp_all add: lit_def)

theorem gateway_fallback_witness:
  "(get_gateway routed_system (lit ''eth0'') :: (unit, unit, ustr option) prog) () =
     Some (Ok (Some (lit ''10.0.0.1'')), ())"
  using gateway_fallback [OF routed_system_gateways]
  by (simp add: lit_def ends_with_def starts_with_def)

end
