(* ===== verification/Device.thy ===== *)
theory Device
  imports Api SysInfo
begin

text \<open>
  \<^verbatim>\<open>device.rs\<close>: the network device under the stack, in its six variants, and the protocol
  spoken with the packet service \<^verbatim>\<open>usnetd\<close> over a Unix datagram socket. The interface type
  of \<^verbatim>\<open>smoltcp\<close>, the message encoding of \<^verbatim>\<open>libusnetd\<close> and \<^verbatim>\<open>serde_json\<close> and the
  socket are parameters.
\<close>

subsection \<open>What the device relies on\<close>

datatype ip_protocol = Tcp | Udp

text \<open>\<^verbatim>\<open>EthernetInterface\<close> of \<^verbatim>\<open>smoltcp\<close> over its socket set \<open>'z\<close>; times are in milliseconds.\<close>

record ('i, 'c, 'z) iface_ops =
  io_ethernet_addr :: "'i \<Rightarrow> eth_addr"
  io_ip_addrs :: "'i \<Rightarrow> 'c list"
  io_poll :: "'z \<Rightarrow> nat \<Rightarrow> 'i \<Rightarrow> (bool, ustr) outcome \<times> 'i \<times> 'z"
  io_poll_delay :: "'z \<Rightarrow> nat \<Rightarrow> 'i \<Rightarrow> nat option"
  io_cidr_address :: "'c \<Rightarrow> ip_address"
  io_show_cidr :: "'c \<Rightarrow> ustr"
  io_show_addr :: "ip_address \<Rightarrow> ustr"
  io_show_eth :: "eth_addr \<Rightarrow> ustr"

text \<open>The messages of \<^verbatim>\<open>libusnetd\<close> that the library builds or takes apart.\<close>

datatype client_ip = CIpv4 ustr | CIpOther ustr

record want_msg =
  wm_dst_addr :: client_ip
  wm_dst_port :: "u16 option"
  wm_src_addr :: "client_ip option"
  wm_src_port :: "u16 option"
  wm_protocol :: u8

type_synonym used_port = "u8 \<times> client_ip \<times> u16"

datatype client_message =
    AddMatch want_msg
  | DeleteClient
  | QueryUsedPorts
  | QueryUsedPortsAnswer "used_port list" "used_port list"   \<comment> \<open>listening, connected\<close>
  | RequestUDS ustr u64
  | RequestNetmapPipe ustr u64
  | OtherMessage

record usnetd_lib =
  ul_to_json :: "client_message \<Rightarrow> ustr"
  ul_from_json :: "ustr \<Rightarrow> client_message option"
  ul_socket_path :: ustr
  ul_protocol :: "ip_protocol \<Rightarrow> u8"
  ul_show_ipv6 :: "ipv6_addr \<Rightarrow> ustr"
    \<comment> \<open>\<^verbatim>\<open>Display\<close> of \<^verbatim>\<open>Ipv6Addr\<close>, which differs between versions of the standard library\<close>

text \<open>\<^verbatim>\<open>UnixDatagram\<close> sockets \<open>'k\<close>; a peer is known by its path name, if it has one.\<close>

record ('k, 'w) ctl_ops =
  ct_send_to :: "'k \<Rightarrow> bytes \<Rightarrow> ustr \<Rightarrow> 'w \<Rightarrow> nat option \<times> 'w"
  ct_recv_from :: "'k \<Rightarrow> nat \<Rightarrow> ('w, io_error, bytes \<times> ustr option) prog"
  ct_local_addr :: "'k \<Rightarrow> 'w \<Rightarrow> ustr option option \<times> 'w"
  ct_remove_file :: "ustr \<Rightarrow> 'w \<Rightarrow> bool \<times> 'w"

subsection \<open>\<open>StcpBackendInterface\<close>\<close>

datatype ('i, 'k) backend_interface =
    Raw 'i
  | Tap 'i "ustr option"      \<comment> \<open>the interface to delete at the end\<close>
  | MacVtap 'i "ustr option"
  | Netmap 'i
  | UsnetUds 'i 'k
  | UsnetNetmap 'i 'k

definition ctl_request :: "('k, 'w) ctl_ops \<Rightarrow> usnetd_lib \<Rightarrow> 'k \<Rightarrow> client_message \<Rightarrow> ('w, 'e, unit) prog" where
  "ctl_request C U k msg =
     (let payl = ul_to_json U msg
      in pbind (pexpect (ct_send_to C k (as_bytes payl) (ul_socket_path U))) (\<lambda>sent.
           if sent = str_len payl then pret () else ppanic))"

definition dev_control :: "('i, 'k) backend_interface \<Rightarrow> 'k option" where
  "dev_control D =
     (case D of
        UsnetNetmap _ control \<Rightarrow> Some control
      | UsnetUds _ control \<Rightarrow> Some control
      | _ \<Rightarrow> None)"

definition dev_ethernet_addr :: "('i, 'c, 'z) iface_ops \<Rightarrow> ('i, 'k) backend_interface \<Rightarrow> eth_addr" where
  "dev_ethernet_addr I D =
     (case D of
        Raw iface \<Rightarrow> io_ethernet_addr I iface
      | MacVtap iface _ \<Rightarrow> io_ethernet_addr I iface
      | Tap iface _ \<Rightarrow> io_ethernet_addr I iface
      | Netmap iface \<Rightarrow> io_ethernet_addr I iface
      | UsnetNetmap iface _ \<Rightarrow> io_ethernet_addr I iface
      | UsnetUds iface _ \<Rightarrow> io_ethernet_addr I iface)"

definition dev_ips :: "('i, 'c, 'z) iface_ops \<Rightarrow> ('i, 'k) backend_interface \<Rightarrow> 'c list" where
  "dev_ips I D =
     (case D of
        Raw iface \<Rightarrow> io_ip_addrs I iface
      | MacVtap iface _ \<Rightarrow> io_ip_addrs I iface
      | Tap iface _ \<Rightarrow> io_ip_addrs I iface
      | Netmap iface \<Rightarrow> io_ip_addrs I iface
      | UsnetNetmap iface _ \<Rightarrow> io_ip_addrs I iface
      | UsnetUds iface _ \<Rightarrow> io_ip_addrs I iface)"

definition poll_into :: "('i \<Rightarrow> 'd) \<Rightarrow> (bool, ustr) outcome \<times> 'i \<times> 'z \<Rightarrow> (bool, ustr) outcome \<times> 'd \<times> 'z" where
  "poll_into con = (\<lambda>(r, iface, z). (r, con iface, z))"

definition dev_poll ::
  "('i, 'c, 'z) iface_ops \<Rightarrow> nat \<Rightarrow> ('i, 'k) backend_interface \<Rightarrow> 'z \<Rightarrow>
   (bool, ustr) outcome \<times> ('i, 'k) backend_interface \<times> 'z" where
  "dev_poll I now D z =
     (case D of
        Raw iface \<Rightarrow> poll_into Raw (io_poll I z now iface)
      | MacVtap iface d \<Rightarrow> poll_into (\<lambda>i. MacVtap i d) (io_poll I z now iface)
      | Tap iface d \<Rightarrow> poll_into (\<lambda>i. Tap i d) (io_poll I z now iface)
      | Netmap iface \<Rightarrow> poll_into Netmap (io_poll I z now iface)
      | UsnetNetmap iface k \<Rightarrow> poll_into (\<lambda>i. UsnetNetmap i k) (io_poll I z now iface)
      | UsnetUds iface k \<Rightarrow> poll_into (\<lambda>i. UsnetUds i k) (io_poll I z now iface))"

definition dev_poll_delay :: "('i, 'c, 'z) iface_ops \<Rightarrow> nat \<Rightarrow> ('i, 'k) backend_interface \<Rightarrow> 'z \<Rightarrow> nat option" where
  "dev_poll_delay I now D z =
     (case D of
        Raw iface \<Rightarrow> io_poll_delay I z now iface
      | MacVtap iface _ \<Rightarrow> io_poll_delay I z now iface
      | Tap iface _ \<Rightarrow> io_poll_delay I z now iface
      | Netmap iface \<Rightarrow> io_poll_delay I z now iface
      | UsnetNetmap iface _ \<Rightarrow> io_poll_delay I z now iface
      | UsnetUds iface _ \<Rightarrow> io_poll_delay I z now iface)"

text \<open>The request for packets of a port; an unspecified address stands for the address of the interface.\<close>

definition show_ip_addr :: "usnetd_lib \<Rightarrow> ip_addr \<Rightarrow> ustr" where
  "show_ip_addr U ip = (case ip of V4 a \<Rightarrow> show_ipv4 a | V6 a \<Rightarrow> ul_show_ipv6 U a)"

definition want_for where
  "want_for I U ipv4 ipa port remote_addr remote_port protocol =
     \<lparr>wm_dst_addr = CIpv4 (if is_unspecified ipa then io_show_addr I ipv4 else show_ip_addr U ipa),
      wm_dst_port = port, wm_src_addr = map_option (\<lambda>i. CIpv4 (show_ip_addr U i)) remote_addr,
      wm_src_port = remote_port, wm_protocol = ul_protocol U protocol\<rparr>"

definition port_not_free :: io_error where
  "port_not_free = io_error_new KOther (lit ''port not free'')"

definition add_port_match ::
  "('i, 'c, 'z) iface_ops \<Rightarrow> ('k, 'w) ctl_ops \<Rightarrow> usnetd_lib \<Rightarrow> ('i, 'k) backend_interface \<Rightarrow>
   ip_addr \<Rightarrow> u16 option \<Rightarrow> ip_addr option \<Rightarrow> u16 option \<Rightarrow> ip_protocol \<Rightarrow> ('w, io_error, unit) prog" where
  "add_port_match I C U D ipa port remote_addr remote_port protocol =
     pbind (pindex (dev_ips I D) 0) (\<lambda>cidr.
       case dev_control D of
         None \<Rightarrow> pret ()
       | Some k \<Rightarrow>
           pbind (ctl_request C U k
                    (AddMatch (want_for I U (io_cidr_address I cidr) ipa port remote_addr remote_port protocol))) (\<lambda>_.
             pbind (ct_recv_from C k 2) (\<lambda>(succ, ua).
               if length succ \<noteq> 2 then ppanic
               else if ua \<noteq> Some (ul_socket_path U) then ppanic
               else if succ \<noteq> as_bytes (lit ''OK'') then pthrow port_not_free
               else pret ())))"

text \<open>\<^verbatim>\<open>delete\<close> and \<^verbatim>\<open>Drop\<close>; a file that cannot be removed is only logged.\<close>

definition dev_delete :: "('k, 'w) ctl_ops \<Rightarrow> usnetd_lib \<Rightarrow> 'k \<Rightarrow> ('w, 'e, unit) prog" where
  "dev_delete C U k =
     pbind (ctl_request C U k DeleteClient) (\<lambda>_ w.
       case ct_local_addr C k w of
         (Some (Some path), w1) \<Rightarrow> Some (Ok (), snd (ct_remove_file C path w1))
       | (_, w1) \<Rightarrow> Some (Ok (), w1))"

definition link_delete :: "'w sys_ops \<Rightarrow> ustr \<Rightarrow> ('w, 'e, unit) prog" where
  "link_delete S name =
     pdo (sc_status S (lit ''pkexec'') [lit ''ip'', lit ''link'', lit ''delete'', name])"

definition dev_drop ::
  "'w sys_ops \<Rightarrow> ('k, 'w) ctl_ops \<Rightarrow> usnetd_lib \<Rightarrow> ('i, 'k) backend_interface \<Rightarrow> ('w, 'e, unit) prog" where
  "dev_drop S C U D =
     (case D of
        MacVtap _ (Some name) \<Rightarrow> link_delete S name
      | Tap _ (Some name) \<Rightarrow> link_delete S name
      | UsnetUds _ control \<Rightarrow> dev_delete C U control
      | UsnetNetmap _ control \<Rightarrow> dev_delete C U control
      | _ \<Rightarrow> pret ())"

text \<open>\<^verbatim>\<open>Display\<close>\<close>

fun join_with :: "ustr \<Rightarrow> ustr list \<Rightarrow> ustr" where
  "join_with sep [] = []"
| "join_with sep [s] = s"
| "join_with sep (s # t # ss) = s @ sep @ join_with sep (t # ss)"

definition show_backend_interface :: "('i, 'c, 'z) iface_ops \<Rightarrow> ('i, 'k) backend_interface \<Rightarrow> ustr" where
  "show_backend_interface I D =
     (case D of
        Raw _ \<Rightarrow> lit ''direct raw socket''
      | MacVtap _ _ \<Rightarrow> lit ''direct macvtap''
      | Tap _ _ \<Rightarrow> lit ''direct tap''
      | Netmap _ \<Rightarrow> lit ''direct netmap''
      | UsnetNetmap _ _ \<Rightarrow> lit ''usnetd netmap''
      | UsnetUds _ _ \<Rightarrow> lit ''usnetd unix domain socket'') @ lit '' '' @
     join_with (lit '', '') (map (io_show_cidr I) (dev_ips I D)) @ lit '' '' @ io_show_eth I (dev_ethernet_addr I D)"

text \<open>
  The stack of the socket API is a device with its socket set: \<^verbatim>\<open>StcpNet::poll\<close> and the
  delay of the background thread go to the device.
\<close>

definition device_stack ::
  "('i, 'c, 'z) iface_ops \<Rightarrow> nat \<Rightarrow> (('i, 'k) backend_interface \<times> 'z) stack_poll" where
  "device_stack I now =
     \<lparr>sp_poll = \<lambda>(D, z). case dev_poll I now D z of (r, D', z') \<Rightarrow> (r, (D', z')),
      sp_poll_delay = \<lambda>(D, z). dev_poll_delay I now D z\<rparr>"

subsection \<open>Facts\<close>

lemma ctl_request_Ok_iff:
  "ctl_request C U k msg w = Some (Ok (), w1) \<longleftrightarrow>
     ct_send_to C k (as_bytes (ul_to_json U msg)) (ul_socket_path U) w = (Some (str_len (ul_to_json U msg)), w1)"
  by (auto simp: ctl_request_def pbind_def pexpect_def punwrap_def pret_def ppanic_def Let_def
      split: option.splits prod.splits if_splits)

lemma ctl_request_cases:
  "(\<exists>w1. ctl_request C U k msg w = Some (Ok (), w1)) \<or> (\<exists>w1. ctl_request C U k msg w = Some (Panic, w1))"
  by (auto simp: ctl_request_def pbind_def pexpect_def punwrap_def pret_def ppanic_def Let_def
      split: option.splits prod.splits if_splits)

text \<open>Polling changes neither the variant nor the control socket of a device.\<close>

lemma dev_poll_keeps:
  assumes "dev_poll I now D z = (r, D', z')"
  shows "dev_control D' = dev_control D"
  using assms by (cases D) (auto simp: dev_poll_def poll_into_def dev_control_def split: prod.splits)

lemma add_port_match_no_control:
  assumes "dev_ips I D \<noteq> []" and "dev_control D = None"
  shows "add_port_match I C U D ipa port raddr rport proto w = Some (Ok (), w)"
  using assms by (simp add: add_port_match_def pbind_def pindex_def pret_def)

lemma add_port_match_control:
  assumes "dev_ips I D = cidr # rest" and "dev_control D = Some k"
  shows "add_port_match I C U D ipa port raddr rport proto =
    pbind (ctl_request C U k (AddMatch (want_for I U (io_cidr_address I cidr) ipa port raddr rport proto))) (\<lambda>_.
      pbind (ct_recv_from C k 2) (\<lambda>(succ, ua).
        if length succ \<noteq> 2 then ppanic
        else if ua \<noteq> Some (ul_socket_path U) then ppanic
        else if succ \<noteq> as_bytes (lit ''OK'') then pthrow port_not_free
        else pret ()))"
  using assms by (simp add: add_port_match_def pindex_def pbind_pret)

subsection \<open>Properties\<close>

text \<open>C17: With a device of \<open>usnetd\<close>, a port is granted exactly when the whole request was sent to the service
  and the service itself answered \<open>OK\<close>; the request names the address of the interface for an unspecified
  address.\<close>

theorem port_granted_iff:
  assumes "dev_ips I D = cidr # rest" and "dev_control D = Some k"
  shows "add_port_match I C U D ipa port raddr rport proto w = Some (Ok (), w2) \<longleftrightarrow>
    (\<exists>payl w1. payl = ul_to_json U (AddMatch
         \<lparr>wm_dst_addr = CIpv4 (if is_unspecified ipa then io_show_addr I (io_cidr_address I cidr) else show_ip_addr U ipa),
          wm_dst_port = port, wm_src_addr = map_option (\<lambda>i. CIpv4 (show_ip_addr U i)) raddr, wm_src_port = rport,
          wm_protocol = ul_protocol U proto\<rparr>) \<and>
       ct_send_to C k (as_bytes payl) (ul_socket_path U) w = (Some (str_len payl), w1) \<and>
       ct_recv_from C k 2 w1 = Some (Ok (as_bytes (lit ''OK''), Some (ul_socket_path U)), w2))"
    (is "?granted \<longleftrightarrow> ?answered")
proof
  assume ?granted
  then have run: "pbind (ctl_request C U k (AddMatch (want_for I U (io_cidr_address I cidr) ipa port raddr rport proto)))
      (\<lambda>_. pbind (ct_recv_from C k 2) (\<lambda>(succ, ua).
        if length succ \<noteq> 2 then ppanic
        else if ua \<noteq> Some (ul_socket_path U) then ppanic
        else if succ \<noteq> as_bytes (lit ''OK'') then pthrow port_not_free
        else pret ())) w = Some (Ok (), w2)"
    by (simp only: add_port_match_control [OF assms])
  from run show ?answered
    by (elim pbind_OkE)
      (auto simp: ctl_request_Ok_iff want_for_def pret_def ppanic_def pthrow_def split: if_splits prod.splits)
next
  assume ?answered
  then obtain w1 where sent: "ctl_request C U k
      (AddMatch (want_for I U (io_cidr_address I cidr) ipa port raddr rport proto)) w = Some (Ok () :: (unit, io_error) outcome, w1)"
    and reply: "ct_recv_from C k 2 w1 = Some (Ok (as_bytes (lit ''OK''), Some (ul_socket_path U)), w2)"
    by (auto simp: ctl_request_Ok_iff want_for_def)
  have "length (as_bytes (lit ''OK'')) = 2" by (simp add: lit_def utf8_char_def)
  with sent reply show ?granted
    by (simp add: add_port_match_control [OF assms] pbind_def pret_def)
qed

text \<open>A device whose service grants everything; the state counts the requests.\<close>

definition granting_ctl :: "(unit, nat) ctl_ops" where
  "granting_ctl =
     \<lparr>ct_send_to = \<lambda>_ b _ w. (Some (length b), w + 1),
      ct_recv_from = \<lambda>_ _ w. Some (Ok (as_bytes (lit ''OK''), Some (lit ''/run/usnetd.socket'')), w),
      ct_local_addr = \<lambda>_ w. (None, w), ct_remove_file = \<lambda>_ w. (True, w)\<rparr>"

definition plain_usnetd :: usnetd_lib where
  "plain_usnetd =
     \<lparr>ul_to_json = \<lambda>_. lit ''{}'', ul_from_json = \<lambda>_. None, ul_socket_path = lit ''/run/usnetd.socket'',
      ul_protocol = \<lambda>p. case p of Tcp \<Rightarrow> 6 | Udp \<Rightarrow> 17, ul_show_ipv6 = \<lambda>_. []\<rparr>"

definition plain_iface :: "(unit, ip_address, 'z) iface_ops" where
  "plain_iface =
     \<lparr>io_ethernet_addr = \<lambda>_. (2, 0, 0, 0, 0, 1), io_ip_addrs = \<lambda>_. [AddrV4 (Ipv4Addr 10 0 0 2)],
      io_poll = \<lambda>z _ i. (Ok False, i, z), io_poll_delay = \<lambda>_ _ _. None, io_cidr_address = \<lambda>c. c,
      io_show_cidr = \<lambda>_. lit ''10.0.0.2/24'', io_show_addr = \<lambda>_. lit ''10.0.0.2'', io_show_eth = format_mac\<rparr>"

theorem port_granted_iff_witness:
  "add_port_match plain_iface granting_ctl plain_usnetd (UsnetUds () ()) (V4 (Ipv4Addr 0 0 0 0)) (Some 80) None None Tcp 0 =
     Some (Ok (), 1)"
proof -
  have "dev_ips plain_iface (UsnetUds () ()) = AddrV4 (Ipv4Addr 10 0 0 2) # []"
    by (simp add: dev_ips_def plain_iface_def)
  moreover have "dev_control (UsnetUds () ()) = Some ()" by (simp add: dev_control_def)
  ultimately show ?thesis
    by (subst port_granted_iff) (simp_all add: granting_ctl_def plain_usnetd_def str_len_def)
qed

end
