(* ===== verification/Backend.thy ===== *)
theory Backend
  imports Device
begin

text \<open>
  \<^verbatim>\<open>usnetconfig.rs\<close>: the configuration of the backend, how each configuration is turned into
  a network device with its addresses, and the queries for free ports. The device types of
  \<^verbatim>\<open>usnet_devices\<close> are a parameter; an interface of the stack is the device with the
  addresses, the default route and the MAC address that it was built with.
\<close>

subsection \<open>Configuration\<close>

datatype system_interface = DiscoverFromRoute | SysInterface ustr

datatype mac = MacPassthru | MacStatic ustr | MacRandom

datatype ipv4_cfg = Dhcp | IpStatic ustr u8 ustr | IpPassthru
  \<comment> \<open>static: address, prefix length, gateway\<close>

datatype macvtap_device =
    MacVtapCreate mac system_interface ipv4_cfg
  | MacVtapInterface ustr ipv4_cfg

datatype tap_ipv4 = TapStatic ustr u8 ustr

datatype tap_mac = TapMacStatic ustr | TapMacRandom

datatype tap_device =
    TapCreate tap_mac tap_ipv4 ustr
  | TapInterface ustr tap_mac tap_ipv4

datatype netmap_interface = NetmapDiscover | NetmapNamed ustr ustr
  \<comment> \<open>netmap name, parent\<close>

datatype netmap_device = NetmapDevice netmap_interface mac ipv4_cfg

datatype usnet_type = NetmapPipe | UnixDomainSocket

datatype usnet_device = UsnetInterface system_interface usnet_type mac ipv4_cfg

datatype stcp_backend =
    RawConfig
  | TapConfig tap_device
  | MacVtapConfig macvtap_device
  | NetmapConfig netmap_device
  | UsnetConfig usnet_device

subsection \<open>What the backends rely on\<close>

record ('d, 'w) dev_ops =
  dv_raw :: "ustr \<Rightarrow> nat option \<Rightarrow> 'w \<Rightarrow> 'd option \<times> 'w"
    \<comment> \<open>\<^verbatim>\<open>RawSocket::new(name, reduce_mtu_by)\<close>, and so on\<close>
  dv_tap :: "ustr \<Rightarrow> nat option \<Rightarrow> 'w \<Rightarrow> 'd option \<times> 'w"
  dv_macvtap :: "ustr \<Rightarrow> nat option \<Rightarrow> 'w \<Rightarrow> 'd option \<times> 'w"
  dv_netmap :: "ustr \<Rightarrow> ustr \<Rightarrow> bool \<Rightarrow> nat option \<Rightarrow> 'w \<Rightarrow> 'd option \<times> 'w"
  dv_uds :: "raw_fd \<Rightarrow> ustr \<Rightarrow> nat option \<Rightarrow> 'w \<Rightarrow> 'd option \<times> 'w"
  dv_shared :: "raw_fd \<Rightarrow> bytes \<Rightarrow> ustr \<Rightarrow> bool \<Rightarrow> nat option \<Rightarrow> 'w \<Rightarrow> 'd option \<times> 'w"
  dv_fd :: "'d \<Rightarrow> raw_fd"
  dv_nmreq_size :: nat

text \<open>A received message with its ancillary data, and the sockets and identifiers of the process.\<close>

datatype cmsg = ScmRights "raw_fd list" | OtherCmsg

record recv_msg =
  rm_data :: bytes
  rm_cmsgs :: "cmsg list"
  rm_address :: "ustr option"
  rm_truncated :: bool

record ('k, 'w) proc_ops =
  pr_bind :: "ustr \<Rightarrow> 'w \<Rightarrow> 'k option \<times> 'w"
  pr_recvmsg :: "'k \<Rightarrow> nat \<Rightarrow> 'w \<Rightarrow> (recv_msg option \<times> 'w) option"
    \<comment> \<open>outer \<open>None\<close>: no message ever arrives\<close>
  pr_uid :: "'w \<Rightarrow> nat"
  pr_pid :: "'w \<Rightarrow> nat"
  pr_tid :: "'w \<Rightarrow> u64"
  pr_random64 :: "'w \<Rightarrow> u64 \<times> 'w"
  pr_random16 :: "'w \<Rightarrow> u16 \<times> 'w"

text \<open>What \<^verbatim>\<open>EthernetInterfaceBuilder\<close> is given.\<close>

record ('d, 'c) net_iface =
  ni_device :: 'd
  ni_mac :: eth_addr
  ni_addrs :: "'c list"
  ni_gateway :: "ipv4_addr option"

subsection \<open>Pieces of \<open>to_interface\<close>\<close>

text \<open>The device itself, whose construction is unwrapped, with its descriptor.\<close>

definition open_device ::
  "('d, 'w) dev_ops \<Rightarrow> ('w \<Rightarrow> 'd option \<times> 'w) \<Rightarrow> ('w, 'e, 'd \<times> raw_fd) prog" where
  "open_device V f = pbind (pexpect f) (\<lambda>d. pret (d, dv_fd V d))"

definition static_ipv4 :: "'c wire_lib \<Rightarrow> ustr \<Rightarrow> u8 \<Rightarrow> ustr \<Rightarrow> ('w, 'e, ipv4_addr option \<times> 'c list) prog" where
  "static_ipv4 W ipv4 sub gateway =
     pbind (ip_addr_from_str W gateway) (\<lambda>g.
       pbind (ip_cidr_from_str W ipv4 sub) (\<lambda>c. pret (Some g, [c])))"

definition passthru_ipv4 ::
  "'w sys_ops \<Rightarrow> 'c wire_lib \<Rightarrow> ustr \<Rightarrow> ('w, 'e, ipv4_addr option \<times> 'c list) prog" where
  "passthru_ipv4 S W origifname =
     pbind (get_gateway S origifname) (\<lambda>gw.
       pbind (case gw of
                Some g \<Rightarrow> pbind (ip_addr_from_str W g) (\<lambda>a. pret (Some a))
              | None \<Rightarrow> pret None) (\<lambda>gateway.
         pbind (get_ipv4 S origifname) (\<lambda>(ipv4, sub).
           pbind (ip_cidr_from_str W ipv4 sub) (\<lambda>c. pret (gateway, [c])))))"

text \<open>\<^verbatim>\<open>match ipv4\<close>; the parent interface is only looked up where it is needed.\<close>

definition ipv4_settings ::
  "'w sys_ops \<Rightarrow> 'c wire_lib \<Rightarrow> ('w, 'e, ustr) prog \<Rightarrow> ipv4_cfg \<Rightarrow>
   ('w, 'e, ipv4_addr option \<times> 'c list) prog" where
  "ipv4_settings S W parent ipv4 =
     (case ipv4 of
        Dhcp \<Rightarrow> ppanic
      | IpPassthru \<Rightarrow> pbind parent (passthru_ipv4 S W)
      | IpStatic ip sub gateway \<Rightarrow> static_ipv4 W ip sub gateway)"

definition discover :: "'w sys_ops \<Rightarrow> system_interface \<Rightarrow> ('w, 'e, ustr) prog" where
  "discover S i = (case i of DiscoverFromRoute \<Rightarrow> get_default_interface S | SysInterface name \<Rightarrow> pret name)"

definition mac_text :: "'w sys_ops \<Rightarrow> mac \<Rightarrow> ustr \<Rightarrow> ('w, 'e, ustr) prog" where
  "mac_text S m parent =
     (case m of
        MacPassthru \<Rightarrow> get_macaddr S parent
      | MacStatic s \<Rightarrow> pret s
      | MacRandom \<Rightarrow> gen_random_mac S)"

definition tap_mac_text :: "'w sys_ops \<Rightarrow> tap_mac \<Rightarrow> ('w, 'e, ustr) prog" where
  "tap_mac_text S m = (case m of TapMacStatic s \<Rightarrow> pret s | TapMacRandom \<Rightarrow> gen_random_mac S)"

definition finalize ::
  "'d \<times> raw_fd \<Rightarrow> eth_addr \<Rightarrow> ('w, 'e, ipv4_addr option \<times> 'c list) prog \<Rightarrow>
   (('d, 'c) net_iface \<Rightarrow> 'b) \<Rightarrow> ('w, 'e, raw_fd \<times> 'b) prog" where
  "finalize = (\<lambda>(d, fd) eth settings con.
     pbind settings (\<lambda>(gw, addrs).
       pret (fd, con \<lparr>ni_device = d, ni_mac = eth, ni_addrs = addrs, ni_gateway = gw\<rparr>)))"

subsection \<open>The branches of \<open>to_interface\<close>\<close>

definition raw_interface where
  "raw_interface S W V reduce_mtu_by =
     pbind (command_text S (lit ''ip'') [lit ''route'', lit ''get'', lit ''1'']) (\<lambda>sout1.
     let sout = split_on 32 sout1 in
     pbind (pindex sout 4) (\<lambda>ifname.
     pbind (pindex sout 2) (\<lambda>gateway.
     pbind (pindex sout 6) (\<lambda>ip.
     pbind (open_device V (dv_raw V ifname reduce_mtu_by)) (\<lambda>dev.
     pbind (pexpect (sc_read_file S (lit ''/sys/class/net/'' @ ifname @ lit ''/address''))) (\<lambda>macaddr.
     pbind (pout (mac_str_to_eth_addr macaddr)) (\<lambda>eth.
     pbind (command_text S (lit ''ip'') [lit ''a'', lit ''show'', lit ''dev'', ifname]) (\<lambda>iout1.
     pbind (pindex (split_on 47 iout1) 2) (\<lambda>iout2.
     pbind (pindex (split_on 32 iout2) 0) (\<lambda>iout.
     pbind (u8_expect iout) (\<lambda>sub.
     pbind (ip_cidr_from_str W ip sub) (\<lambda>cidr.
     pbind (ip_addr_from_str W gateway) (\<lambda>gw.
       finalize dev eth (pret (Some gw, [cidr])) Raw)))))))))))))"

text \<open>Mode, name of the new interface and MAC address.\<close>

definition macvtap_naming :: "'w sys_ops \<Rightarrow> mac \<Rightarrow> ustr \<Rightarrow> ('w, 'e, ustr \<times> ustr \<times> ustr) prog" where
  "macvtap_naming S m origifname =
     (case m of
        MacPassthru \<Rightarrow>
          pbind (get_macaddr S origifname) (\<lambda>a. pret (lit ''passthru'', origifname @ lit ''pass'', a))
      | MacStatic s \<Rightarrow> pret (lit ''bridge'', replace_str (lit '':'') [] s, s)
      | MacRandom \<Rightarrow>
          pbind (gen_random_mac S) (\<lambda>s. pret (lit ''bridge'', replace_str (lit '':'') [] s, s)))"

definition macvtap_interface where
  "macvtap_interface S W V reduce_mtu_by device =
     (case device of
        MacVtapCreate m parent ipv4 \<Rightarrow>
          pbind (discover S parent) (\<lambda>origifname.
          pbind (macvtap_naming S m origifname) (\<lambda>(mode, ifname, macaddr).
          pbind (pout (mac_str_to_eth_addr macaddr)) (\<lambda>eth.
          pbind (create_macvtap S ifname origifname mode macaddr) (\<lambda>_.
          pbind (open_device V (dv_macvtap V ifname reduce_mtu_by)) (\<lambda>dev.
            finalize dev eth (ipv4_settings S W (pret origifname) ipv4) (\<lambda>i. MacVtap i (Some ifname)))))))
      | MacVtapInterface ifname ipv4 \<Rightarrow>
          pbind (get_macaddr S ifname) (\<lambda>macaddr.
          pbind (pout (mac_str_to_eth_addr macaddr)) (\<lambda>eth.
          pbind (open_device V (dv_macvtap V ifname reduce_mtu_by)) (\<lambda>dev.
            finalize dev eth (ipv4_settings S W (get_macvtap_parent S ifname) ipv4) (\<lambda>i. MacVtap i None)))))"

definition tap_interface where
  "tap_interface S W V reduce_mtu_by device =
     (case device of
        TapCreate m (TapStatic ipv4 sub gateway) host_ip \<Rightarrow>
          pbind (tap_mac_text S m) (\<lambda>macaddr.
          pbind (pout (mac_str_to_eth_addr macaddr)) (\<lambda>eth.
          let ifname = replace_str (lit ''.'') (lit ''o'') ipv4 in
          pbind (create_tap S ifname host_ip sub) (\<lambda>_.
          pbind (open_device V (dv_tap V ifname reduce_mtu_by)) (\<lambda>dev.
            finalize dev eth (static_ipv4 W ipv4 sub gateway) (\<lambda>i. Tap i (Some ifname))))))
      | TapInterface ifname m (TapStatic ipv4 sub gateway) \<Rightarrow>
          pbind (tap_mac_text S m) (\<lambda>macaddr.
          pbind (pout (mac_str_to_eth_addr macaddr)) (\<lambda>eth.
          pbind (open_device V (dv_tap V ifname reduce_mtu_by)) (\<lambda>dev.
            finalize dev eth (static_ipv4 W ipv4 sub gateway) (\<lambda>i. Tap i None)))))"

definition netmap_parts :: "'w sys_ops \<Rightarrow> netmap_interface \<Rightarrow> ('w, 'e, ustr \<times> ustr) prog" where
  "netmap_parts S i =
     (case i of
        NetmapDiscover \<Rightarrow> pbind (get_default_interface S) (\<lambda>n. pret (n, n))
      | NetmapNamed netmap_name parent \<Rightarrow> pret (netmap_name, parent))"

definition netmap_interface_of where
  "netmap_interface_of S W V waiting_poll reduce_mtu_by device =
     (case device of
        NetmapDevice i m ipv4 \<Rightarrow>
          pbind (netmap_parts S i) (\<lambda>(ifname, parent).
          pbind (mac_text S m parent) (\<lambda>macaddr.
          pbind (pout (mac_str_to_eth_addr macaddr)) (\<lambda>eth.
          pbind (open_device V (dv_netmap V ifname parent waiting_poll reduce_mtu_by)) (\<lambda>dev.
            finalize dev eth (ipv4_settings S W (pret parent) ipv4) Netmap)))))"

subsection \<open>Attaching to \<open>usnetd\<close>\<close>

text \<open>The loop over the ancillary data: exactly one descriptor, once; \<open>None\<close> is a failed assertion.\<close>

fun scan_cmsgs :: "raw_fd option \<Rightarrow> cmsg list \<Rightarrow> raw_fd option option" where
  "scan_cmsgs received [] = Some received"
| "scan_cmsgs received (ScmRights fds # rest) =
     (if received \<noteq> None then None
      else if length fds \<noteq> 1 then None
      else scan_cmsgs (Some (hd fds)) rest)"
| "scan_cmsgs received (OtherCmsg # rest) = None"

definition accept_fd :: "ustr \<Rightarrow> recv_msg \<Rightarrow> raw_fd option" where
  "accept_fd socket_path msg =
     (case scan_cmsgs None (rm_cmsgs msg) of
        None \<Rightarrow> None
      | Some received_fd \<Rightarrow>
          if rm_address msg \<noteq> Some socket_path then None
          else if rm_truncated msg then None
          else received_fd)"

definition recv_blocking :: "('w \<Rightarrow> ('a option \<times> 'w) option) \<Rightarrow> ('w, 'e, 'a) prog" where
  "recv_blocking f w = (case f w of None \<Rightarrow> None | Some (x, w') \<Rightarrow> punwrap x w')"

text \<open>The control socket under \<^verbatim>\<open>/run/user\<close>, the request, and the descriptor that comes back.\<close>

definition attach ::
  "('k, 'w) ctl_ops \<Rightarrow> ('k, 'w) proc_ops \<Rightarrow> usnetd_lib \<Rightarrow> (ustr \<Rightarrow> u64 \<Rightarrow> client_message) \<Rightarrow> ustr \<Rightarrow> nat \<Rightarrow>
   ('w, 'e, 'k \<times> recv_msg \<times> raw_fd) prog" where
  "attach C Q U request parent buf_len w =
     (case pr_random64 Q w of (r, w1) \<Rightarrow>
        let tmpsckt = lit ''/run/user/'' @ show_nat (pr_uid Q w1) @ lit ''/usnet-client-'' @
                      show_nat (pr_pid Q w1) @ lit ''-'' @ show_nat (unat r);
            w2 = snd (ct_remove_file C tmpsckt w1)
        in pbind (pexpect (pr_bind Q tmpsckt)) (\<lambda>control.
           pbind (\<lambda>w. ctl_request C U control (request parent (pr_tid Q w)) w) (\<lambda>_.
           pbind (recv_blocking (pr_recvmsg Q control buf_len)) (\<lambda>msg.
           pbind (punwrap (accept_fd (ul_socket_path U) msg)) (\<lambda>fd. pret (control, msg, fd))))) w2)"

definition usnet_uds_interface where
  "usnet_uds_interface S W V C Q U reduce_mtu_by i m ipv4 =
     pbind (discover S i) (\<lambda>parent.
     pbind (mac_text S m parent) (\<lambda>macaddr.
     pbind (pout (mac_str_to_eth_addr macaddr)) (\<lambda>eth.
     pbind (attach C Q U RequestUDS parent 1) (\<lambda>(control, msg, fd).
     pbind (pexpect (dv_uds V fd parent reduce_mtu_by)) (\<lambda>d.
       finalize (d, fd) eth (ipv4_settings S W (pret parent) ipv4) (\<lambda>iface. UsnetUds iface control))))))"

definition usnet_netmap_interface where
  "usnet_netmap_interface S W V C Q U waiting_poll reduce_mtu_by i m ipv4 =
     pbind (discover S i) (\<lambda>parent.
     pbind (mac_text S m parent) (\<lambda>macaddr.
     pbind (pout (mac_str_to_eth_addr macaddr)) (\<lambda>eth.
     pbind (attach C Q U RequestNetmapPipe parent (dv_nmreq_size V)) (\<lambda>(control, msg, fd).
     pbind (pexpect (dv_shared V fd (rm_data msg) parent waiting_poll reduce_mtu_by)) (\<lambda>d.
       finalize (d, fd) eth (ipv4_settings S W (pret parent) ipv4) (\<lambda>iface. UsnetNetmap iface control))))))"

definition to_interface where
  "to_interface S W V C Q U backend waiting_poll reduce_mtu_by =
     (case backend of
        RawConfig \<Rightarrow> raw_interface S W V reduce_mtu_by
      | MacVtapConfig device \<Rightarrow> macvtap_interface S W V reduce_mtu_by device
      | TapConfig device \<Rightarrow> tap_interface S W V reduce_mtu_by device
      | NetmapConfig device \<Rightarrow> netmap_interface_of S W V waiting_poll reduce_mtu_by device
      | UsnetConfig (UsnetInterface i ipc m ipv4) \<Rightarrow>
          (case ipc of
             UnixDomainSocket \<Rightarrow> usnet_uds_interface S W V C Q U reduce_mtu_by i m ipv4
           | NetmapPipe \<Rightarrow> usnet_netmap_interface S W V C Q U waiting_poll reduce_mtu_by i m ipv4))"

subsection \<open>Free ports\<close>

definition query_used_ports ::
  "('k, 'w) ctl_ops \<Rightarrow> usnetd_lib \<Rightarrow> 'k \<Rightarrow> ('w, 'e, used_port list \<times> used_port list) prog" where
  "query_used_ports C U control =
     pbind (ctl_request C U control QueryUsedPorts) (\<lambda>_ w.
       case ct_recv_from C control 1000000 w of
         None \<Rightarrow> None
       | Some (Ok (buf, sockad), w1) \<Rightarrow>
           (if sockad \<noteq> Some (ul_socket_path U) then Some (Panic, w1)
            else case from_utf8 buf of
                   None \<Rightarrow> Some (Panic, w1)
                 | Some buf_str \<Rightarrow>
                     (case ul_from_json U buf_str of
                        Some (QueryUsedPortsAnswer listening connected) \<Rightarrow> Some (Ok (listening, connected), w1)
                      | _ \<Rightarrow> Some (Panic, w1)))
       | Some (_, w1) \<Rightarrow> Some (Panic, w1))"

definition is_free_listening_port_for ::
  "('k, 'w) ctl_ops \<Rightarrow> usnetd_lib \<Rightarrow> 'k \<Rightarrow> u16 \<Rightarrow> client_ip \<Rightarrow> ('w, 'e, bool) prog" where
  "is_free_listening_port_for C U control port ip =
     pbind (query_used_ports C U control) (\<lambda>(listening, connected).
       pret (\<not> List.member listening (ul_protocol U Tcp, ip, port)))"

text \<open>Ports are drawn until one is neither zero nor in use.\<close>

partial_function (option) draw_port ::
  "('w \<Rightarrow> u16 \<times> 'w) \<Rightarrow> (u16 \<Rightarrow> bool) \<Rightarrow> u16 \<Rightarrow> ('w, 'e, u16) prog" where
  "draw_port rnd used port w =
     (if port = 0 \<or> used port then (case rnd w of (p, w') \<Rightarrow> draw_port rnd used p w')
      else Some (Ok port, w))"

definition find_free_connecting_or_listening_port_for ::
  "('k, 'w) ctl_ops \<Rightarrow> ('k, 'w) proc_ops \<Rightarrow> usnetd_lib \<Rightarrow> bool \<Rightarrow> 'k \<Rightarrow> client_ip \<Rightarrow> ('w, 'e, u16) prog" where
  "find_free_connecting_or_listening_port_for C Q U connecting control ip =
     pbind (query_used_ports C U control) (\<lambda>(listening, connected).
       draw_port (pr_random16 Q)
         (\<lambda>p. List.member (if connecting then connected else listening) (ul_protocol U Tcp, ip, p)) 0)"

subsection \<open>Facts\<close>

lemma scan_cmsgs_later: "scan_cmsgs (Some fd) cs = Some r \<Longrightarrow> cs = [] \<and> r = Some fd"
  by (cases cs rule: scan_cmsgs.cases [of "(Some fd, cs)" for cs, simplified]) (auto elim: scan_cmsgs.elims)

lemma scan_cmsgs_Some_iff: "scan_cmsgs None cs = Some (Some fd) \<longleftrightarrow> cs = [ScmRights [fd]]"
proof
  assume scan: "scan_cmsgs None cs = Some (Some fd)"
  then show "cs = [ScmRights [fd]]"
  proof (cases cs)
    case (Cons c rest)
    with scan obtain fds where c: "c = ScmRights fds" by (cases c) auto
    with scan Cons have "length fds = 1" "scan_cmsgs (Some (hd fds)) rest = Some (Some fd)"
      by (auto split: if_splits)
    moreover from this(2) have "rest = []" "fd = hd fds" by (auto dest: scan_cmsgs_later)
    ultimately show ?thesis using Cons c by (auto simp: length_Suc_conv)
  qed simp
qed simp

lemma accept_fd_iff:
  "accept_fd path msg = Some fd \<longleftrightarrow>
     rm_cmsgs msg = [ScmRights [fd]] \<and> rm_address msg = Some path \<and> \<not> rm_truncated msg"
  by (auto simp: accept_fd_def scan_cmsgs_Some_iff split: option.splits if_splits)

text \<open>The ports a random source yields, one after the other.\<close>

primrec draws :: "('w \<Rightarrow> u16 \<times> 'w) \<Rightarrow> nat \<Rightarrow> 'w \<Rightarrow> 'w" where
  "draws rnd 0 w = w"
| "draws rnd (Suc n) w = draws rnd n (snd (rnd w))"

definition drawn :: "('w \<Rightarrow> u16 \<times> 'w) \<Rightarrow> nat \<Rightarrow> 'w \<Rightarrow> u16" where
  "drawn rnd n w = fst (rnd (draws rnd n w))"

lemma drawn_Suc: "drawn rnd (Suc n) w = drawn rnd n (snd (rnd w))"
  by (simp add: drawn_def)

lemma drawn_0: "drawn rnd 0 w = fst (rnd w)"
  by (simp add: drawn_def)

lemma draw_port_result:
  assumes ret: "(draw_port rnd used port :: ('w, 'e, u16) prog) w = Some y"
  shows "\<exists>p. fst y = Ok p \<and> p \<noteq> 0 \<and> \<not> used p \<and> (p = port \<or> (\<exists>n. p = drawn rnd n w))"
proof (rule draw_port.raw_induct
    [where P = "\<lambda>rnd used port w y. \<exists>p. fst y = Ok p \<and> p \<noteq> 0 \<and> \<not> used p \<and> (p = port \<or> (\<exists>n. p = drawn rnd n w))",
      OF _ ret])
  fix f :: "('w \<Rightarrow> u16 \<times> 'w) \<Rightarrow> (u16 \<Rightarrow> bool) \<Rightarrow> u16 \<Rightarrow> ('w, 'e, u16) prog" and rnd used port w y
  assume IH: "\<And>rnd used port w y. f rnd used port w = Some y \<Longrightarrow>
      \<exists>p. fst y = Ok p \<and> p \<noteq> 0 \<and> \<not> used p \<and> (p = port \<or> (\<exists>n. p = drawn rnd n w))"
    and body: "(if port = 0 \<or> used port then case rnd w of (p, w') \<Rightarrow> f rnd used p w' else Some (Ok port, w)) = Some y"
  show "\<exists>p. fst y = Ok p \<and> p \<noteq> 0 \<and> \<not> used p \<and> (p = port \<or> (\<exists>n. p = drawn rnd n w))"
  proof (cases "port = 0 \<or> used port")
    case True
    with body have "f rnd used (fst (rnd w)) (snd (rnd w)) = Some y" by (simp split: prod.splits)
    from IH [OF this] show ?thesis by (metis drawn_0 drawn_Suc)
  qed (use body in auto)
qed

lemma draw_port_next:
  assumes "port = 0 \<or> used port"
  shows "draw_port rnd used port w = draw_port rnd used (fst (rnd w)) (snd (rnd w))"
  using assms by (subst draw_port.simps) (simp split: prod.splits)

lemma draw_port_free: "port \<noteq> 0 \<Longrightarrow> \<not> used port \<Longrightarrow> draw_port rnd used port w = Some (Ok port, w)"
  by (subst draw_port.simps) simp

lemma draw_port_returns:
  assumes "drawn rnd n w \<noteq> 0" and "\<not> used (drawn rnd n w)"
  shows "\<exists>p w'. draw_port rnd used port w = Some (Ok p :: (u16, 'e) outcome, w')"
  using assms
proof (induction n arbitrary: port w)
  case 0
  then show ?case
    by (cases "port = 0 \<or> used port") (simp_all add: draw_port_next draw_port_free drawn_def)
next
  case (Suc n)
  then have "\<exists>p w'. draw_port rnd used (fst (rnd w)) (snd (rnd w)) = Some (Ok p :: (u16, 'e) outcome, w')"
    using Suc.IH [of "snd (rnd w)"] by (simp add: drawn_Suc)
  then show ?case
    by (cases "port = 0 \<or> used port") (simp_all add: draw_port_next draw_port_free)
qed

text \<open>Configurations that ask for an address by DHCP.\<close>

fun wants_dhcp :: "stcp_backend \<Rightarrow> bool" where
  "wants_dhcp (MacVtapConfig (MacVtapCreate _ _ ipv4)) \<longleftrightarrow> ipv4 = Dhcp"
| "wants_dhcp (MacVtapConfig (MacVtapInterface _ ipv4)) \<longleftrightarrow> ipv4 = Dhcp"
| "wants_dhcp (NetmapConfig (NetmapDevice _ _ ipv4)) \<longleftrightarrow> ipv4 = Dhcp"
| "wants_dhcp (UsnetConfig (UsnetInterface _ _ _ ipv4)) \<longleftrightarrow> ipv4 = Dhcp"
| "wants_dhcp _ \<longleftrightarrow> False"

lemma finalize_dhcp: "finalize dev eth (ipv4_settings S W parent Dhcp) con w \<noteq> Some (Ok r, w')"
  by (cases dev) (simp add: finalize_def ipv4_settings_def pbind_def ppanic_def)

subsection \<open>Properties\<close>

text \<open>C16: Given the list of used ports, the search for a free port ends exactly when the random source ever
  yields a port that is neither zero nor in use, and then returns such a port. With all ports in use, or a
  source that never hits a free one, it runs forever.\<close>

theorem free_port_search:
  assumes "query_used_ports C U control w = Some (Ok (listening, connected) :: (_, 'e) outcome, w1)"
    and "used = (\<lambda>p. List.member (if connecting then connected else listening) (ul_protocol U Tcp, ip, p))"
  shows "if \<exists>n. drawn (pr_random16 Q) n w1 \<noteq> 0 \<and> \<not> used (drawn (pr_random16 Q) n w1)
    then \<exists>p w2. find_free_connecting_or_listening_port_for C Q U connecting control ip w =
        Some (Ok p :: (u16, 'e) outcome, w2) \<and> p \<noteq> 0 \<and> \<not> used p
    else find_free_connecting_or_listening_port_for C Q U connecting control ip w =
        (None :: ((u16, 'e) outcome \<times> _) option)"
proof -
  have find: "find_free_connecting_or_listening_port_for C Q U connecting control ip w =
      (draw_port (pr_random16 Q) used 0 w1 :: ((u16, 'e) outcome \<times> _) option)"
    using assms by (simp add: find_free_connecting_or_listening_port_for_def pbind_def)
  show ?thesis
  proof (cases "\<exists>n. drawn (pr_random16 Q) n w1 \<noteq> 0 \<and> \<not> used (drawn (pr_random16 Q) n w1)")
    case True
    then obtain p w2 where "draw_port (pr_random16 Q) used 0 w1 = Some (Ok p :: (u16, 'e) outcome, w2)"
      using draw_port_returns [where port = 0] by metis
    with draw_port_result [OF this] True find show ?thesis by auto
  next
    case False
    have "(draw_port (pr_random16 Q) used 0 w1 :: ((u16, 'e) outcome \<times> _) option) = None"
    proof (rule ccontr)
      assume "(draw_port (pr_random16 Q) used 0 w1 :: ((u16, 'e) outcome \<times> _) option) \<noteq> None"
      then obtain y where "(draw_port (pr_random16 Q) used 0 w1 :: ((u16, 'e) outcome \<times> _) option) = Some y" by blast
      from draw_port_result [OF this] False show False by metis
    qed
    with False find show ?thesis by simp
  qed
qed

text \<open>C18: A descriptor is accepted from \<open>usnetd\<close> only out of a complete message of the service itself that
  carries this one descriptor and nothing else.\<close>

theorem attach_genuine:
  assumes "attach C Q U request parent n w = Some (Ok (control, msg, fd), w')"
  shows "rm_cmsgs msg = [ScmRights [fd]] \<and> rm_address msg = Some (ul_socket_path U) \<and> \<not> rm_truncated msg"
proof -
  from assms have "accept_fd (ul_socket_path U) msg = Some fd"
    by (auto simp: attach_def Let_def punwrap_def pret_def ppanic_def split: prod.splits option.splits elim!: pbind_OkE)
  then show ?thesis by (simp add: accept_fd_iff)
qed

text \<open>A configuration that asks for DHCP never yields an interface.\<close>

theorem dhcp_unsupported:
  assumes "wants_dhcp backend"
  shows "to_interface S W V C Q U backend waiting_poll reduce_mtu_by w \<noteq> Some (Ok r, w')"
  using assms
  by (cases backend rule: wants_dhcp.cases)
    (auto simp: to_interface_def macvtap_interface_def netmap_interface_of_def usnet_uds_interface_def
      usnet_netmap_interface_def finalize_dhcp split: usnet_type.splits elim!: pbind_OkE)

subsection \<open>Runs\<close>

text \<open>A service that reports port 1 as used, and a random source that counts.\<close>

definition counting_ctl :: "(unit, u16) ctl_ops" where
  "counting_ctl =
     \<lparr>ct_send_to = \<lambda>_ b _ w. (Some (length b), w),
      ct_recv_from = \<lambda>_ _ w. Some (Ok (as_bytes (lit ''{}''), Some (lit ''/run/usnetd.socket'')), w),
      ct_local_addr = \<lambda>_ w. (None, w), ct_remove_file = \<lambda>_ w. (True, w)\<rparr>"

definition counting_proc :: "(unit, u16) proc_ops" where
  "counting_proc =
     \<lparr>pr_bind = \<lambda>_ w. (Some (), w),
      pr_recvmsg = \<lambda>_ _ w. Some (Some \<lparr>rm_data = [0], rm_cmsgs = [ScmRights [7]],
        rm_address = Some (lit ''/run/usnetd.socket''), rm_truncated = False\<rparr>, w),
      pr_uid = \<lambda>_. 1000, pr_pid = \<lambda>_. 1, pr_tid = \<lambda>_. 1, pr_random64 = \<lambda>w. (5, w),
      pr_random16 = \<lambda>w. (w, w + 1)\<rparr>"

definition used_1 :: usnetd_lib where
  "used_1 = plain_usnetd\<lparr>ul_from_json := \<lambda>_. Some (QueryUsedPortsAnswer [(6, CIpv4 (lit ''10.0.0.2''), 1)] [])\<rparr>"

lemma counting_query:
  "query_used_ports counting_ctl used_1 () w =
     Some (Ok ([(6, CIpv4 (lit ''10.0.0.2''), 1)], []) :: (_, unit) outcome, w)"
  by (simp add: query_used_ports_def pbind_def ctl_request_def pexpect_def punwrap_def pret_def counting_ctl_def
      used_1_def plain_usnetd_def str_len_def from_utf8_as_bytes scalars_of_lit Let_def)

theorem free_port_search_witness:
  "\<exists>p w2. find_free_connecting_or_listening_port_for counting_ctl counting_proc used_1 False () (CIpv4 (lit ''10.0.0.2'')) 0 =
     Some (Ok p :: (u16, unit) outcome, w2) \<and> p \<noteq> 0 \<and> p \<noteq> 1"
proof -
  let ?used = "\<lambda>p. List.member (if False then [] else [(6, CIpv4 (lit ''10.0.0.2''), 1)])
      (ul_protocol used_1 Tcp, CIpv4 (lit ''10.0.0.2''), p)"
  have "drawn (pr_random16 counting_proc) 2 0 = 2"
    by (simp add: drawn_def numeral_2_eq_2 counting_proc_def)
  then have "\<exists>n. drawn (pr_random16 counting_proc) n 0 \<noteq> 0 \<and> \<not> ?used (drawn (pr_random16 counting_proc) n 0)"
    by (intro exI [of _ 2]) (simp add: used_1_def)
  with free_port_search [where Q = counting_proc and connecting = False and ip = "CIpv4 (lit ''10.0.0.2'')",
      OF counting_query [of 0] refl]
  show ?thesis by (auto simp: used_1_def plain_usnetd_def)
qed

theorem attach_genuine_witness:
  "\<exists>msg w'. attach counting_ctl counting_proc plain_usnetd RequestUDS (lit ''eth0'') 1 0 = Some (Ok ((), msg, 7) :: (_, unit) outcome, w') \<and>
     rm_cmsgs msg = [ScmRights [7]] \<and> \<not> rm_truncated msg"
proof -
  have "\<exists>msg w'. attach counting_ctl counting_proc plain_usnetd RequestUDS (lit ''eth0'') 1 0 =
      Some (Ok ((), msg, 7) :: (_, unit) outcome, w')"
    by (simp add: attach_def pbind_def ctl_request_def pexpect_def punwrap_def pret_def counting_ctl_def
        counting_proc_def plain_usnetd_def str_len_def recv_blocking_def accept_fd_def Let_def)
  then obtain msg w' where run: "attach counting_ctl counting_proc plain_usnetd RequestUDS (lit ''eth0'') 1 0 =
      Some (Ok ((), msg, 7) :: (_, unit) outcome, w')" by blast
  from attach_genuine [OF this] run show ?thesis by blast
qed

theorem dhcp_unsupported_witness:
  "\<forall>S W V C Q U w r w'. to_interface S W V C Q U (MacVtapConfig (MacVtapInterface (lit ''macvtap0'') Dhcp)) True None w
     \<noteq> Some (Ok r, w')"
  by (intro allI dhcp_unsupported) simp

end
