(* ===== verification/Connect.thy ===== *)
theory Connect
  imports UdpSock Backend
begin

text \<open>
  \<^verbatim>\<open>StcpNetRef\<close> of \<^verbatim>\<open>apimultithread.rs\<close>: binding listeners and UDP sockets and
  connecting streams. Each goes through the addresses its argument stands for and takes the
  first that works; addresses of this machine are left to the operating system, the others
  take a port from the packet service and sockets from the user-space stack.
\<close>

subsection \<open>What the calls rely on\<close>

text \<open>Sockets of the operating system, and \<^verbatim>\<open>thread_rng().gen_range(1024, u16::MAX)\<close>.\<close>

record ('l, 'y, 'v, 's) sys_net =
  sn_tcp_bind :: "socket_addr \<Rightarrow> ('s api, io_error, 'l) prog"
  sn_tcp_connect :: "socket_addr \<Rightarrow> ('s api, io_error, 'y) prog"
  sn_tcp_connect_timeout :: "socket_addr \<Rightarrow> duration \<Rightarrow> ('s api, io_error, 'y) prog"
  sn_udp_bind :: "socket_addr \<Rightarrow> ('s api, io_error, 'v) prog"
  sn_gen_range :: "'s api \<Rightarrow> u16 \<times> 's api"

text \<open>The device answers for the stack: its addresses, and the request for a port.\<close>

record 's port_ops =
  po_ips :: "'s \<Rightarrow> ip_address list"
  po_add_match :: "ip_addr \<Rightarrow> u16 option \<Rightarrow> ip_addr option \<Rightarrow> u16 option \<Rightarrow> ip_protocol \<Rightarrow> ('s, io_error, unit) prog"

text \<open>The operations that a backend device provides.\<close>

definition device_ports ::
  "('i, 'c, 'z) iface_ops \<Rightarrow> ('k, 's) ctl_ops \<Rightarrow> usnetd_lib \<Rightarrow> ('i, 'k) backend_interface \<Rightarrow> 's port_ops" where
  "device_ports I C U D =
     \<lparr>po_ips = \<lambda>_. map (io_cidr_address I) (dev_ips I D), po_add_match = add_port_match I C U D\<rparr>"

definition on_stack :: "('s, 'e, 'a) prog \<Rightarrow> ('s api, 'e, 'a) prog" where
  "on_stack m a = map_option (\<lambda>(out, s). (out, a\<lparr>api_net := (api_net a)\<lparr>net_stack := s\<rparr>\<rparr>)) (m (api_stack a))"

definition random_port :: "('l, 'y, 'v, 's) sys_net \<Rightarrow> 's api \<Rightarrow> u16 \<times> 's api" where
  "random_port B a = (case sn_gen_range B a of (r, a') \<Rightarrow> (1 + r, a'))"

text \<open>\<^verbatim>\<open>SocketAddr::set_port\<close>, and \<^verbatim>\<open>set_ip\<close> with an IPv4 address.\<close>

fun set_port :: "u16 \<Rightarrow> socket_addr \<Rightarrow> socket_addr" where
  "set_port p (SockV4 ip _) = SockV4 ip p"
| "set_port p (SockV6 ip _ fl sc) = SockV6 ip p fl sc"

definition set_ipv4 :: "ipv4_addr \<Rightarrow> socket_addr \<Rightarrow> socket_addr" where
  "set_ipv4 ip sa = SockV4 ip (sa_port sa)"

fun is_err :: "('a, 'e) outcome \<Rightarrow> bool" where
  "is_err (Err e) = True"
| "is_err _ = False"

definition uninit :: "('a, io_error) outcome" where
  "uninit = Err (io_error_new KOther (lit ''uninit''))"

definition addrs_empty :: io_error where
  "addrs_empty = io_error_new KOther (lit ''to_socket_addrs is empty'')"

subsection \<open>Finding a port to listen on\<close>

text \<open>\<open>pcatch\<close> keeps an error as a value, as an assignment of a \<^verbatim>\<open>Result\<close> to a variable does.\<close>

definition pcatch :: "('s, 'e, 'a) prog \<Rightarrow> ('s, 'e, ('a, 'e) outcome) prog" where
  "pcatch m s =
     (case m s of
        None \<Rightarrow> None
      | Some (Ok a, s') \<Rightarrow> Some (Ok (Ok a), s')
      | Some (Err e, s') \<Rightarrow> Some (Ok (Err e), s')
      | Some (Panic, s') \<Rightarrow> Some (Panic, s'))"

definition lo_addr :: "socket_addr \<Rightarrow> socket_addr" where
  "lo_addr sa = (if is_unspecified (sa_ip sa) then set_ipv4 (Ipv4Addr 127 0 0 1) sa else sa)"

text \<open>One turn of the \<^verbatim>\<open>while\<close> loop up to the \<^verbatim>\<open>break\<close>.\<close>

definition bind_turn where
  "bind_turn B lobind usnet find_random sa us a =
     (let (sa1, a1) = (if find_random then (case random_port B a of (p, a1) \<Rightarrow> (set_port p sa, a1)) else (sa, a))
      in pbind (pcatch (lobind (lo_addr sa1))) (\<lambda>lo1.
           pbind (if \<not> is_err lo1 \<and> \<not> is_loopback (sa_ip sa1) then pcatch (usnet (sa_port sa1)) else pret us) (\<lambda>us1.
             pret (sa1, lo1, us1))) a1)"

partial_function (option) bind_loop ::
  "('l, 'y, 'v, 's) sys_net \<Rightarrow> (socket_addr \<Rightarrow> ('s api, io_error, 'b) prog) \<Rightarrow> (u16 \<Rightarrow> ('s api, io_error, unit) prog) \<Rightarrow>
   bool \<Rightarrow> socket_addr \<Rightarrow> ('b, io_error) outcome \<Rightarrow> (unit, io_error) outcome \<Rightarrow>
   ('s api, io_error, socket_addr \<times> ('b, io_error) outcome \<times> (unit, io_error) outcome) prog" where
  "bind_loop B lobind usnet find_random sa lo us a =
     (if is_err lo \<and> (is_err us \<or> is_loopback (sa_ip sa)) then
        pbind (bind_turn B lobind usnet find_random sa us) (\<lambda>r a1.
          if \<not> find_random then Some (Ok r, a1)
          else bind_loop B lobind usnet find_random (fst r) (fst (snd r)) (snd (snd r)) a1) a
      else Some (Ok (sa, lo, us), a))"

definition usnet_listen where
  "usnet_listen P ip proto port = on_stack (po_add_match P ip (Some port) None None proto)"

definition find_listen_port where
  "find_listen_port B P lobind proto sa =
     bind_loop B lobind (usnet_listen P (sa_ip sa) proto) (sa_port sa = 0) sa uninit uninit"

subsection \<open>\<open>bind\<close>\<close>

definition ipv6_bind :: io_error where
  "ipv6_bind = io_error_new KOther (lit ''ipv6 bind'')"

text \<open>The pool of listening sockets.\<close>

primrec listen_pool :: "'s tcp_ops \<Rightarrow> u16 \<Rightarrow> nat \<Rightarrow> ('s stcp_net, 'e, handle list) prog" where
  "listen_pool T port 0 = pret []"
| "listen_pool T port (Suc n) = (\<lambda>net.
     case create_socket T net of
       (h, net1) \<Rightarrow>
         (case tcp_listen T h port (net_stack net1) of
            (Ok _, s) \<Rightarrow> pbind (listen_pool T port n) (\<lambda>hs. pret (h # hs)) (net1\<lparr>net_stack := s\<rparr>)
          | (_, s) \<Rightarrow> Some (Panic, net1\<lparr>net_stack := s\<rparr>)))"

definition register_fd :: "raw_fd \<Rightarrow> 's api \<Rightarrow> 's api" where
  "register_fd fd a =
     (let net = api_net a in a\<lparr>api_net := net\<lparr>net_fds_add := net_fds_add net @ [fd]\<rparr>\<rparr>)"

definition new_listener :: "handle list option \<Rightarrow> 'l \<Rightarrow> u16 \<Rightarrow> 'l stcp_listener" where
  "new_listener hs lo port =
     \<lparr>ln_handles = hs, ln_lo = lo, ln_port = port, ln_ttl = None, ln_nonblocking = False\<rparr>"

definition start_listening where
  "start_listening X T lo port =
     pbind (lo_set_nonblocking X lo True) (\<lambda>_ a.
       pbind (\<lambda>a. on_net (listen_pool T port (net_backlog (api_net a))) a)
         (\<lambda>hs. pret (new_listener (Some hs) lo port)) (register_fd (lo_fd X lo) a))"

text \<open>What happens to an address once its port was tried; \<open>again\<close> goes on with the next address.\<close>

definition bind_found where
  "bind_found X T again = (\<lambda>(sa1, lo_result, usnet_result :: (unit, io_error) outcome).
     (case lo_result of
        Ok lolisten \<Rightarrow>
          if is_loopback (sa_ip sa1) then pret (new_listener None lolisten (sa_port sa1))
          else (case usnet_result of
                  Ok _ \<Rightarrow> start_listening X T lolisten (sa_port sa1)
                | Err e \<Rightarrow> again (Err e)
                | Panic \<Rightarrow> ppanic)
      | Err e \<Rightarrow> again (Err e)
      | Panic \<Rightarrow> ppanic))"

primrec bind_each where
  "bind_each B P X T [] = (\<lambda>r. pout r)"
| "bind_each B P X T (sa # rest) = (\<lambda>r.
     if \<not> is_loopback (sa_ip sa) \<and> is_ipv6 (sa_ip sa) then bind_each B P X T rest (Err ipv6_bind)
     else pbind (find_listen_port B P (sn_tcp_bind B) Tcp sa) (bind_found X T (bind_each B P X T rest)))"

definition net_bind where
  "net_bind B P X T addrs = pbind addrs (\<lambda>l. bind_each B P X T l (Err addrs_empty))"

subsection \<open>\<open>connect\<close>\<close>

text \<open>Ports are drawn until one lies outside the range of the kernel and is granted.\<close>

partial_function (option) pick_port ::
  "('l, 'y, 'v, 's) sys_net \<Rightarrow> (u16 \<Rightarrow> ('s api, io_error, unit) prog) \<Rightarrow> u16 \<times> u16 \<Rightarrow> ('s api, io_error, u16) prog" where
  "pick_port B grant ports a =
     (case random_port B a of
        (local_port, a1) \<Rightarrow>
          if fst ports \<le> local_port \<and> local_port \<le> snd ports then pick_port B grant ports a1
          else (case grant local_port a1 of
                  None \<Rightarrow> None
                | Some (Ok _, a2) \<Rightarrow> Some (Ok local_port, a2)
                | Some (Err _, a2) \<Rightarrow> pick_port B grant ports a2
                | Some (Panic, a2) \<Rightarrow> Some (Panic, a2)))"

definition own_ip :: "ip_address \<Rightarrow> (ip_addr, io_error) outcome" where
  "own_ip ip =
     (case ip of
        AddrV4 v \<Rightarrow> Ok (V4 v)
      | AddrV6 v \<Rightarrow> Ok (V6 v)
      | AddrUnspecified \<Rightarrow> Ok (V4 (Ipv4Addr 0 0 0 0))
      | AddrHidden \<Rightarrow> Panic)"

text \<open>Whether the connection came about; a timeout aborts it, and a deadline that cannot be represented
  is a panic.\<close>

partial_function (option) connect_wait ::
  "'s sync_ops \<Rightarrow> 's tcp_ops \<Rightarrow> handle \<Rightarrow> duration option \<Rightarrow> nat \<Rightarrow> ('s api, io_error, bool) prog" where
  "connect_wait Y T h timeout start a =
     (if \<not> tcp_is_active T h (api_stack a) then Some (Ok False, a)
      else if tcp_may_recv T h (api_stack a) \<and> tcp_may_send T h (api_stack a) then Some (Ok True, a)
      else (case timeout of
              Some d \<Rightarrow>
                (case sy_deadline Y start d of
                   None \<Rightarrow> Some (Panic, a)
                 | Some t \<Rightarrow>
                     (case sy_wait_until Y t a of
                        None \<Rightarrow> None
                      | Some (timed_out, a') \<Rightarrow>
                          if timed_out then Some (Ok False, upd_stack (tcp_abort T h) a')
                          else connect_wait Y T h timeout start a'))
            | None \<Rightarrow> (case sy_wait Y a of None \<Rightarrow> None | Some a' \<Rightarrow> connect_wait Y T h timeout start a')))"

definition connect_failed :: io_error where
  "connect_failed = io_error_new KOther (lit ''connection not successful'')"

text \<open>The socket: created and connected, the background thread woken, the result awaited.\<close>

definition open_connection where
  "open_connection Y T cap addr local_port timeout a =
     (case create_socket T (api_net a) of
        (h, net1) \<Rightarrow>
          (case tcp_connect T h addr local_port (net_stack net1) of
             (Ok _, s) \<Rightarrow>
               pbind (on_net (wake_bg cap)) (\<lambda>_ a2.
                 pbind (connect_wait Y T h timeout (sy_now Y a2)) (\<lambda>ok a3.
                   if ok then (case stream_new h False a3 of (st, a4) \<Rightarrow> Some (Ok (Ok (Stcp st)), a4))
                   else Some (Ok (Err connect_failed), upd_stack (\<lambda>s. set_prune T (set_release T h s)) a3)) a2)
                 (a\<lparr>api_net := net1\<lparr>net_stack := s\<rparr>\<rparr>)
           | (_, s) \<Rightarrow> Some (Panic, a\<lparr>api_net := net1\<lparr>net_stack := s\<rparr>\<rparr>)))"

definition sys_connect where
  "sys_connect B addr timeout =
     pbind (case timeout of Some d \<Rightarrow> sn_tcp_connect_timeout B addr d | None \<Rightarrow> sn_tcp_connect B addr)
       (\<lambda>y. pret (System y))"

definition ipv6_address :: io_error where
  "ipv6_address = io_error_new KOther (lit ''ipv6 address'')"

definition connect_stack where
  "connect_stack B P Y T cap ipv4 addr timeout a =
     pbind (pick_port B
              (\<lambda>p. pbind (pout (own_ip ipv4)) (\<lambda>own.
                 on_stack (po_add_match P own (Some p) (Some (sa_ip addr)) (Some (sa_port addr)) Tcp)))
              (net_port_range (api_net a))) (\<lambda>local_port.
       open_connection Y T cap addr local_port timeout) a"

definition connect_one where
  "connect_one B P Y T cap addr timeout a =
     pbind (pindex (po_ips P (api_stack a)) 0) (\<lambda>ipv4.
       if is_loopback (sa_ip addr) \<or> ip_address_from (sa_ip addr) = ipv4 \<or> is_unspecified (sa_ip addr)
       then pcatch (sys_connect B addr timeout)
       else if is_ipv6 (sa_ip addr) then pret (Err ipv6_address)
       else connect_stack B P Y T cap ipv4 addr timeout) a"

primrec connect_each where
  "connect_each B P Y T cap timeout r [] = pout r"
| "connect_each B P Y T cap timeout r (addr # rest) =
     pbind (connect_one B P Y T cap addr timeout) (\<lambda>r1.
       case r1 of
         Ok stream \<Rightarrow> pret stream
       | _ \<Rightarrow> connect_each B P Y T cap timeout r1 rest)"

definition net_connect_timeout_opt where
  "net_connect_timeout_opt B P Y T cap addrs timeout =
     pbind addrs (connect_each B P Y T cap timeout (Err addrs_empty))"

definition net_connect where
  "net_connect B P Y T cap addrs = net_connect_timeout_opt B P Y T cap addrs None"

text \<open>A socket address stands for itself.\<close>

definition net_connect_timeout where
  "net_connect_timeout B P Y T cap addr d = net_connect_timeout_opt B P Y T cap (pret [addr]) (Some d)"

subsection \<open>\<open>bind_udp\<close>\<close>

definition new_udp_socket :: "handle option \<Rightarrow> 'v \<Rightarrow> 's api \<Rightarrow> 'v udp_socket \<times> 's api" where
  "new_udp_socket h lo a =
     (case new_cell (default_cfg False) a of (c, a') \<Rightarrow> (\<lparr>us_handle = h, us_lo = lo, us_cell = c\<rparr>, a'))"

definition start_udp where
  "start_udp N V lo port =
     pbind (lou_set_nonblocking N lo True) (\<lambda>_ a.
       let a1 = register_fd (lou_fd N lo) a
       in case udp_new V 1000 (net_buffer_size (api_net a1)) (api_stack a1) of
            (h, s) \<Rightarrow>
              (case udp_bind_port V h port s of
                 (Ok _, s') \<Rightarrow>
                   (case new_udp_socket (Some h) lo (a1\<lparr>api_net := (api_net a1)\<lparr>net_stack := s'\<rparr>\<rparr>) of
                      (us, a2) \<Rightarrow> Some (Ok us, a2))
               | (_, s') \<Rightarrow> Some (Panic, a1\<lparr>api_net := (api_net a1)\<lparr>net_stack := s'\<rparr>\<rparr>)))"

definition bind_udp_found where
  "bind_udp_found N V again = (\<lambda>(sa1, lo_result, usnet_result :: (unit, io_error) outcome).
     (case lo_result of
        Ok lolisten \<Rightarrow>
          if is_loopback (sa_ip sa1) then
            (\<lambda>a. case new_udp_socket None lolisten a of (us, a1) \<Rightarrow> Some (Ok us, a1))
          else (case usnet_result of
                  Ok _ \<Rightarrow> start_udp N V lolisten (sa_port sa1)
                | Err e \<Rightarrow> again (Err e)
                | Panic \<Rightarrow> ppanic)
      | Err e \<Rightarrow> again (Err e)
      | Panic \<Rightarrow> ppanic))"

primrec bind_udp_each where
  "bind_udp_each B P N V [] = (\<lambda>r. pout r)"
| "bind_udp_each B P N V (sa # rest) = (\<lambda>r.
     if \<not> is_loopback (sa_ip sa) \<and> is_ipv6 (sa_ip sa) then bind_udp_each B P N V rest (Err ipv6_bind)
     else pbind (find_listen_port B P (sn_udp_bind B) Udp sa) (bind_udp_found N V (bind_udp_each B P N V rest)))"

definition net_bind_udp where
  "net_bind_udp B P N V addrs = pbind addrs (\<lambda>l. bind_udp_each B P N V l (Err addrs_empty))"

subsection \<open>\<open>send_to\<close> and \<open>connect\<close> of a UDP socket with an address argument\<close>

definition first_addr :: "('s, io_error, socket_addr list) prog \<Rightarrow> ('s, io_error, socket_addr) prog" where
  "first_addr addrs =
     pbind addrs (\<lambda>l. case l of
        sa # _ \<Rightarrow> pret sa
      | [] \<Rightarrow> pthrow (io_error_new KOther (lit ''to sock addr empty'')))"

definition us_send_to_addrs where
  "us_send_to_addrs N V Y cap us buf addrs = pbind (first_addr addrs) (us_send_to N V Y cap us buf)"

definition us_connect_addrs where
  "us_connect_addrs N V us addrs = pbind (first_addr addrs) (us_connect N V us)"

subsection \<open>Facts\<close>

text \<open>What is documented of \<^verbatim>\<open>gen_range(1024, u16::MAX)\<close>.\<close>

definition range_respected :: "('l, 'y, 'v, 's) sys_net \<Rightarrow> bool" where
  "range_respected B \<longleftrightarrow> (\<forall>a. 1024 \<le> fst (sn_gen_range B a) \<and> fst (sn_gen_range B a) < 0xffff)"

lemma random_port_bounds:
  assumes "range_respected B"
  shows "1024 < fst (random_port B a)"
proof -
  obtain r a' where r: "sn_gen_range B a = (r, a')" by fastforce
  with assms have b: "1024 \<le> r" "r < 0xffff" unfolding range_respected_def by (metis fst_conv)+
  then have "1024 \<le> unat r" "unat r < 65535" by (simp_all add: word_le_nat_alt word_less_nat_alt)
  moreover from this have "unat (1 + r) = 1 + unat r" by (simp add: unat_word_ariths)
  ultimately show ?thesis by (simp add: random_port_def r word_less_nat_alt)
qed

definition port_reserved :: "(u16 \<Rightarrow> ('s api, io_error, unit) prog) \<Rightarrow> u16 \<times> u16 \<Rightarrow> (u16, io_error) outcome \<times> 's api \<Rightarrow> bool" where
  "port_reserved grant ports y \<longleftrightarrow>
     (\<forall>p a'. y = (Ok p, a') \<longrightarrow>
        1024 < p \<and> \<not> (fst ports \<le> p \<and> p \<le> snd ports) \<and> (\<exists>a1. grant p a1 = Some (Ok (), a')))"

lemma pick_port_reserved:
  fixes B :: "('l, 'y, 'v, 's) sys_net"
  assumes ret: "pick_port B grant ports a = Some y" and "range_respected B"
  shows "port_reserved grant ports y"
proof -
  have "range_respected B \<longrightarrow> port_reserved grant ports y"
  proof (rule pick_port.raw_induct
      [where P = "\<lambda>B grant ports a y. range_respected B \<longrightarrow> port_reserved grant ports y", OF _ ret])
    fix f and B :: "('l, 'y, 'v, 's) sys_net" and grant ports a y
    assume IH: "\<And>(B :: ('l, 'y, 'v, 's) sys_net) grant ports a y.
        f B grant ports a = Some y \<Longrightarrow> range_respected B \<longrightarrow> port_reserved grant ports y"
      and body: "(case random_port B a of (local_port, a1) \<Rightarrow>
          if fst ports \<le> local_port \<and> local_port \<le> snd ports then f B grant ports a1
          else case grant local_port a1 of None \<Rightarrow> None
               | Some (Ok xc, a2) \<Rightarrow> Some (Ok local_port, a2)
               | Some (Err xc, a2) \<Rightarrow> f B grant ports a2
               | Some (Panic, a2) \<Rightarrow> Some (Panic, a2)) = Some y"
    show "range_respected B \<longrightarrow> port_reserved grant ports y"
    proof
      assume B: "range_respected B"
      obtain p a1 where p: "random_port B a = (p, a1)" by fastforce
      with random_port_bounds [OF B, of a] have low: "1024 < p" by simp
      from body p B IH show "port_reserved grant ports y"
        by (auto simp: port_reserved_def low split: if_splits option.splits outcome.splits prod.splits)
    qed
  qed
  with assms(2) show ?thesis by simp
qed

text \<open>The pool.\<close>

lemma create_socket_keeps:
  assumes "create_socket T net = (h, net1)"
  shows "net_fds_add net1 = net_fds_add net" "net_backlog net1 = net_backlog net"
  using assms by (auto simp: create_socket_def split: prod.splits)

lemma listen_pool_Ok:
  assumes "listen_pool T port n net = Some (Ok hs :: (handle list, 'e) outcome, net')"
    and laws: "socket_laws T live port_of"
  shows "length hs = n \<and> net_fds_add net' = net_fds_add net \<and> net_backlog net' = net_backlog net \<and>
    distinct hs \<and> set hs \<inter> live (net_stack net) = {} \<and> live (net_stack net') = live (net_stack net) \<union> set hs \<and>
    (\<forall>h \<in> set hs. port_of (net_stack net') h = Some port) \<and>
    (\<forall>k \<in> live (net_stack net). port_of (net_stack net') k = port_of (net_stack net) k)"
  using assms(1)
proof (induction n arbitrary: net hs)
  case (Suc n)
  obtain h net1 where c: "create_socket T net = (h, net1)" by fastforce
  obtain out s where l: "tcp_listen T h port (net_stack net1) = (out, s)" by fastforce
  from Suc.prems c l obtain hs' where out: "out = Ok ()" and hs: "hs = h # hs'"
    and rest: "listen_pool T port n (net1\<lparr>net_stack := s\<rparr>) = Some (Ok hs' :: (handle list, 'e) outcome, net')"
    by (cases out) (auto simp: pret_def elim!: pbind_OkE)
  note cs = create_socket_laws [OF laws c]
  have "h \<in> live (net_stack net1)" using cs(2) by simp
  note ls = listen_laws [OF laws this l [unfolded out]]
  note IH = Suc.IH [OF rest, simplified]
  have "port_of (net_stack net') k = port_of (net_stack net) k" if k: "k \<in> live (net_stack net)" for k
  proof -
    from k cs(1,2) ls(1) have "k \<noteq> h" "k \<in> live s" by auto
    with IH ls(3) [of k] cs(3) [OF k] show ?thesis by simp
  qed
  moreover have "port_of (net_stack net') h = Some port" "h \<notin> set hs'"
    using IH ls(1,2) cs(2) by auto
  ultimately show ?case
    using IH create_socket_keeps [OF c] cs(1,2) ls(1) by (auto simp: hs)
qed (simp add: pret_def)

text \<open>A listener with a pool of full size, all of it listening, and the loopback descriptor queued last.\<close>

definition pool_ready ::
  "('s \<Rightarrow> handle set) \<Rightarrow> ('s \<Rightarrow> handle \<Rightarrow> u16 option) \<Rightarrow> ('l, 'y, 's) sys_listener \<Rightarrow> 'l stcp_listener \<Rightarrow> 's api \<Rightarrow> bool" where
  "pool_ready live port_of X ln a \<longleftrightarrow>
     (\<exists>hs fds. ln_handles ln = Some hs \<and> length hs = net_backlog (api_net a) \<and> distinct hs \<and>
        (\<forall>h \<in> set hs. h \<in> live (api_stack a) \<and> port_of (api_stack a) h = Some (ln_port ln)) \<and>
        net_fds_add (api_net a) = fds @ [lo_fd X (ln_lo ln)])"

lemma start_listening_Ok:
  assumes "start_listening X T lo port a = Some (Ok ln, a')" and laws: "socket_laws T live port_of"
  shows "pool_ready live port_of X ln a'"
proof -
  from assms(1) obtain a1 hs where pool: "on_net (listen_pool T port (net_backlog (api_net (register_fd (lo_fd X lo) a1))))
       (register_fd (lo_fd X lo) a1) = Some (Ok hs :: (_, io_error) outcome, a')"
    and ln: "ln = new_listener (Some hs) lo port"
    by (auto simp: start_listening_def pret_def elim!: pbind_OkE)
  from pool obtain net' where "listen_pool T port (net_backlog (api_net (register_fd (lo_fd X lo) a1)))
      (api_net (register_fd (lo_fd X lo) a1)) = Some (Ok hs :: (_, io_error) outcome, net')" and a': "api_net a' = net'"
    by (auto simp: on_net_def)
  from listen_pool_Ok [OF this(1) laws] show ?thesis
    by (simp add: pool_ready_def ln a' new_listener_def register_fd_def Let_def)
qed

lemma bind_found_Ok:
  assumes "bind_found X T again r a = Some (Ok ln, a')" and laws: "socket_laws T live port_of"
  shows "ln_handles ln = None \<or> pool_ready live port_of X ln a' \<or> (\<exists>e. again (Err e) a = Some (Ok ln, a'))"
proof -
  obtain sa1 lo us where r: "r = (sa1, lo, us)" by (cases r) auto
  from assms(1) show ?thesis
    by (cases lo; cases us)
      (auto simp: bind_found_def r pret_def ppanic_def new_listener_def split: if_splits
        dest: start_listening_Ok [OF _ laws])
qed

lemma bind_each_Ok:
  assumes "bind_each B P X T addrs (Err e) a = Some (Ok ln, a')" and laws: "socket_laws T live port_of"
  shows "ln_handles ln = None \<or> pool_ready live port_of X ln a'"
  using assms(1)
proof (induction addrs arbitrary: e a)
  case Nil
  then show ?case by (simp add: pout_def)
next
  case (Cons sa rest)
  show ?case
  proof (cases "\<not> is_loopback (sa_ip sa) \<and> is_ipv6 (sa_ip sa)")
    case True
    with Cons show ?thesis by simp
  next
    case False
    with Cons.prems obtain r a1 where "bind_found X T (bind_each B P X T rest) r a1 = Some (Ok ln, a')"
      by (auto elim!: pbind_OkE)
    from bind_found_Ok [OF this laws] Cons.IH show ?thesis by blast
  qed
qed

text \<open>Waiting for a connection ends with an established one or without.\<close>

definition connect_end_ok :: "'s tcp_ops \<Rightarrow> handle \<Rightarrow> (bool, io_error) outcome \<times> 's api \<Rightarrow> bool" where
  "connect_end_ok T h y \<longleftrightarrow> (fst y = Ok True \<longrightarrow> conn_ready T (api_stack (snd y)) h)"

lemma connect_wait_end:
  fixes Y :: "'s sync_ops"
  assumes ret: "connect_wait Y T h timeout start a = Some y"
  shows "connect_end_ok T h y"
proof (rule connect_wait.raw_induct [where P = "\<lambda>Y T h timeout start a y. connect_end_ok T h y", OF _ ret])
  fix f and Y :: "'s sync_ops" and T h timeout start a y
  assume IH: "\<And>(Y :: 's sync_ops) T h timeout start a y. f Y T h timeout start a = Some y \<Longrightarrow> connect_end_ok T h y"
    and body: "(if \<not> tcp_is_active T h (api_stack a) then Some (Ok False, a)
      else if tcp_may_recv T h (api_stack a) \<and> tcp_may_send T h (api_stack a) then Some (Ok True, a)
      else case timeout of
             None \<Rightarrow> (case sy_wait Y a of None \<Rightarrow> None | Some a' \<Rightarrow> f Y T h timeout start a')
           | Some d \<Rightarrow>
               (case sy_deadline Y start d of
                  None \<Rightarrow> Some (Panic, a)
                | Some t \<Rightarrow>
                    (case sy_wait_until Y t a of
                       None \<Rightarrow> None
                     | Some (timed_out, a') \<Rightarrow>
                         if timed_out then Some (Ok False, upd_stack (tcp_abort T h) a')
                         else f Y T h timeout start a'))) = Some y"
  show "connect_end_ok T h y"
    using body IH
    by (auto simp: connect_end_ok_def conn_ready_def split: if_splits option.splits prod.splits)
qed

lemma connect_wait_returns:
  assumes "timely Y c"
  shows "connect_wait Y T h (Some d) start a \<noteq> None"
proof (cases "sy_deadline Y start d")
  case None
  then show ?thesis by (subst connect_wait.simps) simp
next
  case (Some t)
  from timely_wf [OF assms, of t] show ?thesis
  proof (induction a rule: wf_induct_rule)
    case (less a)
    obtain late a' where "sy_wait_until Y t a = Some (late, a')" "\<not> late \<Longrightarrow> (a', a) \<in> early_wake Y t"
      using timely_waitE [OF assms, of t a] by blast
    with less Some show ?case by (subst connect_wait.simps) auto
  qed
qed

lemma stream_new_stack: "stream_new h nb a = (st, a') \<Longrightarrow> ss_handle st = h \<and> api_stack a' = api_stack a"
  by (auto simp: stream_new_def new_cell_def)

lemma open_connection_Ok:
  assumes "open_connection Y T cap addr port timeout a = Some (Ok (Ok (Stcp st)), a')"
  shows "conn_ready T (api_stack a') (ss_handle st)"
proof -
  obtain h net1 where c: "create_socket T (api_net a) = (h, net1)" by fastforce
  obtain out s where k: "tcp_connect T h addr port (net_stack net1) = (out, s)" by fastforce
  from assms c k obtain a2 a3 where w: "connect_wait Y T h timeout (sy_now Y a2) a2 = Some (Ok True, a3)"
    and n: "stream_new h False a3 = (st, a')"
    by (cases out) (auto simp: open_connection_def elim!: pbind_OkE split: if_splits prod.splits)
  from connect_wait_end [OF w] stream_new_stack [OF n] show ?thesis by (simp add: connect_end_ok_def)
qed

lemma connect_one_Ok:
  fixes B :: "('l, 'y, 'v, 's) sys_net"
  assumes "connect_one B P Y T cap addr timeout a = Some (Ok (Ok (Stcp st)), a')"
  shows "conn_ready T (api_stack a') (ss_handle st)"
proof -
  have "pcatch (sys_connect B addr timeout) b \<noteq> Some (Ok (Ok (Stcp st)), a')" for b
    by (auto simp: pcatch_def sys_connect_def pret_def elim!: pbind_cases split: option.splits outcome.splits prod.splits)
  with assms obtain ipv4 b where
    "connect_stack B P Y T cap ipv4 addr timeout b = Some (Ok (Ok (Stcp st :: 'y tcp_stream)), a')"
    by (auto simp: connect_one_def pret_def elim!: pbind_OkE split: if_splits)
  then show ?thesis
    by (auto simp: connect_stack_def elim!: pbind_OkE intro: open_connection_Ok)
qed

lemma connect_each_Ok:
  assumes "connect_each B P Y T cap timeout r addrs a = Some (Ok (Stcp st), a')" and "\<And>s. r \<noteq> Ok s"
  shows "conn_ready T (api_stack a') (ss_handle st)"
  using assms
proof (induction addrs arbitrary: r a)
  case Nil
  then show ?case by (simp add: pout_def)
next
  case (Cons addr rest)
  then obtain r1 a1 where one: "connect_one B P Y T cap addr timeout a = Some (Ok r1, a1)"
    and more: "(case r1 of Ok stream \<Rightarrow> pret stream | _ \<Rightarrow> connect_each B P Y T cap timeout r1 rest) a1 = Some (Ok (Stcp st), a')"
    by (auto elim!: pbind_OkE)
  then show ?case
    by (cases r1) (auto simp: pret_def intro: connect_one_Ok Cons.IH)
qed

lemma find_listen_port_random:
  assumes "sa_port sa = 0" and "\<not> is_loopback (sa_ip sa)"
    and "random_port B a = (p, a1)"
    and "lobind (lo_addr (set_port p sa)) a1 = Some (Ok lo, a2)"
    and "usnet_listen P (sa_ip sa) proto p a2 = Some (out, a3)" and "out \<noteq> Panic"
  shows "find_listen_port B P lobind proto sa a = Some (Ok (set_port p sa, Ok lo, out), a3)"
proof -
  have ip: "sa_ip (set_port p sa) = sa_ip sa" "sa_port (set_port p sa) = p" by (cases sa; simp)+
  have "bind_turn B lobind (usnet_listen P (sa_ip sa) proto) True sa uninit a =
      Some (Ok (set_port p sa, Ok lo, out), a3)"
    using assms ip by (cases out) (simp_all add: bind_turn_def pbind_def pcatch_def pret_def)
  then show ?thesis
    unfolding find_listen_port_def using assms(1)
    by (subst bind_loop.simps) (simp add: uninit_def pbind_def, subst bind_loop.simps, simp)
qed

subsection \<open>Properties\<close>

text \<open>C11: The local port of an outgoing connection is above 1024, outside the range the kernel hands out
  itself, and was granted by the packet service as the last thing that happened.\<close>

theorem connect_port_reserved:
  assumes "range_respected B" and "pick_port B grant ports a = Some (Ok p, a')"
  shows "1024 < p \<and> \<not> (fst ports \<le> p \<and> p \<le> snd ports) \<and> (\<exists>a1. grant p a1 = Some (Ok (), a'))"
  using pick_port_reserved [OF assms(2,1)] by (simp add: port_reserved_def)

text \<open>C12: A stream over the stack that \<open>connect\<close> returns is an established connection in the state it returns.\<close>

theorem connect_established:
  assumes "net_connect_timeout_opt B P Y T cap addrs timeout a = Some (Ok (Stcp st), a')"
  shows "conn_ready T (api_stack a') (ss_handle st)"
  using assms by (auto simp: net_connect_timeout_opt_def elim!: pbind_OkE intro: connect_each_Ok)

text \<open>C14: A listener that \<open>bind\<close> returns is a loopback listener, or it has a pool of exactly the configured
  number of different sockets, each of which is in use and listens on the port of the listener when
  \<open>bind\<close> returns, and its loopback descriptor is queued for the background thread. This is for a
  stack whose socket set hands out unused handles and whose \<open>listen\<close> listens.\<close>

theorem bind_fills_pool:
  fixes X :: "('l, 'z, 's) sys_listener"
  assumes "socket_laws T live port_of" and "net_bind B P X T addrs a = Some (Ok ln, a')"
  shows "ln_handles ln = None \<or>
    (\<exists>hs fds. ln_handles ln = Some hs \<and> length hs = net_backlog (api_net a') \<and> distinct hs \<and>
       (\<forall>h \<in> set hs. h \<in> live (api_stack a') \<and> port_of (api_stack a') h = Some (ln_port ln)) \<and>
       net_fds_add (api_net a') = fds @ [lo_fd X (ln_lo ln)])"
proof -
  from assms(2) obtain l b where "bind_each B P X T l (Err addrs_empty) b = Some (Ok ln, a')"
    by (auto simp: net_bind_def elim!: pbind_OkE)
  from bind_each_Ok [OF this assms(1)] show ?thesis by (auto simp: pool_ready_def)
qed

text \<open>Asked for any free port, \<open>bind\<close> gives up on the first port that the packet service refuses, although
  its loop is there to try further ones: the loop goes on only while the loopback listener fails.\<close>

theorem bind_gives_up:
  assumes "\<not> is_loopback (V4 ip)" and "random_port B a = (p, a1)"
    and "sn_tcp_bind B (lo_addr (SockV4 ip p)) a1 = Some (Ok lo, a2)"
    and "on_stack (po_add_match P (V4 ip) (Some p) None None Tcp) a2 = Some (Err e, a3)"
  shows "net_bind B P X T (pret [SockV4 ip 0]) a = Some (Err e, a3)"
proof -
  have "find_listen_port B P (sn_tcp_bind B) Tcp (SockV4 ip 0) a = Some (Ok (SockV4 ip p, Ok lo, Err e), a3)"
    using find_listen_port_random [of "SockV4 ip 0" B a p a1 "sn_tcp_bind B" lo a2 P Tcp "Err e" a3] assms
    by (simp add: usnet_listen_def)
  with assms(1) show ?thesis
    by (simp add: net_bind_def pbind_def pret_def bind_found_def pout_def)
qed

subsection \<open>Runs\<close>

text \<open>A system whose random ports are all 2001, with a service that grants every port or none.\<close>

definition calm_net :: "(raw_fd, unit, unit, 's) sys_net" where
  "calm_net =
     \<lparr>sn_tcp_bind = \<lambda>_ a. Some (Ok 9, a), sn_tcp_connect = \<lambda>_ a. Some (Ok (), a),
      sn_tcp_connect_timeout = \<lambda>_ _ a. Some (Ok (), a), sn_udp_bind = \<lambda>_ a. Some (Ok (), a),
      sn_gen_range = \<lambda>a. (2000, a)\<rparr>"

definition all_ports :: "'s port_ops" where
  "all_ports = \<lparr>po_ips = \<lambda>_. [AddrV4 (Ipv4Addr 10 0 0 2)], po_add_match = \<lambda>_ _ _ _ _ s. Some (Ok (), s)\<rparr>"

definition no_ports :: "'s port_ops" where
  "no_ports = all_ports\<lparr>po_add_match := \<lambda>_ _ _ _ _ s. Some (Err port_not_free, s)\<rparr>"

abbreviation calm_api :: "nat api" where
  "calm_api \<equiv> tick_api (default_cfg False)"

lemma calm_net_simps [simp]:
  "random_port calm_net a = (2001, a)" "sn_tcp_bind calm_net sa a = Some (Ok 9, a)"
  by (simp_all add: random_port_def calm_net_def)

lemma calm_find_port:
  "find_listen_port calm_net all_ports (sn_tcp_bind calm_net) Tcp (SockV4 (Ipv4Addr 0 0 0 0) 0) a =
     Some (Ok (SockV4 (Ipv4Addr 0 0 0 0) 2001, Ok 9, Ok ()), a)"
  using find_listen_port_random [of "SockV4 (Ipv4Addr 0 0 0 0) 0" calm_net a 2001 a "sn_tcp_bind calm_net"
      9 a all_ports Tcp "Ok ()" a]
  by (simp add: usnet_listen_def on_stack_def all_ports_def)

theorem connect_port_reserved_witness:
  "pick_port calm_net (\<lambda>_. pret ()) (32768, 60999) calm_api = Some (Ok 2001, calm_api) \<and>
   \<not> (32768 \<le> (2001 :: u16) \<and> (2001 :: u16) \<le> 60999)"
proof -
  have "range_respected calm_net" by (simp add: range_respected_def calm_net_def)
  moreover have run: "pick_port calm_net (\<lambda>_. pret ()) (32768, 60999) calm_api = Some (Ok 2001, calm_api)"
    by (subst pick_port.simps) (simp add: pret_def)
  ultimately show ?thesis using connect_port_reserved by fastforce
qed

theorem connect_established_witness:
  "\<exists>st a'. net_connect_timeout_opt calm_net all_ports tick_sync open_tcp 10 (pret [SockV4 (Ipv4Addr 10 0 0 1) 80]) None calm_api =
     Some (Ok (Stcp st), a') \<and> conn_ready open_tcp (api_stack a') (ss_handle st)"
proof -
  have "\<exists>st a'. net_connect_timeout_opt calm_net all_ports tick_sync open_tcp 10 (pret [SockV4 (Ipv4Addr 10 0 0 1) 80]) None calm_api =
      Some (Ok (Stcp st), a')"
    by (simp add: net_connect_timeout_opt_def pbind_def pret_def connect_one_def pindex_def all_ports_def
        ip_address_from_def connect_stack_def pout_def own_ip_def pick_port.simps on_stack_def tick_api_def net_new_def
        open_connection_def create_socket_def open_tcp_def on_net_def wake_bg_def notify_send_def connect_wait.simps
        stream_new_def new_cell_def)
  then obtain st a' where run: "net_connect_timeout_opt calm_net all_ports tick_sync open_tcp 10
      (pret [SockV4 (Ipv4Addr 10 0 0 1) 80]) None calm_api = Some (Ok (Stcp st), a')" by blast
  with connect_established [OF run] show ?thesis by blast
qed

theorem bind_fills_pool_witness:
  "\<exists>ln a' hs. net_bind calm_net all_ports quiet_listener table_tcp (pret [SockV4 (Ipv4Addr 0 0 0 0) 0]) (table_api 2) =
     Some (Ok ln, a') \<and> ln_handles ln = Some hs \<and> length hs = 2 \<and> distinct hs \<and>
     (\<forall>h \<in> set hs. snd (api_stack a') h = Some 2001)"
proof -
  have "\<exists>ln a'. net_bind calm_net all_ports quiet_listener table_tcp (pret [SockV4 (Ipv4Addr 0 0 0 0) 0]) (table_api 2) =
      Some (Ok ln, a') \<and> ln_handles ln \<noteq> None \<and> net_backlog (api_net a') = 2 \<and> ln_port ln = 2001"
    by (simp add: net_bind_def pbind_def pret_def calm_find_port bind_found_def start_listening_def quiet_listener_def)
      (simp add: register_fd_def on_net_def table_api_def net_new_def create_socket_def table_tcp_def new_listener_def
        pbind_def pret_def numeral_2_eq_2)
  then show ?thesis using bind_fills_pool [OF table_laws] by fastforce
qed

theorem bind_gives_up_witness:
  "net_bind calm_net no_ports quiet_listener open_tcp (pret [SockV4 (Ipv4Addr 0 0 0 0) 0]) calm_api =
     Some (Err port_not_free, calm_api)"
  by (rule bind_gives_up [where p = 2001 and lo = 9])
    (simp_all add: no_ports_def all_ports_def on_stack_def)

end
