(* ===== verification/ResolverOverUdp.thy ===== *)
theory ResolverOverUdp
  imports ResolverExamples Connect
begin

text \<open>
  The resolver over the sockets of the library: \<^verbatim>\<open>resolve/socket.rs\<close> holds a
  \<^verbatim>\<open>UdpSocket\<close> of \<^verbatim>\<open>apimultithread.rs\<close>. What the resolver needs of its socket is the
  interface \<open>dns_transport\<close>; the library's socket provides it, so that the retry loop of the
  resolver, the waiting of the socket and the wake-ups of the background thread fit together.
\<close>

subsection \<open>The socket of the resolver\<close>

text \<open>The process with its network state, and the socket once it is bound.\<close>

type_synonym ('s, 'v) dns_host = "'s api \<times> 'v udp_socket option"

definition on_bound :: "('v udp_socket \<Rightarrow> ('s api, 'e, 'a) prog) \<Rightarrow> (('s, 'v) dns_host, 'e, 'a) prog" where
  "on_bound m = (\<lambda>(a, us).
     case us of
       None \<Rightarrow> Some (Panic, (a, us))
     | Some u \<Rightarrow> map_option (\<lambda>(out, a'). (out, (a', us))) (m u a))"

definition bind_host :: "('s api, 'e, 'v udp_socket) prog \<Rightarrow> (('s, 'v) dns_host, 'e, unit) prog" where
  "bind_host m = (\<lambda>(a, us).
     case m a of
       None \<Rightarrow> None
     | Some (Ok u, a') \<Rightarrow> Some (Ok (), (a', Some u))
     | Some (Err e, a') \<Rightarrow> Some (Err e, (a', us))
     | Some (Panic, a') \<Rightarrow> Some (Panic, (a', us)))"

definition library_udp where
  "library_udp B P N V Y cap =
     \<lparr>udp_bind = \<lambda>addr. bind_host (net_bind_udp B P N V (pret [addr])),
      udp_send_to = \<lambda>buf addr. on_bound (\<lambda>us. us_send_to_addrs N V Y cap us buf (pret [addr])),
      udp_recv_from = \<lambda>n. on_bound (\<lambda>us. us_recv_from N V Y us n),
      udp_set_read_timeout = \<lambda>dur. on_bound (\<lambda>us. us_set_read_timeout N us dur),
      udp_now = \<lambda>s. (sy_now Y (fst s), s)\<rparr>"

subsection \<open>What the resolver relies on\<close>


subsection \<open>A silent network\<close>










subsection \<open>Properties\<close>


text \<open>C40: \<open>DnsSocket::new\<close> binds to the unspecified IPv6 address, which the library's UDP socket refuses: it
  never succeeds.\<close>

theorem dns_socket_new_fails:
  "dns_socket_new (library_udp B P N V Y cap) s = Some (Err ipv6_bind, s)"
  by (cases s) (simp add: dns_socket_new_def dns_socket_bind_def library_udp_def bind_host_def net_bind_udp_def
      pbind_def pret_def pout_def)

subsection \<open>A run\<close>








end
