(* ===== verification/Hosts.thy ===== *)
theory Hosts
  imports Address Io
begin

text \<open>
  \<^verbatim>\<open>resolve/hosts.rs\<close>: the host table, its lookups and the parser of the hosts file.
  The parser is shown to treat every line on its own and to find the hosts of every file in the
  hosts format, and the lookups to return the first match.
\<close>

subsection \<open>The table and its lookups\<close>

record host =
  hs_address :: ip_addr
  hs_name :: ustr
  hs_aliases :: "ustr list"

record host_table =
  hosts :: "host list"

definition find_host_by_address :: "host_table \<Rightarrow> ip_addr \<Rightarrow> host option" where
  "find_host_by_address T addr = List.find (\<lambda>h. hs_address h = addr) (hosts T)"

definition find_host_by_name :: "host_table \<Rightarrow> ustr \<Rightarrow> host option" where
  "find_host_by_name T name =
     List.find (\<lambda>h. hs_name h = name \<or> list_ex (\<lambda>a. a = name) (hs_aliases h)) (hosts T)"

definition find_address :: "host_table \<Rightarrow> ustr \<Rightarrow> ip_addr option" where
  "find_address T name = map_option hs_address (find_host_by_name T name)"

definition find_name :: "host_table \<Rightarrow> ip_addr \<Rightarrow> ustr option" where
  "find_name T addr = map_option hs_name (find_host_by_address T addr)"

subsection \<open>The parser\<close>

definition host_file :: ustr where
  "host_file = lit ''/etc/hosts''"

text \<open>One turn of the loop: the vector of hosts is extended, left alone, or the call fails.\<close>

definition parse_host_line :: "host list \<Rightarrow> ustr \<Rightarrow> (host list, io_error) outcome" where
  "parse_host_line hs line =
     (let line = (case split_first 35 line of Some (a, _) \<Rightarrow> a | None \<Rightarrow> line)
      in case split_whitespace line of
           [] \<Rightarrow> Ok hs
         | addr_str # words \<Rightarrow>
             (case parse_ip_addr addr_str of
                None \<Rightarrow> Err (io_error_new KInvalidData (lit ''invalid address: '' @ addr_str))
              | Some addr \<Rightarrow>
                  (case words of
                     [] \<Rightarrow> Err (io_error_new KInvalidData (lit ''missing names''))
                   | name # words \<Rightarrow>
                       Ok (hs @ [\<lparr>hs_address = addr, hs_name = name, hs_aliases = words\<rparr>]))))"

primrec parse_host_lines :: "host list \<Rightarrow> ustr list \<Rightarrow> (host list, io_error) outcome" where
  "parse_host_lines hs [] = Ok hs"
| "parse_host_lines hs (l # ls) =
     (case parse_host_line hs l of
        Ok hs' \<Rightarrow> parse_host_lines hs' ls
      | Err e \<Rightarrow> Err e
      | Panic \<Rightarrow> Panic)"

definition parse_host_table :: "ustr \<Rightarrow> (host_table, io_error) outcome" where
  "parse_host_table data =
     (case parse_host_lines [] (lines data) of
        Ok hs \<Rightarrow> Ok \<lparr>hosts = hs\<rparr>
      | Err e \<Rightarrow> Err e
      | Panic \<Rightarrow> Panic)"

text \<open>The file is opened and read as UTF-8 text, either of which may fail.\<close>

definition load_hosts :: "(ustr \<Rightarrow> (ustr, io_error) outcome) \<Rightarrow> ustr \<Rightarrow> (host_table, io_error) outcome" where
  "load_hosts read_file path =
     (case read_file path of
        Ok buf \<Rightarrow> parse_host_table buf
      | Err e \<Rightarrow> Err e
      | Panic \<Rightarrow> Panic)"

subsection \<open>Lines are independent\<close>

definition line_hosts :: "ustr \<Rightarrow> host list" where
  "line_hosts l = (case parse_host_line [] l of Ok hs \<Rightarrow> hs | _ \<Rightarrow> [])"

definition line_error :: "ustr \<Rightarrow> io_error option" where
  "line_error l = (case parse_host_line [] l of Err e \<Rightarrow> Some e | _ \<Rightarrow> None)"

lemma parse_host_line_eq:
  "parse_host_line hs l = (case line_error l of None \<Rightarrow> Ok (hs @ line_hosts l) | Some e \<Rightarrow> Err e)"
  by (auto simp: parse_host_line_def line_hosts_def line_error_def Let_def split: list.splits option.splits)

lemma parse_host_lines_Ok:
  "list_all (\<lambda>l. line_error l = None) ls \<Longrightarrow>
   parse_host_lines hs ls = Ok (hs @ concat (map line_hosts ls))"
  by (induction ls arbitrary: hs) (simp_all add: parse_host_line_eq)

lemma parse_host_lines_Err:
  "list_all (\<lambda>l. line_error l = None) ls \<Longrightarrow> line_error l = Some e \<Longrightarrow>
   parse_host_lines hs (ls @ l # ls') = Err e"
  by (induction ls arbitrary: hs) (simp_all add: parse_host_line_eq)

lemma first_error_line:
  assumes "\<not> list_all (\<lambda>l. line_error l = None) ls"
  obtains pre l post e where "ls = pre @ l # post" and "list_all (\<lambda>l. line_error l = None) pre"
    and "line_error l = Some e"
proof -
  from assms have "\<exists>l \<in> set ls. line_error l \<noteq> None" by (auto simp: list_all_iff)
  from split_list_first_prop [OF this] show thesis using that by (auto simp: list_all_iff)
qed

lemma parse_host_lines_Ok_iff:
  "parse_host_lines hs ls = Ok hs' \<longleftrightarrow>
     list_all (\<lambda>l. line_error l = None) ls \<and> hs' = hs @ concat (map line_hosts ls)"
proof (cases "list_all (\<lambda>l. line_error l = None) ls")
  case False
  then obtain pre l post e where "ls = pre @ l # post" "list_all (\<lambda>l. line_error l = None) pre"
    "line_error l = Some e" by (rule first_error_line)
  with False show ?thesis by (simp add: parse_host_lines_Err)
qed (auto simp: parse_host_lines_Ok)

subsection \<open>Files in the hosts format\<close>

text \<open>
  A line of a hosts file: white space, words with white space behind each of them, possibly a
  comment, and a line end of either kind. A line holds no host, or the text of an address that
  \<^verbatim>\<open>IpAddr::from_str\<close> accepts, of either family, and at least one name.
\<close>

record file_line =
  fl_lead :: ustr
  fl_words :: "(ustr \<times> ustr) list"
  fl_comment :: "ustr option"
  fl_crlf :: bool

definition comment_text :: "ustr option \<Rightarrow> ustr" where
  "comment_text c = (case c of None \<Rightarrow> [] | Some t \<Rightarrow> 35 # t)"

definition words_text :: "(ustr \<times> ustr) list \<Rightarrow> ustr" where
  "words_text ws = concat (map (\<lambda>(w, gap). w @ gap) ws)"

definition line_body :: "file_line \<Rightarrow> ustr" where
  "line_body l = fl_lead l @ words_text (fl_words l) @ comment_text (fl_comment l)"

definition line_text :: "file_line \<Rightarrow> ustr" where
  "line_text l = line_body l @ (if fl_crlf l then [13, 10] else [10])"

definition blank :: "ustr \<Rightarrow> bool" where
  "blank s \<longleftrightarrow> list_all (\<lambda>c. is_whitespace c \<and> c \<noteq> 10 \<and> c \<noteq> 13) s"

definition plain_word :: "ustr \<Rightarrow> bool" where
  "plain_word w \<longleftrightarrow> w \<noteq> [] \<and> list_all (\<lambda>c. \<not> is_whitespace c \<and> c \<noteq> 35) w"

fun spaced :: "(ustr \<times> ustr) list \<Rightarrow> bool" where
  "spaced [] \<longleftrightarrow> True"
| "spaced [(w, gap)] \<longleftrightarrow> plain_word w \<and> blank gap"
| "spaced ((w, gap) # ws) \<longleftrightarrow> plain_word w \<and> blank gap \<and> gap \<noteq> [] \<and> spaced ws"

fun words_host :: "ustr list \<Rightarrow> host list option" where
  "words_host [] = Some []"
| "words_host [a] = None"
| "words_host (a # n # al) =
     map_option (\<lambda>addr. [\<lparr>hs_address = addr, hs_name = n, hs_aliases = al\<rparr>]) (parse_ip_addr a)"

definition file_line_ok :: "file_line \<Rightarrow> host list \<Rightarrow> bool" where
  "file_line_ok l hs \<longleftrightarrow>
     blank (fl_lead l) \<and> spaced (fl_words l) \<and> 10 \<notin> set (comment_text (fl_comment l)) \<and>
     13 \<notin> set (comment_text (fl_comment l)) \<and> words_host (map fst (fl_words l)) = Some hs"

lemma split_whitespace_lead:
  "blank g \<Longrightarrow> split_whitespace_from [] (g @ s) = split_whitespace_from [] s"
  by (induction g) (simp_all add: blank_def)

lemma split_whitespace_words:
  "spaced ws \<Longrightarrow> split_whitespace_from [] (words_text ws) = map fst ws"
proof (induction ws rule: spaced.induct)
  case (2 w gap)
  then have w: "list_all (\<lambda>c. \<not> is_whitespace c) w" "w \<noteq> []" and gap: "blank gap"
    by (auto simp: plain_word_def list_all_iff)
  then show ?case
    using split_whitespace_lead [OF gap, of "[]"]
    by (cases gap) (simp_all add: words_text_def split_whitespace_from_word [of w "[]"]
      split_whitespace_from_word [of w "[]" "[]", simplified] blank_def split_whitespace_lead [unfolded blank_def, of _ "[]", simplified])
next
  case (3 w gap v ws)
  then have w: "list_all (\<lambda>c. \<not> is_whitespace c) w" "w \<noteq> []" and gap: "blank gap" "gap \<noteq> []"
    and rest: "split_whitespace_from [] (words_text (v # ws)) = map fst (v # ws)"
    by (auto simp: plain_word_def list_all_iff)
  from gap obtain c g where "gap = c # g" "is_whitespace c" "blank g"
    by (cases gap) (auto simp: blank_def)
  with w rest show ?case
    by (simp add: words_text_def split_whitespace_from_word [of w "[]"] split_whitespace_lead)
qed (simp add: words_text_def)

lemma line_end_whitespace: "is_whitespace 10" "is_whitespace 13" "\<not> is_whitespace 35"
  by (simp_all add: is_whitespace_def)

lemma word_chars: "plain_word w \<Longrightarrow> c \<in> set w \<Longrightarrow> c \<noteq> 35 \<and> c \<noteq> 10 \<and> c \<noteq> 13"
  using line_end_whitespace by (auto simp: plain_word_def list_all_iff)

lemma blank_chars: "blank g \<Longrightarrow> c \<in> set g \<Longrightarrow> c \<noteq> 35 \<and> c \<noteq> 10 \<and> c \<noteq> 13"
  using line_end_whitespace by (auto simp: blank_def list_all_iff)

lemma spaced_words: "spaced ws \<Longrightarrow> (w, gap) \<in> set ws \<Longrightarrow> plain_word w \<and> blank gap"
  by (induction ws rule: spaced.induct) auto

lemma spaced_chars:
  assumes "spaced ws" and "c \<in> set (words_text ws)"
  shows "c \<noteq> 35 \<and> c \<noteq> 10 \<and> c \<noteq> 13"
proof -
  from assms(2) obtain w gap where "(w, gap) \<in> set ws" "c \<in> set w \<or> c \<in> set gap"
    by (auto simp: words_text_def)
  with spaced_words [OF assms(1)] word_chars blank_chars show ?thesis by blast
qed

lemma split_first_comment:
  "c \<notin> set s \<Longrightarrow> split_first c (s @ c # t) = Some (s, t)" "c \<notin> set s \<Longrightarrow> split_first c s = None"
  by (induction s) auto

lemma parse_file_line:
  assumes "file_line_ok l hs"
  shows "parse_host_line pre (line_body l) = Ok (pre @ hs)"
proof -
  let ?t = "fl_lead l @ words_text (fl_words l)"
  have ws: "spaced (fl_words l)" "words_host (map fst (fl_words l)) = Some hs" and lead: "blank (fl_lead l)"
    using assms by (auto simp: file_line_ok_def)
  have "35 \<notin> set ?t"
    using blank_chars [OF lead] spaced_chars [OF ws(1)] by auto
  then have cut: "(case split_first 35 (line_body l) of Some (a, _) \<Rightarrow> a | None \<Rightarrow> line_body l) = ?t"
    using split_first_comment [of 35 ?t]
    by (cases "fl_comment l") (simp_all add: line_body_def comment_text_def)
  have "split_whitespace ?t = map fst (fl_words l)"
    using split_whitespace_words [OF ws(1)] split_whitespace_lead [OF lead] by (simp add: split_whitespace_def)
  with ws(2) cut show ?thesis
    by (cases "map fst (fl_words l)" rule: words_host.cases)
      (auto simp: parse_host_line_def split: option.splits)
qed

lemma line_body_chars:
  assumes "file_line_ok l hs"
  shows "10 \<notin> set (line_body l)" "13 \<notin> set (line_body l)"
  using assms spaced_chars [of "fl_words l"] blank_chars [of "fl_lead l"]
  by (auto simp: file_line_ok_def line_body_def)

text \<open>\<^verbatim>\<open>lines\<close> finds the lines again.\<close>

lemma lines_file:
  assumes "list_all2 file_line_ok ls hss"
  shows "lines (concat (map line_text ls)) = map line_body ls"
proof -
  let ?raw = "\<lambda>l. line_body l @ (if fl_crlf l then [13] else [])"
  have "split_on 10 (concat (map line_text ls)) = map ?raw ls @ [[]]"
    using assms
  proof (induction rule: list_all2_induct)
    case (Cons l ls hs hss)
    then have "10 \<notin> set (?raw l)" using line_body_chars(1) by auto
    then have "split_on 10 (?raw l @ 10 # concat (map line_text ls)) = ?raw l # split_on 10 (concat (map line_text ls))"
      using split_on_append_sep [of 10 "?raw l"] split_on_no_sep [of 10 "?raw l"] by (metis append_Cons append_Nil)
    moreover have "concat (map line_text (l # ls)) = ?raw l @ 10 # concat (map line_text ls)"
      by (simp add: line_text_def)
    ultimately show ?case using Cons by (simp only: list.map append_Cons)
  qed simp
  moreover have "strip_cr (?raw l) = line_body l" if "l \<in> set ls" for l
  proof -
    from assms that obtain hs where "file_line_ok l hs"
      by (auto simp: list_all2_conv_all_nth in_set_conv_nth)
    then show ?thesis
      using line_body_chars(2) [of l hs] by (auto simp: strip_cr_def dest: last_in_set)
  qed
  ultimately show ?thesis by (simp add: lines_def)
qed

lemma parse_file_lines:
  "list_all2 file_line_ok ls hss \<Longrightarrow> parse_host_lines pre (map line_body ls) = Ok (pre @ concat hss)"
  by (induction arbitrary: pre rule: list_all2_induct) (simp_all add: parse_file_line)

lemma parse_hosts_file:
  "list_all2 file_line_ok ls hss \<Longrightarrow> parse_host_table (concat (map line_text ls)) = Ok \<lparr>hosts = concat hss\<rparr>"
  using lines_file [of ls hss] parse_file_lines [of ls hss "[]"] by (simp add: parse_host_table_def)

subsection \<open>Properties\<close>

text \<open>Parsing succeeds exactly when no line is malformed, and then holds the hosts of the lines in
  order; otherwise the error is that of the first malformed line.\<close>

theorem parse_host_table_lines:
  "parse_host_table data =
     (case List.find (\<lambda>l. line_error l \<noteq> None) (lines data) of
        None \<Rightarrow> Ok \<lparr>hosts = concat (map line_hosts (lines data))\<rparr>
      | Some l \<Rightarrow> Err (the (line_error l)))"
proof (cases "list_all (\<lambda>l. line_error l = None) (lines data)")
  case True
  then have "List.find (\<lambda>l. line_error l \<noteq> None) (lines data) = None"
    by (auto simp: find_None_iff list_all_iff)
  with True show ?thesis by (simp add: parse_host_table_def parse_host_lines_Ok)
next
  case False
  then obtain pre l post e where l: "lines data = pre @ l # post"
    "list_all (\<lambda>l. line_error l = None) pre" "line_error l = Some e" by (rule first_error_line)
  have "List.find (\<lambda>l. line_error l \<noteq> None) (lines data) = Some l"
    using l by (auto simp: find_Some_split list_all_iff)
  with l show ?thesis by (simp add: parse_host_table_def parse_host_lines_Err)
qed

text \<open>C31: A file in the hosts format is read as the hosts it holds, in order. Each line may begin with
  white space, be empty or hold a comment only, and ends with \<^verbatim>\<open>\n\<close> or \<^verbatim>\<open>\r\n\<close>; a line
  with a host has the text of an IPv4 or IPv6 address that the standard library parses, a name and any
  number of aliases, separated by any white space and possibly followed by a comment.\<close>

theorem hosts_roundtrip:
  assumes "list_all2 file_line_ok ls hss"
  shows "parse_host_table (concat (map line_text ls)) = Ok \<lparr>hosts = concat hss\<rparr>"
  using assms by (rule parse_hosts_file)

text \<open>Both families, an alias, comments, an empty line and tabs.\<close>

definition sample_lines :: "file_line list" where
  "sample_lines =
     [\<lparr>fl_lead = [], fl_words = [], fl_comment = Some (lit '' static table''), fl_crlf = False\<rparr>,
      \<lparr>fl_lead = [], fl_words = [(lit ''127.0.0.1'', [9, 9]), (lit ''localhost'', [32]), (lit ''lo'', [32])],
       fl_comment = Some (lit ''this machine''), fl_crlf = False\<rparr>,
      \<lparr>fl_lead = [], fl_words = [], fl_comment = None, fl_crlf = True\<rparr>,
      \<lparr>fl_lead = [32], fl_words = [(lit ''::1'', [32]), (lit ''ip6-localhost'', [])], fl_comment = None, fl_crlf = True\<rparr>]"

lemma parse_localhost: "parse_ip_addr (lit ''127.0.0.1'') = Some (V4 (Ipv4Addr 127 0 0 1))"
  by code_simp

lemma parse_localhost6: "parse_ip_addr (lit ''::1'') = Some (V6 (Ipv6Addr 0 0 0 0 0 0 0 1))"
proof -
  have num: "read_number r m z l (58 # s) = None" "read_number 10 3 False 256 [49] = Some (1, [])"
    "read_number 16 4 True 65536 [49] = Some (1, [])" for r m z l s
    by (simp_all add: read_number_def digit_val_def)
  have "read_octets 0 (Suc n) (58 # s) = None" "read_octets 0 (Suc (Suc n)) [49] = None" for n s
    by (simp_all add: read_separator_def num read_given_char_def)
  from this(1) [of 3] this(2) [of 2] have v4: "read_ipv4_addr (58 # s) = None" "read_ipv4_addr [49] = None" for s
    by (simp_all add: read_ipv4_addr_def)
  have "read_groups 0 (Suc n) (58 # s) = ([], False, 58 # s)" "read_groups 0 (Suc (Suc n)) [49] = ([1], False, [])" for n s
    by (simp_all add: read_separator_def v4 num read_given_char_def)
  from this(1) [of 7 "[58, 49]"] this(2) [of 5]
  have "read_groups 0 8 [58, 58, 49] = ([], False, [58, 58, 49])" "read_groups 0 7 [49] = ([1], False, [])"
    by simp_all
  then have "read_ipv6_addr [58, 58, 49] = Some (Ipv6Addr 0 0 0 0 0 0 0 1, [])"
    by (simp add: read_ipv6_addr_def read_given_char_def ipv6_of_list_def numeral_eq_Suc)
  then show ?thesis by (simp add: parse_ip_addr_def parse_whole_def lit_def v4)
qed

lemma sample_lines_ok:
  "list_all2 file_line_ok sample_lines
      [[], [\<lparr>hs_address = V4 (Ipv4Addr 127 0 0 1), hs_name = lit ''localhost'', hs_aliases = [lit ''lo'']\<rparr>], [],
       [\<lparr>hs_address = V6 (Ipv6Addr 0 0 0 0 0 0 0 1), hs_name = lit ''ip6-localhost'', hs_aliases = []\<rparr>]]"
  by (simp add: sample_lines_def file_line_ok_def blank_def comment_text_def parse_localhost parse_localhost6)
    (simp add: plain_word_def blank_def lit_def is_whitespace_def)

theorem hosts_roundtrip_witness:
  "parse_host_table (concat (map line_text sample_lines)) =
     Ok \<lparr>hosts =
       [\<lparr>hs_address = V4 (Ipv4Addr 127 0 0 1), hs_name = lit ''localhost'', hs_aliases = [lit ''lo'']\<rparr>,
        \<lparr>hs_address = V6 (Ipv6Addr 0 0 0 0 0 0 0 1), hs_name = lit ''ip6-localhost'', hs_aliases = []\<rparr>]\<rparr>"
  using hosts_roundtrip [OF sample_lines_ok] by simp

text \<open>A lookup by name returns the address of the first host that has the name as its canonical
  name or as an alias, and nothing exactly when there is no such host.\<close>

theorem find_address_first:
  "find_address T name = Some a \<longleftrightarrow>
     (\<exists>pre h post. hosts T = pre @ h # post \<and> hs_address h = a \<and>
        name \<in> set (hs_name h # hs_aliases h) \<and>
        list_all (\<lambda>g. name \<notin> set (hs_name g # hs_aliases g)) pre)"
proof -
  have "(hs_name h = name \<or> list_ex (\<lambda>a. a = name) (hs_aliases h)) \<longleftrightarrow> name \<in> set (hs_name h # hs_aliases h)" for h
    by (auto simp: list_ex_iff)
  then show ?thesis
    by (auto simp: find_address_def find_host_by_name_def find_Some_split list_all_iff)
qed

end
