(* ===== verification/ToAddrs.thy ===== *)
theory ToAddrs
  imports Hosts Resolver Utf8
begin

text \<open>
  \<^verbatim>\<open>UsnetToSocketAddrs\<close> of \<^verbatim>\<open>apimultithread.rs\<close>: what a caller may pass as an address,
  and the socket addresses it stands for. Names are looked up in this order: the name of the
  host itself, the host table, the DNS servers \<^verbatim>\<open>1.1.1.1\<close> and \<^verbatim>\<open>1.0.0.1\<close>.
\<close>

subsection \<open>\<open>FromStr\<close> of \<open>SocketAddr\<close>\<close>

text \<open>The parser of \<^verbatim>\<open>core::net\<close>; numbers of any length that fit the type.\<close>

definition read_any_number :: "nat \<Rightarrow> nat ip_reader" where
  "read_any_number limit s = read_number 10 (length s) True limit s"

definition read_port :: "u16 ip_reader" where
  "read_port s =
     (case read_given_char colon s of
        None \<Rightarrow> None
      | Some (_, s1) \<Rightarrow> map_option (\<lambda>(n, s2). (word_of_nat n, s2)) (read_any_number 65536 s1))"

definition read_scope_id :: "u32 ip_reader" where
  "read_scope_id s =
     (case read_given_char 37 s of
        None \<Rightarrow> None
      | Some (_, s1) \<Rightarrow> map_option (\<lambda>(n, s2). (word_of_nat n, s2)) (read_any_number 4294967296 s1))"

definition read_socket_addr_v4 :: "socket_addr ip_reader" where
  "read_socket_addr_v4 s =
     (case read_ipv4_addr s of
        None \<Rightarrow> None
      | Some (ip, s1) \<Rightarrow> map_option (\<lambda>(p, s2). (SockV4 ip p, s2)) (read_port s1))"

definition read_socket_addr_v6 :: "socket_addr ip_reader" where
  "read_socket_addr_v6 s =
     (case read_given_char 91 s of
        None \<Rightarrow> None
      | Some (_, s1) \<Rightarrow>
          (case read_ipv6_addr s1 of
             None \<Rightarrow> None
           | Some (ip, s2) \<Rightarrow>
               let (scope, s3) = (case read_scope_id s2 of Some r \<Rightarrow> r | None \<Rightarrow> (0, s2))
               in (case read_given_char 93 s3 of
                     None \<Rightarrow> None
                   | Some (_, s4) \<Rightarrow> map_option (\<lambda>(p, s5). (SockV6 ip p 0 scope, s5)) (read_port s4))))"

definition parse_socket_addr :: "ustr \<Rightarrow> socket_addr option" where
  "parse_socket_addr s =
     parse_whole (\<lambda>s. case read_socket_addr_v4 s of Some r \<Rightarrow> Some r | None \<Rightarrow> read_socket_addr_v6 s) s"

subsection \<open>Looking up names\<close>

text \<open>
  Where names come from: the name of the host, the reader for the host file, and the network
  with the resolver (its sockets, the IDNA library, the cell that holds the message id).
\<close>

record 's name_env =
  ne_hostname :: "(ustr, io_error) outcome"
  ne_read_file :: "ustr \<Rightarrow> (ustr, io_error) outcome"
  ne_udp :: "'s udp_ops"
  ne_idna :: idna_lib
  ne_id_cell :: u16

definition public_servers :: "socket_addr list" where
  "public_servers = [SockV4 (Ipv4Addr 1 1 1 1) 53, SockV4 (Ipv4Addr 1 0 0 1) 53]"

definition dns_addrs :: "'s name_env \<Rightarrow> ustr \<Rightarrow> u16 \<Rightarrow> ('s, io_error, socket_addr list) prog" where
  "dns_addrs E s p =
     pbind (with_default_resolver (ne_udp E) (Ok (with_name_servers public_servers)) (ne_id_cell E)
              (resolve_host (ne_udp E) (ne_idna E) s)) (\<lambda>ips.
       pret (map (\<lambda>a. socket_addr_new a p) ips))"

definition hosts_lookup :: "'s name_env \<Rightarrow> ustr \<Rightarrow> ip_addr option" where
  "hosts_lookup E s =
     (case load_hosts (ne_read_file E) host_file of
        Ok etc_hosts \<Rightarrow> find_address etc_hosts s
      | _ \<Rightarrow> None)"

definition usnet_resolve_socket_addr :: "'s name_env \<Rightarrow> ustr \<Rightarrow> u16 \<Rightarrow> ('s, io_error, socket_addr list) prog" where
  "usnet_resolve_socket_addr E s p =
     (if ne_hostname E = Ok s then pret [SockV4 (Ipv4Addr 127 0 0 1) p]
      else case hosts_lookup E s of
             Some addr \<Rightarrow> pret [socket_addr_new addr p]
           | None \<Rightarrow> dns_addrs E s p)"

subsection \<open>The implementations of the trait\<close>

text \<open>\<^verbatim>\<open>rsplitn(2, ':')\<close>: what follows the last colon, and what precedes it, if there is one.\<close>

definition rsplit_last :: "nat \<Rightarrow> ustr \<Rightarrow> ustr \<times> ustr option" where
  "rsplit_last c s =
     (case split_first c (rev s) of
        None \<Rightarrow> (s, None)
      | Some (a, b) \<Rightarrow> (rev a, Some (rev b)))"

definition invalid_input :: "string \<Rightarrow> io_error" where
  "invalid_input msg = io_error_new KInvalidInput (lit msg)"

definition str_to_socket_addrs :: "'s name_env \<Rightarrow> ustr \<Rightarrow> ('s, io_error, socket_addr list) prog" where
  "str_to_socket_addrs E s =
     (case parse_socket_addr s of
        Some addr \<Rightarrow> pret [addr]
      | None \<Rightarrow>
          (case rsplit_last colon s of
             (_, None) \<Rightarrow> pthrow (invalid_input ''invalid socket address'')
           | (port_str, Some host) \<Rightarrow>
               (case parse_unsigned 10 65536 port_str of
                  None \<Rightarrow> pthrow (invalid_input ''invalid port value'')
                | Some port \<Rightarrow> usnet_resolve_socket_addr E host (word_of_nat port))))"

definition host_port_to_socket_addrs :: "'s name_env \<Rightarrow> ustr \<Rightarrow> u16 \<Rightarrow> ('s, io_error, socket_addr list) prog" where
  "host_port_to_socket_addrs E host port =
     (case parse_ipv4 host of
        Some addr \<Rightarrow> pret [SockV4 addr port]
      | None \<Rightarrow>
          (case parse_ipv6 host of
             Some addr \<Rightarrow> pret [SockV6 addr port 0 0]
           | None \<Rightarrow> usnet_resolve_socket_addr E host port))"

text \<open>The types that implement the trait; references and \<^verbatim>\<open>String\<close> go to the type behind them.\<close>

datatype addr_arg =
    ArgStr ustr
  | ArgHostPort ustr u16
  | ArgIpPort ip_addr u16
  | ArgIpv4Port ipv4_addr u16
  | ArgIpv6Port ipv6_addr u16
  | ArgAddrV4 ipv4_addr u16              \<comment> \<open>\<^verbatim>\<open>SocketAddrV4\<close>\<close>
  | ArgAddrV6 ipv6_addr u16 u32 u32      \<comment> \<open>\<^verbatim>\<open>SocketAddrV6\<close>\<close>
  | ArgAddr socket_addr
  | ArgSlice "socket_addr list"

definition addr_to_socket_addrs :: "socket_addr \<Rightarrow> ('s, io_error, socket_addr list) prog" where
  "addr_to_socket_addrs sa = pret [sa]"

definition ip_port_to_socket_addrs :: "ip_addr \<Rightarrow> u16 \<Rightarrow> ('s, io_error, socket_addr list) prog" where
  "ip_port_to_socket_addrs ip port =
     (case ip of
        V4 a \<Rightarrow> addr_to_socket_addrs (SockV4 a port)
      | V6 a \<Rightarrow> addr_to_socket_addrs (SockV6 a port 0 0))"

definition slice_to_socket_addrs :: "socket_addr list \<Rightarrow> ('s, io_error, socket_addr list) prog" where
  "slice_to_socket_addrs l = pret l"

fun usnet_to_socket_addrs :: "'s name_env \<Rightarrow> addr_arg \<Rightarrow> ('s, io_error, socket_addr list) prog" where
  "usnet_to_socket_addrs E (ArgStr s) = str_to_socket_addrs E s"
| "usnet_to_socket_addrs E (ArgHostPort h p) = host_port_to_socket_addrs E h p"
| "usnet_to_socket_addrs E (ArgIpPort ip p) = ip_port_to_socket_addrs ip p"
| "usnet_to_socket_addrs E (ArgIpv4Port ip p) = addr_to_socket_addrs (SockV4 ip p)"
| "usnet_to_socket_addrs E (ArgIpv6Port ip p) = addr_to_socket_addrs (SockV6 ip p 0 0)"
| "usnet_to_socket_addrs E (ArgAddrV4 ip p) = addr_to_socket_addrs (SockV4 ip p)"
| "usnet_to_socket_addrs E (ArgAddrV6 ip p fl sc) = addr_to_socket_addrs (SockV6 ip p fl sc)"
| "usnet_to_socket_addrs E (ArgAddr sa) = addr_to_socket_addrs sa"
| "usnet_to_socket_addrs E (ArgSlice l) = slice_to_socket_addrs l"

subsection \<open>Facts\<close>

lemma read_port_show:
  "read_port (colon # show_nat (unat (p :: u16))) = Some (p, [])"
proof -
  let ?s = "show_nat (unat p)"
  have tw: "takeWhile (\<lambda>c. digit_val 10 c \<noteq> None) ?s = ?s"
    using takeWhile_digits_show [of 10 "[]" "unat p"] by simp
  then have "read_any_number 65536 ?s = Some (unat p, [])"
    unfolding read_any_number_def read_number_def Let_def tw
    using digits_val_show_radix [of 10 "unat p"] by simp
  then show ?thesis by (simp add: read_port_def read_given_char_def)
qed

lemma parse_show_socket_addr:
  "parse_socket_addr (show_ipv4 ip @ colon # show_nat (unat p)) = Some (SockV4 ip p)"
  by (simp add: parse_socket_addr_def parse_whole_def read_socket_addr_v4_def read_port_show
      read_show_ipv4 [of "colon # show_nat (unat p)", simplified] digit_val_def)

lemma split_first_append: "c \<notin> set a \<Longrightarrow> split_first c (a @ c # b) = Some (a, b)"
  by (induction a) auto

lemma rsplit_last_append: "c \<notin> set b \<Longrightarrow> rsplit_last c (a @ c # b) = (b, Some a)"
  by (simp add: rsplit_last_def split_first_append)

lemma colon_show_nat: "colon \<notin> set (show_nat n)"
  using show_radix_chars [of 10 colon n] by auto

subsection \<open>Properties\<close>

text \<open>C35: An IPv4 socket address written as text stands for itself, without any lookup.\<close>

theorem addr_text_roundtrip:
  "usnet_to_socket_addrs E (ArgStr (show_ipv4 ip @ colon # show_nat (unat p))) s = Some (Ok [SockV4 ip p], s)"
  by (simp add: str_to_socket_addrs_def parse_show_socket_addr pret_def)

text \<open>C36: A name of the host table, written with a port as \<^verbatim>\<open>name:port\<close>, stands for the address of
  the first entry of the hosts file that has it as its name or as an alias, with that port, and
  nothing is sent for it: for every hosts file in the format of the host table, any name in it that is
  not the name of this host, and any port, unless the text is itself a socket address.\<close>

theorem host_table_text:
  assumes "ne_read_file E host_file = Ok (concat (map line_text ls))" and "list_all2 file_line_ok ls hss"
    and "concat hss = before @ h # after" and "host \<in> set (hs_name h # hs_aliases h)"
    and "\<forall>g \<in> set before. host \<notin> set (hs_name g # hs_aliases g)"
    and "ne_hostname E \<noteq> Ok host" and "parse_socket_addr (host @ colon # show_nat (unat p)) = None"
  shows "usnet_to_socket_addrs E (ArgStr (host @ colon # show_nat (unat p))) s =
    Some (Ok [socket_addr_new (hs_address h) p], s)"
proof -
  have "find_address \<lparr>hosts = concat hss\<rparr> host = Some (hs_address h)"
    unfolding find_address_first using assms(3-5) by (auto simp: list_all_iff)
  then have "hosts_lookup E host = Some (hs_address h)"
    using assms(1) parse_hosts_file [OF assms(2)] by (simp add: hosts_lookup_def load_hosts_def)
  with assms(6) have "usnet_resolve_socket_addr E host p s = Some (Ok [socket_addr_new (hs_address h) p], s)"
    by (simp add: usnet_resolve_socket_addr_def pret_def)
  moreover have "parse_unsigned 10 65536 (show_nat (unat p)) = Some (unat p)"
    by (rule parse_show_radix) simp_all
  ultimately show ?thesis
    using assms(7) by (simp add: str_to_socket_addrs_def rsplit_last_append colon_show_nat)
qed

text \<open>A host named \<^verbatim>\<open>box\<close> with the sample host table.\<close>

definition box_env :: "'s udp_ops \<Rightarrow> idna_lib \<Rightarrow> 's name_env" where
  "box_env U L =
     \<lparr>ne_hostname = Ok (lit ''box''), ne_read_file = \<lambda>_. Ok (concat (map line_text sample_lines)),
      ne_udp = U, ne_idna = L, ne_id_cell = 0\<rparr>"

theorem host_table_text_witness:
  "\<forall>U L s. usnet_to_socket_addrs (box_env U L) (ArgStr (lit ''lo'' @ colon # show_nat (unat (80 :: u16)))) s =
     Some (Ok [SockV4 (Ipv4Addr 127 0 0 1) 80], s)"
proof (intro allI)
  fix U :: "'s udp_ops" and L s
  have "parse_socket_addr (lit ''lo'' @ colon # show_nat (unat (80 :: u16))) = None"
    by (simp add: lit_def parse_socket_addr_def parse_whole_def read_socket_addr_v4_def read_socket_addr_v6_def
        read_ipv4_addr_def read_given_char_def read_number_def read_separator_def digit_val_def numeral_eq_Suc)
  then show "usnet_to_socket_addrs (box_env U L) (ArgStr (lit ''lo'' @ colon # show_nat (unat (80 :: u16)))) s =
     Some (Ok [SockV4 (Ipv4Addr 127 0 0 1) 80], s)"
    using host_table_text [of "box_env U L" sample_lines, OF _ sample_lines_ok, of "[]" _ _ "lit ''lo''" 80 s]
    by (simp add: box_env_def lit_def)
qed

end
