(* ===== verification/Registry.thy ===== *)
theory Registry
  imports StcpNet
begin

text \<open>
  What the background thread promises its clients about descriptors, without queues and
  without the thread's own lists: a counter for each descriptor, up with every registration
  and down with every removal, and the descriptors that the thread polls. The thread and the
  queues of \<^verbatim>\<open>StcpNet\<close> are shown to implement it.
\<close>

subsection \<open>The specification\<close>

record registry =
  rg_base :: "raw_fd list"
  rg_count :: "raw_fd \<Rightarrow> int"
  rg_alive :: bool

text \<open>
  A client registers or removes a descriptor; a turn of the thread polls its own descriptors and
  then as many of each descriptor as the counter says; a negative counter is the end of the thread.
  Nothing else changes the registry.
\<close>

inductive reg_step :: "registry \<Rightarrow> bg_event \<Rightarrow> registry \<Rightarrow> bool" where
  register: "reg_step r (Registered fd) (r\<lparr>rg_count := (rg_count r)(fd := rg_count r fd + 1)\<rparr>)"
| deregister: "reg_step r (Removed fd) (r\<lparr>rg_count := (rg_count r)(fd := rg_count r fd - 1)\<rparr>)"
| turn: "rg_alive r \<Longrightarrow> (\<And>fd. int (count_list extra fd) = rg_count r fd) \<Longrightarrow>
    reg_step r (Polls (rg_base r @ extra)) r"
| fail: "rg_alive r \<Longrightarrow> rg_count r fd < 0 \<Longrightarrow> reg_step r Died (r\<lparr>rg_alive := False\<rparr>)"
| other: "e \<in> {StackRun, Submitted, TakenOut, Changed} \<Longrightarrow> reg_step r e r"

inductive_cases reg_stepE: "reg_step r e r'"
inductive_cases reg_step_PollsE: "reg_step r (Polls fds) r'"
inductive_cases reg_step_DiedE: "reg_step r Died r'"

text \<open>The registry is a function of the events so far.\<close>

lemma reg_run_state:
  "lts_run reg_step r tr r' \<Longrightarrow>
     r' = r\<lparr>rg_count := (\<lambda>fd. rg_count r fd + int (count_list tr (Registered fd)) - int (count_list tr (Removed fd))),
            rg_alive := rg_alive r \<and> Died \<notin> set tr\<rparr>"
  by (induction rule: lts_run.induct) (auto elim!: reg_stepE simp: fun_eq_iff intro!: registry.equality)

subsection \<open>The implementation\<close>

text \<open>The counter of a descriptor is spread over the thread's list and the two queues.\<close>

definition fd_count :: "'s bg_system \<Rightarrow> raw_fd \<Rightarrow> int" where
  "fd_count y fd =
     int (count (mset (bg_fds_extra (sy_bg y))) fd) + int (count (mset (net_fds_add (sy_net y))) fd) -
     int (count (mset (net_fds_remove (sy_net y))) fd)"

definition reg_abs :: "'s bg_system \<Rightarrow> registry" where
  "reg_abs y =
     \<lparr>rg_base = [net_fd (sy_net y), net_notify_fd (sy_net y)], rg_count = fd_count y,
      rg_alive = (sy_phase y \<noteq> Dead)\<rparr>"

definition reg_inv :: "'s bg_system \<Rightarrow> bool" where
  "reg_inv y \<longleftrightarrow> fds_inv (sy_net y) (sy_bg y)"

lemma wake_bg_keeps:
  assumes "wake_bg cap net = Some (Ok (), net')"
  shows "net_fds_add net' = net_fds_add net" "net_fds_remove net' = net_fds_remove net"
    "net_fd net' = net_fd net" "net_notify_fd net' = net_notify_fd net"
  using wake_bg_Ok [OF assms] by simp_all

lemma wake_bg_read_keeps:
  assumes "wake_bg_read cap net = Some (Ok (), net')"
  shows "net_fds_add net' = net_fds_add net" "net_fds_remove net' = net_fds_remove net"
    "net_fd net' = net_fd net" "net_notify_fd net' = net_notify_fd net"
  using wake_bg_read_Ok [OF assms] by auto

lemma bg_finish_keeps [simp]:
  "net_fds_add (bg_finish S net) = net_fds_add net" "net_fds_remove (bg_finish S net) = net_fds_remove net"
  "net_fd (bg_finish S net) = net_fd net" "net_notify_fd (bg_finish S net) = net_notify_fd net"
  by (simp_all add: bg_finish_def net_poll_def split: prod.splits outcome.splits)

lemma reg_inv_step: "bg_step S cap y e y' \<Longrightarrow> reg_inv y \<Longrightarrow> reg_inv y'"
proof (induction rule: bg_step.induct)
  case (prepare y delay net' b')
  then show ?case using bg_prepare_fds [OF prepare(2)] by (simp add: reg_inv_def fds_inv_def)
next
  case (submit s' y net')
  then show ?case using wake_bg_keeps(3,4) [OF submit(1)] by (simp add: reg_inv_def fds_inv_def)
next
  case (take_out s' y net')
  then show ?case using wake_bg_read_keeps(3,4) [OF take_out(1)] by (simp add: reg_inv_def fds_inv_def)
qed (simp_all add: reg_inv_def fds_inv_def)

lemma bg_prepare_counts:
  fixes y :: "'s bg_system"
  assumes run: "bg_prepare S (sy_net y) (sy_bg y) = Some (delay, net', b')" and inv: "reg_inv y"
  shows "int (count (mset (bg_fds_extra b')) fd) = fd_count y fd"
    and "bg_fds b' = [net_fd (sy_net y), net_notify_fd (sy_net y)] @ bg_fds_extra b'"
    and "net_fds_add net' = []" "net_fds_remove net' = []"
proof -
  have "mset (net_fds_remove (sy_net y)) \<subseteq># mset (bg_fds_extra (sy_bg y) @ net_fds_add (sy_net y))"
    using run bg_prepare_None_iff [of S "sy_net y" "sy_bg y"] by auto
  then have "count (mset (net_fds_remove (sy_net y))) fd \<le>
      count (mset (bg_fds_extra (sy_bg y))) fd + count (mset (net_fds_add (sy_net y))) fd"
    by (metis mset_subset_eq_count mset_append count_union)
  with bg_prepare_fds [OF run] inv show "int (count (mset (bg_fds_extra b')) fd) = fd_count y fd"
    "bg_fds b' = [net_fd (sy_net y), net_notify_fd (sy_net y)] @ bg_fds_extra b'"
    using bg_prepare_Some(4,5) [OF run] by (simp_all add: reg_inv_def fd_count_def of_nat_diff)
  show "net_fds_add net' = []" "net_fds_remove net' = []"
    using run by (auto simp: bg_prepare_eq split: option.splits)
qed

lemma fd_count_negative:
  fixes y :: "'s bg_system"
  assumes "bg_prepare S (sy_net y) (sy_bg y) = None"
  obtains fd where "fd_count y fd < 0"
proof -
  from assms have "\<not> mset (net_fds_remove (sy_net y)) \<subseteq># mset (bg_fds_extra (sy_bg y) @ net_fds_add (sy_net y))"
    by (simp add: bg_prepare_None_iff)
  then obtain fd where "count (mset (bg_fds_extra (sy_bg y) @ net_fds_add (sy_net y))) fd <
      count (mset (net_fds_remove (sy_net y))) fd"
    by (meson mset_subset_eqI not_le)
  then show thesis by (intro that [of fd]) (simp add: fd_count_def)
qed

lemma reg_sim_step: "bg_step S cap y e y' \<Longrightarrow> reg_inv y \<Longrightarrow> reg_step (reg_abs y) e (reg_abs y')"
proof (induction rule: bg_step.induct)
  case (prepare y delay net' b')
  note c = bg_prepare_counts [OF prepare(2,3)]
  let ?y' = "y\<lparr>sy_net := net', sy_bg := b', sy_phase := AtPoll delay\<rparr>"
  have "fd_count ?y' = fd_count y" using c by (auto simp: fd_count_def [of ?y'])
  then have "reg_abs ?y' = reg_abs y"
    using bg_prepare_Some(4,5) [OF prepare(2)] prepare(1) by (simp add: reg_abs_def)
  moreover have "reg_step (reg_abs y) (Polls (rg_base (reg_abs y) @ bg_fds_extra b')) (reg_abs y)"
    using c(1) prepare(1) by (intro reg_step.turn) (simp_all add: reg_abs_def count_mset)
  moreover have "bg_fds b' = rg_base (reg_abs y) @ bg_fds_extra b'"
    using c(2) by (simp add: reg_abs_def)
  ultimately show ?case by simp
next
  case (die y)
  then obtain fd where "fd_count y fd < 0" by (blast elim: fd_count_negative)
  then have "reg_step (reg_abs y) Died ((reg_abs y)\<lparr>rg_alive := False\<rparr>)"
    using die(1) by (intro reg_step.fail [where fd = fd]) (simp_all add: reg_abs_def)
  moreover have "reg_abs (y\<lparr>sy_phase := Dead\<rparr>) = (reg_abs y)\<lparr>rg_alive := False\<rparr>"
    by (auto simp: reg_abs_def fd_count_def)
  ultimately show ?case by simp
next
  case (finish y delay)
  then have "reg_abs (y\<lparr>sy_net := bg_finish S (sy_net y), sy_phase := AtTop, sy_pending := False\<rparr>) = reg_abs y"
    by (auto simp: reg_abs_def fd_count_def)
  then show ?case by (simp add: reg_step.other)
next
  case (submit s' y net')
  then have "reg_abs (y\<lparr>sy_net := net', sy_pending := True\<rparr>) = reg_abs y"
    using wake_bg_keeps [OF submit(1)] by (auto simp: reg_abs_def fd_count_def)
  then show ?case by (simp add: reg_step.other)
next
  case (take_out s' y net')
  then have "reg_abs (y\<lparr>sy_net := net'\<rparr>) = reg_abs y"
    using wake_bg_read_keeps [OF take_out(1)] by (auto simp: reg_abs_def fd_count_def)
  then show ?case by (simp add: reg_step.other)
next
  case (add_fd y fd s')
  have "reg_abs (y\<lparr>sy_net := (sy_net y)\<lparr>net_stack := s', net_fds_add := net_fds_add (sy_net y) @ [fd]\<rparr>\<rparr>) =
      (reg_abs y)\<lparr>rg_count := (rg_count (reg_abs y))(fd := rg_count (reg_abs y) fd + 1)\<rparr>"
    by (auto simp: reg_abs_def fd_count_def)
  then show ?case by (metis reg_step.register)
next
  case (remove_fd y fd s')
  have "reg_abs (y\<lparr>sy_net := (sy_net y)\<lparr>net_stack := s', net_fds_remove := net_fds_remove (sy_net y) @ [fd]\<rparr>\<rparr>) =
      (reg_abs y)\<lparr>rg_count := (rg_count (reg_abs y))(fd := rg_count (reg_abs y) fd - 1)\<rparr>"
    by (auto simp: reg_abs_def fd_count_def)
  then show ?case by (metis reg_step.deregister)
next
  case (quiet y s')
  have "reg_abs (y\<lparr>sy_net := (sy_net y)\<lparr>net_stack := s'\<rparr>\<rparr>) = reg_abs y"
    by (auto simp: reg_abs_def fd_count_def)
  then show ?case by (simp add: reg_step.other)
qed

interpretation reg: simulation "bg_step S cap" reg_inv reg_step reg_abs for S :: "'s stack_poll" and cap
  by unfold_locales (auto intro: reg_inv_step reg_sim_step)

subsection \<open>Properties\<close>

text \<open>C5: Take any run of the thread and its clients from a state with empty queues, and any event in
  it. If the thread polls there, it has not died before, and what it hands to \<^verbatim>\<open>poll\<close> is the
  network device, the notification socket and every other descriptor exactly as often as it was
  registered less removed in the run so far. If it dies there, some descriptor was removed more
  often than registered before.\<close>

theorem bg_implements_registry:
  assumes "lts_run (bg_step S cap) (bg_initial net) (before @ e # after) y"
    and "net_fds_add net = []" and "net_fds_remove net = []"
  shows "case e of
      Polls fds \<Rightarrow> Died \<notin> set before \<and>
        (\<exists>extra. fds = net_fd net # net_notify_fd net # extra \<and>
           (\<forall>fd. int (count_list extra fd) =
              int (count_list before (Registered fd)) - int (count_list before (Removed fd))))
    | Died \<Rightarrow> Died \<notin> set before \<and>
        (\<exists>fd. count_list before (Registered fd) < count_list before (Removed fd))
    | _ \<Rightarrow> True"
proof -
  have "reg_inv (bg_initial net)" by (simp add: reg_inv_def fds_inv_def bg_initial_def bg_start_def)
  from reg.sim_prefix [OF assms(1) this] obtain r r' where
    r: "lts_run reg_step (reg_abs (bg_initial net)) before r" and e: "reg_step r e r'" by blast
  have "r = \<lparr>rg_base = [net_fd net, net_notify_fd net],
      rg_count = (\<lambda>fd. int (count_list before (Registered fd)) - int (count_list before (Removed fd))),
      rg_alive = (Died \<notin> set before)\<rparr>"
    using reg_run_state [OF r] assms(2,3)
    by (simp add: reg_abs_def bg_initial_def bg_start_def fd_count_def [abs_def])
  with e show ?thesis
    by (cases e) (auto elim!: reg_step_PollsE reg_step_DiedE)
qed

text \<open>Descriptor 9 is registered while the thread sleeps, and polled from its next turn on.\<close>

lemma registering_run:
  "\<exists>fds y. lts_run (bg_step idle_stack 10) (bg_initial idle_net) [Registered 9, Polls fds] y"
proof -
  let ?y = "(bg_initial idle_net)\<lparr>sy_net := (sy_net (bg_initial idle_net))\<lparr>net_stack := (),
      net_fds_add := net_fds_add (sy_net (bg_initial idle_net)) @ [9]\<rparr>\<rparr>"
  have "lts_run (bg_step idle_stack 10) (bg_initial idle_net) ([] @ [Registered 9]) ?y"
    using lts_run.lts_nil bg_step.add_fd by (rule lts_run.lts_snoc)
  moreover have "bg_prepare idle_stack (sy_net ?y) (sy_bg ?y) \<noteq> None"
    by (simp add: bg_prepare_None_iff bg_initial_def idle_net_def net_new_def)
  then obtain delay net' b' where "bg_prepare idle_stack (sy_net ?y) (sy_bg ?y) = Some (delay, net', b')"
    by auto
  then have "bg_step idle_stack 10 ?y (Polls (bg_fds b'))
      (?y\<lparr>sy_net := net', sy_bg := b', sy_phase := AtPoll delay\<rparr>)"
    by (intro bg_step.prepare) (simp_all add: bg_initial_def)
  ultimately have "lts_run (bg_step idle_stack 10) (bg_initial idle_net) (([] @ [Registered 9]) @ [Polls (bg_fds b')])
      (?y\<lparr>sy_net := net', sy_bg := b', sy_phase := AtPoll delay\<rparr>)"
    by (rule lts_run.lts_snoc)
  then show ?thesis by auto
qed

theorem bg_implements_registry_witness:
  "\<exists>fds y extra. lts_run (bg_step idle_stack 10) (bg_initial idle_net) [Registered 9, Polls fds] y \<and>
     fds = 3 # 4 # extra \<and> count_list extra 9 = 1 \<and> count_list extra 8 = 0"
proof -
  obtain fds y where run: "lts_run (bg_step idle_stack 10) (bg_initial idle_net) ([Registered 9] @ Polls fds # []) y"
    using registering_run by auto
  from bg_implements_registry [OF this] obtain extra where "fds = 3 # 4 # extra"
    "\<forall>fd. int (count_list extra fd) = int (count_list [Registered 9] (Registered fd)) - int (count_list [Registered 9] (Removed fd))"
    by (auto simp: idle_net_def net_new_def)
  moreover from this(2) [rule_format, of 9] this(2) [rule_format, of 8] have "count_list extra 9 = 1" "count_list extra 8 = 0"
    by simp_all
  ultimately show ?thesis using run by auto
qed

end
