(* ===== verification/NoCopy.thy ===== *)
theory NoCopy
  imports Connect
begin

text \<open>
  \<^verbatim>\<open>write_no_copy\<close> and \<^verbatim>\<open>read_no_copy\<close> of \<^verbatim>\<open>TcpStream\<close>
  (\<^verbatim>\<open>apimultithread.rs\<close>): the caller's function works in the buffer of the stack, or, for a
  connection of the operating system, in eight bytes of its own. It gets the buffer and gives
  the number of bytes used, the buffer it leaves and a result.
\<close>

datatype smoltcp_error = Illegal | Exhausted | OtherError ustr

type_synonym 'r buf_fun = "bytes \<Rightarrow> nat \<times> bytes \<times> 'r"

record ('y, 's, 'r) nocopy_ops =
  nc_send :: "handle \<Rightarrow> 'r buf_fun \<Rightarrow> 's \<Rightarrow> ('r, smoltcp_error) outcome \<times> 's"
  nc_recv :: "handle \<Rightarrow> 'r buf_fun \<Rightarrow> 's \<Rightarrow> ('r, smoltcp_error) outcome \<times> 's"
  nc_write_all :: "'y \<Rightarrow> bytes \<Rightarrow> ('s api, io_error, unit) prog"
    \<comment> \<open>\<^verbatim>\<open>Write::write_all\<close> of the system's stream\<close>

text \<open>The transfer and the wake-up after it.\<close>

definition nocopy_transfer where
  "nocopy_transfer op wake a =
     (case with_stack op a of
        (Panic, a1) \<Rightarrow> Some (Panic, a1)
      | (r, a1) \<Rightarrow> pbind (on_net wake) (\<lambda>_ a2. Some (r, a2)) a1)"

definition write_no_copy_stcp where
  "write_no_copy_stcp NC Y T cap st f a =
     (case wait_ready Y (send_check T (ss_handle st)) cf_write_timeout (ss_cell st) (sy_now Y a) a of
        None \<Rightarrow> None
      | Some (WClosed, a1) \<Rightarrow> Some (Err Illegal, a1)
      | Some (WBlocked, a1) \<Rightarrow> Some (Err Exhausted, a1)
      | Some (WPanic, a1) \<Rightarrow> Some (Panic, a1)
      | Some (WReady, a1) \<Rightarrow> nocopy_transfer (nc_send NC (ss_handle st) f) (wake_bg cap) a1)"

definition write_no_copy_system where
  "write_no_copy_system NC y f a =
     (case f (replicate 8 0) of
        (u, g, r) \<Rightarrow>
          if u > length g then Some (Panic, a)
          else (case nc_write_all NC y (take u g) a of
                  None \<Rightarrow> None
                | Some (Ok _, a1) \<Rightarrow> Some (Ok r, a1)
                | Some (Err _, a1) \<Rightarrow> Some (Err Exhausted, a1)
                | Some (Panic, a1) \<Rightarrow> Some (Panic, a1)))"

definition tcp_write_no_copy where
  "tcp_write_no_copy NC Y T cap st f =
     (case st of
        Stcp s \<Rightarrow> write_no_copy_stcp NC Y T cap s f
      | System y \<Rightarrow> write_no_copy_system NC y f)"

definition read_no_copy_stcp where
  "read_no_copy_stcp NC Y T cap st f a =
     (case wait_ready Y (recv_check T (ss_handle st)) cf_read_timeout (ss_cell st) (sy_now Y a) a of
        None \<Rightarrow> None
      | Some (WClosed, a1) \<Rightarrow> (case f [] of (_, _, rt) \<Rightarrow> Some (Ok rt, a1))
      | Some (WBlocked, a1) \<Rightarrow> Some (Err Exhausted, a1)
      | Some (WPanic, a1) \<Rightarrow> Some (Panic, a1)
      | Some (WReady, a1) \<Rightarrow> nocopy_transfer (nc_recv NC (ss_handle st) f) (wake_bg_read cap) a1)"

text \<open>The data is looked at with \<open>peek\<close>, and what the function used is then read and dropped.\<close>

definition read_no_copy_system where
  "read_no_copy_system Z y f a =
     (case sys_peek Z y 8 a of
        None \<Rightarrow> None
      | Some (Ok g, a1) \<Rightarrow>
          (case f g of
             (u, g', r) \<Rightarrow>
               if u > length g' then Some (Panic, a1)
               else (case sys_read Z y u a1 of
                       None \<Rightarrow> None
                     | Some (Ok k, a2) \<Rightarrow> Some (if length k = u then Ok r else Err Exhausted, a2)
                     | Some (Err _, a2) \<Rightarrow> Some (Err Exhausted, a2)
                     | Some (Panic, a2) \<Rightarrow> Some (Panic, a2)))
      | Some (Err _, a1) \<Rightarrow> Some (Err Exhausted, a1)
      | Some (Panic, a1) \<Rightarrow> Some (Panic, a1))"

definition tcp_read_no_copy where
  "tcp_read_no_copy NC Z Y T cap st f =
     (case st of
        Stcp s \<Rightarrow> read_no_copy_stcp NC Y T cap s f
      | System y \<Rightarrow> read_no_copy_system Z y f)"

text \<open>With timeouts set, both come back on a connection of the stack.\<close>

lemma nocopy_returns:
  assumes "timely Y (ss_cell st)"
    and "cf_read_timeout (api_cells a (ss_cell st)) = Some d"
    and "cf_write_timeout (api_cells a (ss_cell st)) = Some e"
  shows "read_no_copy_stcp NC Y T cap st f a \<noteq> None" "write_no_copy_stcp NC Y T cap st f a \<noteq> None"
proof -
  have defined: "nocopy_transfer op wake b \<noteq> None" if "\<And>x. wake x \<noteq> None" for op wake and b :: "'a api"
    using wake_then_defined [of wake "fst (with_stack op b)" "snd (with_stack op b)"] that
    by (cases "with_stack op b"; cases "fst (with_stack op b)") (simp_all add: nocopy_transfer_def)
  have "nocopy_transfer op (wake_bg_read cap) b \<noteq> None" "nocopy_transfer op' (wake_bg cap) b \<noteq> None"
    for op op' and b :: "'a api"
    by (rule defined, simp add: wake_bg_read_def wake_bg_def notify_send_def)+
  then show "read_no_copy_stcp NC Y T cap st f a \<noteq> None" "write_no_copy_stcp NC Y T cap st f a \<noteq> None"
    using wait_ready_returns [OF assms(1), of cf_read_timeout a d "recv_check T (ss_handle st)" "sy_now Y a"]
      wait_ready_returns [OF assms(1), of cf_write_timeout a e "send_check T (ss_handle st)" "sy_now Y a"] assms(2,3)
    by (auto simp: read_no_copy_stcp_def write_no_copy_stcp_def split: wait_end.splits prod.splits)
qed

end
