(* ===== verification/Startup.thy ===== *)
theory Startup
  imports Connect
begin

text \<open>
  \<^verbatim>\<open>StcpNet::new_from_env\<close> and \<^verbatim>\<open>StcpNet::new\<close> of \<^verbatim>\<open>apimultithread.rs\<close>: the
  configuration comes from the environment, is checked, and the backend, the notification
  sockets and the port range of the kernel are put together.
\<close>

subsection \<open>Reading the environment\<close>

definition env_or :: "'w sys_ops \<Rightarrow> string \<Rightarrow> string \<Rightarrow> ('w, 'e, ustr) prog" where
  "env_or S name fallback w =
     (case sc_env S (lit name) w of
        (Some v, w') \<Rightarrow> Some (Ok v, w')
      | (None, w') \<Rightarrow> Some (Ok (lit fallback), w'))"

definition usize_expect :: "ustr \<Rightarrow> ('w, 'e, nat) prog" where
  "usize_expect s = punwrap (parse_unsigned 10 (2 ^ 64) s)"

definition passert :: "bool \<Rightarrow> ('w, 'e, unit) prog" where
  "passert b = (if b then pret () else ppanic)"

text \<open>\<^verbatim>\<open>i16::from_str\<close>\<close>

definition parse_i16 :: "ustr \<Rightarrow> int option" where
  "parse_i16 s =
     (if s \<noteq> [] \<and> hd s = 45 then
        (if tl s = [] then None
         else case digits_val 10 0 (tl s) of
                None \<Rightarrow> None
              | Some v \<Rightarrow> if v \<le> 32768 then Some (- int v) else None)
      else map_option int (parse_unsigned 10 32768 s))"

definition pin_cpu :: "int \<Rightarrow> nat option" where
  "pin_cpu nr = (if nr < 0 then None else Some (nat nr))"

definition reduce_mtu :: "nat \<Rightarrow> nat option" where
  "reduce_mtu nr = (if nr = 0 then None else Some nr)"

subsection \<open>\<open>StcpNet::new\<close>\<close>

text \<open>
  \<open>from_json\<close> is \<^verbatim>\<open>serde_json::from_str\<close>, \<open>pair\<close> makes the notification sockets and gives the
  descriptor of the receiving one, \<open>stack\<close> is a device with an empty socket set.
\<close>

definition net_create where
  "net_create S W V C Q U pair stack backend waiting_poll buffer_size pin backlog mtu =
     pbind (to_interface S W V C Q U backend waiting_poll mtu) (\<lambda>(fd, D).
     pbind (pexpect pair) (\<lambda>listener_fd.
     pbind (read_kernel_local_port_range S) (\<lambda>ports.
       pret (net_new fd (stack D) listener_fd ports waiting_poll buffer_size pin backlog))))"

definition new_from_env where
  "new_from_env S W V C Q U pair stack from_json =
     pbind (pexpect (sc_env S (lit ''USNET_SOCKETS''))) (\<lambda>confvar.
     pbind (punwrap (from_json confvar)) (\<lambda>conf.
     pbind (env_or S ''USNET_SOCKETS_WAIT'' ''true'') (\<lambda>wait_text.
     pbind (env_or S ''SOCKET_BUFFER'' ''500000'') (\<lambda>buffer_text.
     pbind (usize_expect buffer_text) (\<lambda>buffer_size.
     pbind (passert (buffer_size > 0)) (\<lambda>_.
     pbind (env_or S ''BG_THREAD_PIN_CPU_ID'' ''-1'') (\<lambda>pin_text.
     pbind (punwrap (parse_i16 pin_text)) (\<lambda>pin_nr.
     pbind (env_or S ''SOCKET_BACKLOG'' ''32'') (\<lambda>backlog_text.
     pbind (usize_expect backlog_text) (\<lambda>backlog.
     pbind (passert (backlog > 0)) (\<lambda>_.
     pbind (env_or S ''REDUCE_MTU_BY'' ''0'') (\<lambda>mtu_text.
     pbind (usize_expect mtu_text) (\<lambda>mtu_nr.
       net_create S W V C Q U pair stack conf (wait_text = lit ''true'') buffer_size (pin_cpu pin_nr) backlog
         (reduce_mtu mtu_nr))))))))))))))"

subsection \<open>Pinning the background thread\<close>

text \<open>
  What the thread does first. \<open>af_cpu_set\<close> says whether \<^verbatim>\<open>CpuSet::set\<close> of the crate
  \<^verbatim>\<open>nix\<close> takes a number (it refuses numbers that do not fit its bit set), \<open>af_setaffinity\<close> is
  \<^verbatim>\<open>sched_setaffinity\<close> with the set of this one CPU. Both results are unwrapped.
\<close>

record 'w affinity_ops =
  af_cpu_set :: "nat \<Rightarrow> bool"
  af_setaffinity :: "nat \<Rightarrow> 'w \<Rightarrow> bool \<times> 'w"

definition bg_pin :: "'w affinity_ops \<Rightarrow> 's stcp_net \<Rightarrow> ('w, 'e, unit) prog" where
  "bg_pin K net =
     (case net_pin_cpu net of
        Some cpuid \<Rightarrow>
          pbind (passert (af_cpu_set K cpuid)) (\<lambda>_ w.
            case af_setaffinity K cpuid w of (ok, w') \<Rightarrow> passert ok w')
      | None \<Rightarrow> pret ())"

subsection \<open>Properties\<close>

lemma net_create_Ok:
  assumes "net_create S W V C Q U pair stack backend waiting_poll buffer_size pin backlog mtu w = Some (Ok net, w')"
  shows "net_waiting_poll net = waiting_poll \<and> net_buffer_size net = buffer_size \<and> net_backlog net = backlog \<and>
    net_pin_cpu net = pin"
  using assms by (auto simp: net_create_def net_new_def pret_def elim!: pbind_OkE)

lemma passert_Ok [simp]: "passert b w = Some (Ok u, w') \<longleftrightarrow> b \<and> w' = w"
  by (auto simp: passert_def pret_def ppanic_def)

lemma punwrap_Ok [simp]: "punwrap x w = Some (Ok v, w') \<longleftrightarrow> x = Some v \<and> w' = w"
  by (auto simp: punwrap_def pret_def ppanic_def split: option.splits)

text \<open>A number that \<^verbatim>\<open>CpuSet::set\<close> refuses ends the thread before its first turn.\<close>

lemma bg_pin_refused:
  "net_pin_cpu net = Some c \<Longrightarrow> \<not> af_cpu_set K c \<Longrightarrow> bg_pin K net w = Some (Panic, w)"
  by (simp add: bg_pin_def pbind_def passert_def ppanic_def)

text \<open>An environment that does not change while it is read.\<close>

definition steady_env :: "'w sys_ops \<Rightarrow> (ustr \<Rightarrow> ustr option) \<Rightarrow> bool" where
  "steady_env S env \<longleftrightarrow> (\<forall>name w. sc_env S name w = (env name, w))"

definition setting :: "(ustr \<Rightarrow> ustr option) \<Rightarrow> string \<Rightarrow> string \<Rightarrow> ustr" where
  "setting env name fallback = (case env (lit name) of Some v \<Rightarrow> v | None \<Rightarrow> lit fallback)"

lemma env_or_steady:
  "steady_env S env \<Longrightarrow> env_or S name fallback w = Some (Ok (setting env name fallback), w)"
  by (simp add: env_or_def steady_env_def setting_def split: option.split)

text \<open>C19: When the environment does not change meanwhile and \<open>new_from_env\<close> returns, the backend
  configuration was given and could be parsed, and the state has the settings of the environment or
  their defaults: the buffer size and the backlog are the numbers given, positive and below \<open>2 ^ 64\<close>
  (500000 and 32 if nothing is given), waiting is on exactly if the setting is \<^verbatim>\<open>true\<close>
  (as without one), the CPU number given is a 16-bit integer and the thread is to be pinned to
  it exactly if it is not negative, and the number by which to reduce the MTU could be parsed. With
  any other environment it does not return a state.\<close>

theorem startup_from_env:
  assumes "steady_env S env"
    and "new_from_env S W V C Q U pair stack from_json w = Some (Ok net :: (_, 'e) outcome, w')"
  shows "(\<exists>confvar conf. env (lit ''USNET_SOCKETS'') = Some confvar \<and> from_json confvar = Some conf) \<and>
    net_waiting_poll net = (setting env ''USNET_SOCKETS_WAIT'' ''true'' = lit ''true'') \<and>
    parse_unsigned 10 (2 ^ 64) (setting env ''SOCKET_BUFFER'' ''500000'') = Some (net_buffer_size net) \<and>
    0 < net_buffer_size net \<and> net_buffer_size net < 2 ^ 64 \<and>
    parse_unsigned 10 (2 ^ 64) (setting env ''SOCKET_BACKLOG'' ''32'') = Some (net_backlog net) \<and>
    0 < net_backlog net \<and> net_backlog net < 2 ^ 64 \<and>
    (\<exists>nr. parse_i16 (setting env ''BG_THREAD_PIN_CPU_ID'' ''-1'') = Some nr \<and>
       net_pin_cpu net = (if nr < 0 then None else Some (nat nr))) \<and>
    (\<exists>mtu. parse_unsigned 10 (2 ^ 64) (setting env ''REDUCE_MTU_BY'' ''0'') = Some mtu)"
proof -
  have "sc_env S (lit ''USNET_SOCKETS'') w = (env (lit ''USNET_SOCKETS''), w)"
    using assms(1) by (simp add: steady_env_def)
  with assms(2) obtain confvar conf buffer_size pin_nr backlog mtu w1 where
    "env (lit ''USNET_SOCKETS'') = Some confvar" "from_json confvar = Some conf"
    "parse_unsigned 10 (2 ^ 64) (setting env ''SOCKET_BUFFER'' ''500000'') = Some buffer_size" "0 < buffer_size"
    "parse_i16 (setting env ''BG_THREAD_PIN_CPU_ID'' ''-1'') = Some pin_nr"
    "parse_unsigned 10 (2 ^ 64) (setting env ''SOCKET_BACKLOG'' ''32'') = Some backlog" "0 < backlog"
    "parse_unsigned 10 (2 ^ 64) (setting env ''REDUCE_MTU_BY'' ''0'') = Some mtu"
    "net_create S W V C Q U pair stack conf (setting env ''USNET_SOCKETS_WAIT'' ''true'' = lit ''true'') buffer_size
       (pin_cpu pin_nr) backlog (reduce_mtu mtu) w1 = Some (Ok net :: (_, 'e) outcome, w')"
    by (auto simp: new_from_env_def usize_expect_def pexpect_def env_or_steady [OF assms(1)] elim!: pbind_OkE)
  with net_create_Ok [OF this(9)] show ?thesis
    by (auto simp: pin_cpu_def dest: parse_unsigned_bound)
qed

subsection \<open>A run\<close>

text \<open>A machine with an existing tap device and no settings but the backend.\<close>

definition tap_system :: "unit sys_ops" where
  "tap_system =
     \<lparr>sc_output = \<lambda>_ _ w. (None, w), sc_status = \<lambda>_ _ w. w,
      sc_read_file = \<lambda>_ w. (Some (show_nat (unat (32768 :: u16)) @ [9] @ show_nat (unat (60999 :: u16)) @ [10]), w),
      sc_env = \<lambda>v w. (if v = lit ''USNET_SOCKETS'' then Some (lit ''tap0'') else None, w),
      sc_random6 = \<lambda>w. ((0, 0, 0, 0, 0, 0), w)\<rparr>"

definition tap_backend :: "ustr \<Rightarrow> stcp_backend option" where
  "tap_backend s = Some (TapConfig (TapInterface s (TapMacStatic (format_mac (2, 0, 0, 0, 0, 1)))
     (TapStatic (lit ''10.0.0.2'') 24 (lit ''10.0.0.1''))))"

definition tap_wire :: "ustr wire_lib" where
  "tap_wire = \<lparr>wl_ipv4_from_str = \<lambda>_. Some (Ipv4Addr 10 0 0 1), wl_cidr = \<lambda>s _. Some s\<rparr>"

definition tap_dev :: "(unit, unit) dev_ops" where
  "tap_dev =
     \<lparr>dv_raw = \<lambda>_ _ w. (None, w), dv_tap = \<lambda>_ _ w. (Some (), w), dv_macvtap = \<lambda>_ _ w. (None, w),
      dv_netmap = \<lambda>_ _ _ _ w. (None, w), dv_uds = \<lambda>_ _ _ w. (None, w), dv_shared = \<lambda>_ _ _ _ _ w. (None, w),
      dv_fd = \<lambda>_. 3, dv_nmreq_size = 60\<rparr>"

lemma tap_interface_run:
  "tap_interface tap_system tap_wire tap_dev mtu
     (TapInterface s (TapMacStatic (format_mac m)) (TapStatic ip sub gw)) w =
   Some (Ok (3, Tap \<lparr>ni_device = (), ni_mac = m, ni_addrs = [ip], ni_gateway = Some (Ipv4Addr 10 0 0 1)\<rparr> None), w)"
  by (simp add: tap_interface_def tap_mac_text_def pbind_def pret_def pout_def mac_roundtrip_newline open_device_def
      pexpect_def tap_dev_def punwrap_def finalize_def static_ipv4_def ip_addr_from_str_def ip_cidr_from_str_def
      tap_wire_def)

theorem startup_from_env_witness:
  "\<forall>C Q U. \<exists>net w'. new_from_env tap_system tap_wire tap_dev C Q U (\<lambda>w. (Some 4, w)) (\<lambda>D. (D :: (_, unit) backend_interface)) tap_backend () =
     Some (Ok net :: (_, unit) outcome, w') \<and>
     net_buffer_size net = 500000 \<and> net_backlog net = 32 \<and> net_pin_cpu net = None \<and> net_waiting_poll net"
proof (intro allI)
  fix C :: "(unit, unit) ctl_ops" and Q :: "(unit, unit) proc_ops" and U
  have ports: "read_kernel_local_port_range tap_system () = Some (Ok (32768, 60999) :: (_, unit) outcome, ())"
    by (rule port_range_read) (simp add: tap_system_def)
  have env: "sc_env tap_system (lit ''USNET_SOCKETS'') () = (Some (lit ''tap0''), ())"
    "env_or tap_system ''USNET_SOCKETS_WAIT'' ''true'' () = Some (Ok (lit ''true'') :: (_, unit) outcome, ())"
    "env_or tap_system ''SOCKET_BUFFER'' ''500000'' () = Some (Ok (lit ''500000'') :: (_, unit) outcome, ())"
    "env_or tap_system ''BG_THREAD_PIN_CPU_ID'' ''-1'' () = Some (Ok (lit ''-1'') :: (_, unit) outcome, ())"
    "env_or tap_system ''SOCKET_BACKLOG'' ''32'' () = Some (Ok (lit ''32'') :: (_, unit) outcome, ())"
    "env_or tap_system ''REDUCE_MTU_BY'' ''0'' () = Some (Ok (lit ''0'') :: (_, unit) outcome, ())"
    by (simp_all add: env_or_def tap_system_def lit_def)
  have nums: "parse_unsigned 10 18446744073709551616 (lit ''500000'') = Some 500000" "parse_unsigned 10 18446744073709551616 (lit ''32'') = Some 32"
    "parse_unsigned 10 18446744073709551616 (lit ''0'') = Some 0" "parse_i16 (lit ''-1'') = Some (- 1)"
    by (simp_all add: parse_unsigned_def parse_i16_def lit_def digit_val_def)
  have "\<exists>net w'. new_from_env tap_system tap_wire tap_dev C Q U (\<lambda>w. (Some 4, w)) (\<lambda>D. (D :: (_, unit) backend_interface)) tap_backend () =
     Some (Ok net :: (_, unit) outcome, w')"
    by (simp add: new_from_env_def net_create_def pbind_def pexpect_def env nums usize_expect_def punwrap_def pret_def
        passert_def tap_backend_def to_interface_def tap_interface_run ports del: format_mac.simps)
  then obtain net w' where run: "new_from_env tap_system tap_wire tap_dev C Q U (\<lambda>w. (Some 4, w))
      (\<lambda>D. (D :: (_, unit) backend_interface)) tap_backend () = Some (Ok net :: (_, unit) outcome, w')" by blast
  have steady: "steady_env tap_system (\<lambda>v. if v = lit ''USNET_SOCKETS'' then Some (lit ''tap0'') else None)"
    by (simp add: steady_env_def tap_system_def)
  have "setting (\<lambda>v. if v = lit ''USNET_SOCKETS'' then Some (lit ''tap0'') else None) name fallback = lit fallback"
    if "lit name \<noteq> lit ''USNET_SOCKETS''" for name fallback
    using that by (simp add: setting_def)
  note this [of "''SOCKET_BUFFER''"] this [of "''SOCKET_BACKLOG''"] this [of "''BG_THREAD_PIN_CPU_ID''"]
    this [of "''USNET_SOCKETS_WAIT''"]
  with startup_from_env [OF steady run] nums
  have "net_buffer_size net = 500000" "net_backlog net = 32" "net_pin_cpu net = None" "net_waiting_poll net"
    by (auto simp: lit_def)
  with run show "\<exists>net w'. new_from_env tap_system tap_wire tap_dev C Q U (\<lambda>w. (Some 4, w)) (\<lambda>D. (D :: (_, unit) backend_interface)) tap_backend () =
     Some (Ok net :: (_, unit) outcome, w') \<and>
     net_buffer_size net = 500000 \<and> net_backlog net = 32 \<and> net_pin_cpu net = None \<and> net_waiting_poll net" by blast
qed

end
