(* ===== verification/SingleThread.thy ===== *)
theory SingleThread
  imports NoCopy Startup
begin

text \<open>
  \<^verbatim>\<open>apisinglethread.rs\<close>: the same socket types without a background thread. Every blocking
  call drives the stack itself, in \<open>poll_wait\<close>; there are no timeouts and no nonblocking mode.
\<close>

subsection \<open>State and surroundings\<close>

record 's local_net =
  lc_stack :: 's
  lc_fd :: raw_fd
  lc_waiting_poll :: bool
  lc_buffer_size :: nat

text \<open>
  \<^verbatim>\<open>poll(fds, timeout)\<close>: for each descriptor whether it is ready to read, \<open>None\<close> inside for an
  error, outside if it never returns.
\<close>

type_synonym 's fd_poll = "raw_fd list \<Rightarrow> int \<Rightarrow> 's \<Rightarrow> (bool list option \<times> 's) option"

text \<open>
  \<^verbatim>\<open>TcpSocket::recv\<close> and \<^verbatim>\<open>send\<close> of the stack: the function gets the readable, or the
  free, part of the buffer.
\<close>

record ('s, 'r) closure_ops =
  co_recv :: "handle \<Rightarrow> 'r buf_fun \<Rightarrow> 's \<Rightarrow> ('r, smoltcp_error) outcome \<times> 's"
  co_send :: "handle \<Rightarrow> 'r buf_fun \<Rightarrow> 's \<Rightarrow> ('r, smoltcp_error) outcome \<times> 's"

record ('l, 'y, 's) local_sys =
  ls_bind :: "socket_addr \<Rightarrow> ('s local_net, io_error, 'l) prog"
  ls_set_nonblocking :: "'l \<Rightarrow> bool \<Rightarrow> ('s local_net, io_error, unit) prog"
  ls_accept :: "'l \<Rightarrow> ('s local_net, io_error, 'y \<times> socket_addr) prog"
  ls_fd :: "'l \<Rightarrow> raw_fd"
  ls_connect :: "socket_addr \<Rightarrow> ('s local_net, io_error, 'y) prog"
  ls_stream_nonblocking :: "'y \<Rightarrow> bool \<Rightarrow> ('s local_net, io_error, unit) prog"
  ls_read :: "'y \<Rightarrow> nat \<Rightarrow> ('s local_net, io_error, bytes) prog"
  ls_peek :: "'y \<Rightarrow> nat \<Rightarrow> ('s local_net, io_error, bytes) prog"
  ls_write :: "'y \<Rightarrow> bytes \<Rightarrow> ('s local_net, io_error, nat) prog"
  ls_write_all :: "'y \<Rightarrow> bytes \<Rightarrow> ('s local_net, io_error, unit) prog"
  ls_flush :: "'y \<Rightarrow> ('s local_net, io_error, unit) prog"
  ls_gen_range :: "'s local_net \<Rightarrow> u16 \<times> 's local_net"

definition on_local :: "('s, 'e, 'a) prog \<Rightarrow> ('s local_net, 'e, 'a) prog" where
  "on_local m n = map_option (\<lambda>(out, s). (out, n\<lparr>lc_stack := s\<rparr>)) (m (lc_stack n))"

definition local_new :: "raw_fd \<Rightarrow> 's \<Rightarrow> bool \<Rightarrow> nat \<Rightarrow> 's local_net" where
  "local_new fd stack waiting_poll buffer_size =
     \<lparr>lc_stack = stack, lc_fd = fd, lc_waiting_poll = waiting_poll, lc_buffer_size = buffer_size\<rparr>"

definition local_create_socket :: "'s tcp_ops \<Rightarrow> 's local_net \<Rightarrow> handle \<times> 's local_net" where
  "local_create_socket T n =
     (case tcp_new T (lc_buffer_size n) (lc_buffer_size n) (lc_stack n) of
        (h, s) \<Rightarrow> (h, n\<lparr>lc_stack := s\<rparr>))"

subsection \<open>Driving the stack\<close>

definition poll_fds :: "raw_fd list option \<Rightarrow> 's local_net \<Rightarrow> raw_fd list" where
  "poll_fds other n = lc_fd n # (case other of None \<Rightarrow> [] | Some fds \<Rightarrow> fds)"

text \<open>Readiness changed in the stack, or one of the other descriptors is ready.\<close>

definition poll_done :: "raw_fd list option \<Rightarrow> bool list \<Rightarrow> (bool, ustr) outcome \<Rightarrow> bool" where
  "poll_done other ready r =
     (case r of
        Ok changed \<Rightarrow> changed \<or> (other \<noteq> None \<and> list_ex (\<lambda>b. b) (drop 1 ready))
      | _ \<Rightarrow> True)"

partial_function (option) poll_loop ::
  "'s stack_poll \<Rightarrow> 's fd_poll \<Rightarrow> bool \<Rightarrow> raw_fd list option \<Rightarrow> bool list \<Rightarrow> ('s local_net, 'e, unit) prog" where
  "poll_loop S PP once other ready n =
     (case sp_poll S (lc_stack n) of
        (r, s1) \<Rightarrow>
          if poll_done other ready r \<or> once \<or> \<not> lc_waiting_poll n then Some (Ok (), n\<lparr>lc_stack := s1\<rparr>)
          else (case PP (poll_fds other n)
                       (case sp_poll_delay S s1 of Some ms \<Rightarrow> to_c_int ms | None \<Rightarrow> -1) s1 of
                  None \<Rightarrow> None
                | Some (None, s2) \<Rightarrow> Some (Panic, n\<lparr>lc_stack := s2\<rparr>)
                | Some (Some ready', s2) \<Rightarrow> poll_loop S PP once other ready' (n\<lparr>lc_stack := s2\<rparr>)))"

definition poll_wait ::
  "'s stack_poll \<Rightarrow> 's fd_poll \<Rightarrow> bool \<Rightarrow> raw_fd list option \<Rightarrow> ('s local_net, 'e, unit) prog" where
  "poll_wait S PP once other n = poll_loop S PP once other (replicate (length (poll_fds other n)) False) n"

text \<open>
  The loops of the blocking calls: a turn gives the result, or \<open>None\<close>, and then the stack is driven
  before the next turn.
\<close>

partial_function (option) drive_until ::
  "'s stack_poll \<Rightarrow> 's fd_poll \<Rightarrow> raw_fd list option \<Rightarrow> ('s local_net, 'e, 'a option) prog \<Rightarrow>
   ('s local_net, 'e, 'a) prog" where
  "drive_until S PP other turn n =
     pbind turn (\<lambda>r n1.
       case r of
         Some x \<Rightarrow> Some (Ok x, n1)
       | None \<Rightarrow> pbind (poll_wait S PP False other) (\<lambda>_ n2. drive_until S PP other turn n2) n1) n"

subsection \<open>\<open>bind\<close> and \<open>connect\<close>\<close>

record 'l local_listener =
  ll_handles :: "handle list option"
  ll_lo :: 'l
  ll_port :: u16

definition local_random_port :: "('l, 'y, 's) local_sys \<Rightarrow> ('s local_net, 'e, u16) prog" where
  "local_random_port B n = (case ls_gen_range B n of (r, n') \<Rightarrow> Some (Ok (1 + r), n'))"

text \<open>The port to listen on: checked with the service, found by it, or drawn.\<close>

definition local_listen_addr where
  "local_listen_addr I C Q U D B ipv4 sa =
     (let ip = CIpv4 (io_show_addr I ipv4)
      in case dev_control D of
           Some control \<Rightarrow>
             if sa_port sa \<noteq> 0 then
               pbind (on_local (is_free_listening_port_for C U control (sa_port sa) ip)) (\<lambda>free.
                 if free then pret sa else pthrow port_not_free)
             else
               pbind (on_local (find_free_connecting_or_listening_port_for C Q U False control ip)) (\<lambda>p.
                 pret (set_port p sa))
         | None \<Rightarrow>
             if sa_port sa = 0 then pbind (local_random_port B) (\<lambda>p. pret (set_port p sa)) else pret sa)"

definition local_listen where
  "local_listen T h port n =
     (case tcp_listen T h port (lc_stack n) of
        (Ok _, s) \<Rightarrow> Some (Ok (), n\<lparr>lc_stack := s\<rparr>)
      | (_, s) \<Rightarrow> Some (Panic, n\<lparr>lc_stack := s\<rparr>))"

definition new_listening where
  "new_listening T port n =
     (case local_create_socket T n of (h, n1) \<Rightarrow> pbind (local_listen T h port) (\<lambda>_. pret h) n1)"

definition local_bind where
  "local_bind I C Q U D B T addrs =
     pbind (punwrap addrs) (\<lambda>l.
     pbind (pindex l 0) (\<lambda>sockaddr0.
     pbind (pindex (dev_ips I D) 0) (\<lambda>cidr.
     pbind (local_listen_addr I C Q U D B (io_cidr_address I cidr) sockaddr0) (\<lambda>sockaddr.
     pbind (ls_bind B (lo_addr sockaddr)) (\<lambda>lolisten.
       if is_loopback (sa_ip sockaddr) then pret \<lparr>ll_handles = None, ll_lo = lolisten, ll_port = sa_port sockaddr\<rparr>
       else
         pbind (ls_set_nonblocking B lolisten True) (\<lambda>_.
         pbind (new_listening T (sa_port sockaddr)) (\<lambda>h.
         pbind (on_local (add_port_match I C U D (sa_ip sockaddr0) (Some (sa_port sockaddr)) None None Tcp)) (\<lambda>_.
           pret \<lparr>ll_handles = Some [h], ll_lo = lolisten, ll_port = sa_port sockaddr\<rparr>))))))))"

text \<open>The loop is left only by an established connection.\<close>

definition connect_turn :: "'s tcp_ops \<Rightarrow> handle \<Rightarrow> ('s local_net, 'e, unit option) prog" where
  "connect_turn T h n = Some (Ok (if conn_ready T (lc_stack n) h then Some () else None), n)"

definition connect_loop ::
  "'s stack_poll \<Rightarrow> 's fd_poll \<Rightarrow> 's tcp_ops \<Rightarrow> handle \<Rightarrow> ('s local_net, 'e, unit) prog" where
  "connect_loop S PP T h = pbind (poll_wait S PP False None) (\<lambda>_. drive_until S PP None (connect_turn T h))"

definition local_connect_port where
  "local_connect_port I C Q U D B ipv4 =
     pbind (local_random_port B) (\<lambda>local_port.
       case dev_control D of
         Some control \<Rightarrow>
           on_local (find_free_connecting_or_listening_port_for C Q U True control (CIpv4 (io_show_addr I ipv4)))
       | None \<Rightarrow> pret local_port)"

definition start_connect where
  "start_connect T addr local_port n =
     (case local_create_socket T n of
        (h, n1) \<Rightarrow>
          (case tcp_connect T h addr local_port (lc_stack n1) of
             (Ok _, s) \<Rightarrow> Some (Ok h, n1\<lparr>lc_stack := s\<rparr>)
           | (_, s) \<Rightarrow> Some (Panic, n1\<lparr>lc_stack := s\<rparr>)))"

datatype 'y local_stream = LocalSystem 'y | LocalStcp handle

definition local_connect where
  "local_connect I C Q U D B S PP T addrs =
     pbind (punwrap addrs) (\<lambda>l.
     pbind (pindex l 0) (\<lambda>addr.
     pbind (pindex (dev_ips I D) 0) (\<lambda>cidr.
       if is_loopback (sa_ip addr) \<or> ip_address_from (sa_ip addr) = io_cidr_address I cidr
       then pbind (ls_connect B addr) (\<lambda>y. pret (LocalSystem y))
       else
         pbind (local_connect_port I C Q U D B (io_cidr_address I cidr)) (\<lambda>local_port.
         pbind (start_connect T addr local_port) (\<lambda>h.
         pbind (connect_loop S PP T h) (\<lambda>_. pret (LocalStcp h)))))))"

subsection \<open>Accepting\<close>

text \<open>The system's connection is set to blocking; failing at that panics.\<close>

definition local_adopt ::
  "('l, 'y, 's) local_sys \<Rightarrow> 'y \<Rightarrow> ('s local_net, io_error, unit) prog" where
  "local_adopt B y n =
     (case ls_stream_nonblocking B y False n of
        None \<Rightarrow> None
      | Some (Ok _, n1) \<Rightarrow> Some (Ok (), n1)
      | Some (_, n1) \<Rightarrow> Some (Panic, n1))"

type_synonym ('l, 'y) accepted = "('y local_stream \<times> socket_addr) \<times> 'l local_listener"

text \<open>A peer that is neither an IPv4 nor an IPv6 address is a panic here.\<close>

definition local_peer :: "ip_endpoint \<Rightarrow> (socket_addr, io_error) outcome" where
  "local_peer ep =
     (case ep_addr ep of
        AddrV4 v \<Rightarrow> Ok (socket_addr_new (V4 v) (ep_port ep))
      | AddrV6 v \<Rightarrow> Ok (socket_addr_new (V6 v) (ep_port ep))
      | _ \<Rightarrow> Panic)"

text \<open>A connection of the stack leaves the pool, and a new listening socket is put at its end.\<close>

definition local_take_conn ::
  "'s tcp_ops \<Rightarrow> 'l local_listener \<Rightarrow> handle list \<Rightarrow> nat \<Rightarrow> handle \<Rightarrow>
   ('s local_net, io_error, ('l, 'y) accepted option) prog" where
  "local_take_conn T ln hs i h n =
     (case local_peer (tcp_remote_endpoint T h (lc_stack n)) of
        Ok sadd \<Rightarrow>
          pbind (new_listening T (ll_port ln)) (\<lambda>new.
            pret (Some ((LocalStcp h, sadd), ln\<lparr>ll_handles := Some (remove_at i hs @ [new])\<rparr>))) n
      | Err e \<Rightarrow> Some (Err e, n)
      | Panic \<Rightarrow> Some (Panic, n))"

text \<open>One turn after the stack was driven; \<open>None\<close> inside means another turn.\<close>

definition local_accept_turn ::
  "('l, 'y, 's) local_sys \<Rightarrow> 's tcp_ops \<Rightarrow> 'l local_listener \<Rightarrow> handle list \<Rightarrow>
   ('s local_net, io_error, ('l, 'y) accepted option) prog" where
  "local_accept_turn B T ln hs n =
     (case ls_accept B (ll_lo ln) n of
        None \<Rightarrow> None
      | Some (Panic, n1) \<Rightarrow> Some (Panic, n1)
      | Some (Ok (y, addr), n1) \<Rightarrow> pbind (local_adopt B y) (\<lambda>_. pret (Some ((LocalSystem y, addr), ln))) n1
      | Some (Err _, n1) \<Rightarrow>
          (case find_conn (conn_ready T (lc_stack n1)) 0 hs of
             Some (i, h) \<Rightarrow> local_take_conn T ln hs i h n1
           | None \<Rightarrow> Some (Ok None, n1)))"

text \<open>At first the stack is driven without waiting.\<close>

definition local_accept_loop ::
  "'s stack_poll \<Rightarrow> 's fd_poll \<Rightarrow> ('l, 'y, 's) local_sys \<Rightarrow> 's tcp_ops \<Rightarrow> 'l local_listener \<Rightarrow> handle list \<Rightarrow>
   ('s local_net, io_error, ('l, 'y) accepted) prog" where
  "local_accept_loop S PP B T ln hs =
     (let other = Some [ls_fd B (ll_lo ln)]
      in pbind (poll_wait S PP True other) (\<lambda>_. drive_until S PP other (local_accept_turn B T ln hs)))"

definition local_accept ::
  "'s stack_poll \<Rightarrow> 's fd_poll \<Rightarrow> ('l, 'y, 's) local_sys \<Rightarrow> 's tcp_ops \<Rightarrow> 'l local_listener \<Rightarrow>
   ('s local_net, io_error, ('l, 'y) accepted) prog" where
  "local_accept S PP B T ln =
     (case ll_handles ln of
        None \<Rightarrow> pbind (ls_accept B (ll_lo ln)) (\<lambda>(y, addr). pret ((LocalSystem y, addr), ln))
      | Some hs \<Rightarrow> local_accept_loop S PP B T ln hs)"

text \<open>\<^verbatim>\<open>StcpListenerIt::next\<close>: an error ends the iteration.\<close>

definition local_incoming_next ::
  "'s stack_poll \<Rightarrow> 's fd_poll \<Rightarrow> ('l, 'y, 's) local_sys \<Rightarrow> 's tcp_ops \<Rightarrow> 'l local_listener \<Rightarrow>
   ('s local_net, io_error, 'y local_stream option \<times> 'l local_listener) prog" where
  "local_incoming_next S PP B T ln n =
     (case local_accept S PP B T ln n of
        None \<Rightarrow> None
      | Some (Ok ((st, _), ln'), n') \<Rightarrow> Some (Ok (Some st, ln'), n')
      | Some (Err _, n') \<Rightarrow> Some (Ok (None, ln), n')
      | Some (Panic, n') \<Rightarrow> Some (Panic, n'))"

subsection \<open>Reading and writing\<close>

definition local_error :: "string \<Rightarrow> io_error" where
  "local_error t = io_error_new KOther (lit t)"

text \<open>The functions given to the stack. They also note what was transferred so far.\<close>

definition recv_part :: "nat \<Rightarrow> bytes \<Rightarrow> bytes buf_fun" where
  "recv_part bufsize data buffer =
     (if length buffer \<ge> bufsize - length data then
        (let out = bufsize - length data in (out, buffer, data @ take out buffer))
      else (length buffer, buffer, data @ buffer))"

definition send_part :: "bytes \<Rightarrow> nat \<Rightarrow> nat buf_fun" where
  "send_part buf written buffer =
     (if length buffer \<ge> length buf - written then
        (let out = length buf - written in (out, drop written buf @ drop out buffer, length buf))
      else (length buffer, take (length buffer) (drop written buf), written + length buffer))"

definition local_recv_turn ::
  "('s, bytes) closure_ops \<Rightarrow> 's tcp_ops \<Rightarrow> handle \<Rightarrow> nat \<Rightarrow> bytes \<Rightarrow> ('s local_net, io_error, bytes option) prog" where
  "local_recv_turn K T h bufsize data n =
     (if tcp_may_recv T h (lc_stack n) then
        (case co_recv K h (recv_part bufsize data) (lc_stack n) of
           (Ok data', s) \<Rightarrow>
             Some (Ok (if data' = [] \<and> tcp_may_recv T h s then None else Some data'), n\<lparr>lc_stack := s\<rparr>)
         | (Err _, s) \<Rightarrow> Some (Err (local_error ''tbd r''), n\<lparr>lc_stack := s\<rparr>)
         | (Panic, s) \<Rightarrow> Some (Panic, n\<lparr>lc_stack := s\<rparr>))
      else Some (Ok (Some data), n))"

text \<open>Another turn is made only if nothing was read so far.\<close>

definition local_read ::
  "'s stack_poll \<Rightarrow> 's fd_poll \<Rightarrow> ('s, bytes) closure_ops \<Rightarrow> 's tcp_ops \<Rightarrow> handle \<Rightarrow> nat \<Rightarrow>
   ('s local_net, io_error, bytes) prog" where
  "local_read S PP K T h bufsize = drive_until S PP None (local_recv_turn K T h bufsize [])"

definition local_send_turn ::
  "('s, nat) closure_ops \<Rightarrow> 's tcp_ops \<Rightarrow> handle \<Rightarrow> bytes \<Rightarrow> nat \<Rightarrow> ('s local_net, io_error, nat option) prog" where
  "local_send_turn K T h buf written n =
     (if tcp_may_send T h (lc_stack n) then
        (case co_send K h (send_part buf written) (lc_stack n) of
           (Ok written', s) \<Rightarrow> Some (Ok (if written' > 0 then Some written' else None), n\<lparr>lc_stack := s\<rparr>)
         | (Err _, s) \<Rightarrow> Some (Err (local_error ''tbd w1''), n\<lparr>lc_stack := s\<rparr>)
         | (Panic, s) \<Rightarrow> Some (Panic, n\<lparr>lc_stack := s\<rparr>))
      else Some (Err (local_error ''tbd w2''), n))"

definition local_write ::
  "'s stack_poll \<Rightarrow> 's fd_poll \<Rightarrow> ('s, nat) closure_ops \<Rightarrow> 's tcp_ops \<Rightarrow> handle \<Rightarrow> bytes \<Rightarrow>
   ('s local_net, io_error, nat) prog" where
  "local_write S PP K T h buf = drive_until S PP None (local_send_turn K T h buf 0)"

text \<open>\<^verbatim>\<open>Drop for StcpStream\<close>\<close>

definition local_drop :: "'s tcp_ops \<Rightarrow> handle \<Rightarrow> 's local_net \<Rightarrow> 's local_net" where
  "local_drop T h n = n\<lparr>lc_stack := set_release T h (tcp_close T h (lc_stack n))\<rparr>"

subsection \<open>\<open>TcpStream\<close>\<close>

definition local_tcp_read where
  "local_tcp_read S PP K T B st bufsize =
     (case st of LocalStcp h \<Rightarrow> local_read S PP K T h bufsize | LocalSystem y \<Rightarrow> ls_read B y bufsize)"

definition local_tcp_write where
  "local_tcp_write S PP K T B st buf =
     (case st of LocalStcp h \<Rightarrow> local_write S PP K T h buf | LocalSystem y \<Rightarrow> ls_write B y buf)"

definition local_tcp_flush where
  "local_tcp_flush B st = (case st of LocalStcp h \<Rightarrow> pret () | LocalSystem y \<Rightarrow> ls_flush B y)"

text \<open>Drive the stack while the connection is open but not ready, at first without waiting.\<close>

definition idle_turn :: "('s \<Rightarrow> bool) \<Rightarrow> ('s local_net, 'e, unit option) prog" where
  "idle_turn busy n = Some (Ok (if busy (lc_stack n) then None else Some ()), n)"

definition drive_while ::
  "'s stack_poll \<Rightarrow> 's fd_poll \<Rightarrow> ('s \<Rightarrow> bool) \<Rightarrow> ('s local_net, 'e, unit) prog" where
  "drive_while S PP busy n =
     (if busy (lc_stack n) then
        pbind (poll_wait S PP True None) (\<lambda>_. drive_until S PP None (idle_turn busy)) n
      else Some (Ok (), n))"

definition local_stack_op :: "('s \<Rightarrow> ('r, smoltcp_error) outcome \<times> 's) \<Rightarrow> ('s local_net, smoltcp_error, 'r) prog" where
  "local_stack_op f n = (case f (lc_stack n) of (r, s) \<Rightarrow> Some (r, n\<lparr>lc_stack := s\<rparr>))"

definition local_write_no_copy where
  "local_write_no_copy S PP K T B st f n =
     (case st of
        LocalStcp h \<Rightarrow>
          pbind (drive_while S PP (\<lambda>s. tcp_may_send T h s \<and> \<not> tcp_can_send T h s)) (\<lambda>_.
            local_stack_op (co_send K h f)) n
      | LocalSystem y \<Rightarrow>
          (case f (replicate 8 0) of
             (u, g, r) \<Rightarrow>
               if u > length g then Some (Panic, n)
               else (case ls_write_all B y (take u g) n of
                       None \<Rightarrow> None
                     | Some (Ok _, n1) \<Rightarrow> Some (Ok r, n1)
                     | Some (Err _, n1) \<Rightarrow> Some (Err Exhausted, n1)
                     | Some (Panic, n1) \<Rightarrow> Some (Panic, n1))))"

definition local_read_no_copy where
  "local_read_no_copy S PP K T B st f n =
     (case st of
        LocalStcp h \<Rightarrow>
          pbind (drive_while S PP (\<lambda>s. tcp_may_recv T h s \<and> \<not> tcp_can_recv T h s)) (\<lambda>_.
            local_stack_op (co_recv K h f)) n
      | LocalSystem y \<Rightarrow>
          (case ls_peek B y 8 n of
             None \<Rightarrow> None
           | Some (Ok g, n1) \<Rightarrow>
               (case f g of
                  (u, g', r) \<Rightarrow>
                    if u > length g' then Some (Panic, n1)
                    else (case ls_read B y u n1 of
                            None \<Rightarrow> None
                          | Some (Ok k, n2) \<Rightarrow> Some (if length k = u then Ok r else Err Exhausted, n2)
                          | Some (Err _, n2) \<Rightarrow> Some (Err Exhausted, n2)
                          | Some (Panic, n2) \<Rightarrow> Some (Panic, n2)))
           | Some (Err _, n1) \<Rightarrow> Some (Err Exhausted, n1)
           | Some (Panic, n1) \<Rightarrow> Some (Panic, n1)))"

subsection \<open>Start\<close>

definition local_create where
  "local_create S W V C Q U stack backend waiting_poll buffer_size mtu =
     pbind (to_interface S W V C Q U backend waiting_poll mtu) (\<lambda>(fd, D).
       pret (local_new fd (stack D) waiting_poll buffer_size))"

definition local_new_from_env where
  "local_new_from_env S W V C Q U stack from_json =
     pbind (pexpect (sc_env S (lit ''USNET_SOCKETS''))) (\<lambda>confvar.
     pbind (punwrap (from_json confvar)) (\<lambda>conf.
     pbind (env_or S ''USNET_SOCKETS_WAIT'' ''true'') (\<lambda>wait_text.
     pbind (env_or S ''SOCKET_BUFFER'' ''500000'') (\<lambda>buffer_text.
     pbind (usize_expect buffer_text) (\<lambda>buffer_size.
     pbind (passert (buffer_size > 0)) (\<lambda>_.
     pbind (env_or S ''REDUCE_MTU_BY'' ''0'') (\<lambda>mtu_text.
     pbind (usize_expect mtu_text) (\<lambda>mtu_nr.
       local_create S W V C Q U stack conf (wait_text = lit ''true'') buffer_size (reduce_mtu mtu_nr)))))))))"

subsection \<open>Facts\<close>

text \<open>Without waiting, the stack is driven exactly once.\<close>

lemma poll_wait_once:
  assumes "once \<or> \<not> lc_waiting_poll n"
  shows "poll_wait S PP once other n = Some (Ok (), n\<lparr>lc_stack := snd (sp_poll S (lc_stack n))\<rparr>)"
  using assms by (auto simp: poll_wait_def poll_loop.simps split: prod.splits)

text \<open>
  What the loops rely on: \<^verbatim>\<open>recv\<close> and \<^verbatim>\<open>send\<close> give back the result of the function they were
  given, called on some buffer.
\<close>

definition calls_fun :: "('r buf_fun \<Rightarrow> 's \<Rightarrow> ('r, smoltcp_error) outcome \<times> 's) \<Rightarrow> bool" where
  "calls_fun op \<longleftrightarrow> (\<forall>f s r s'. op f s = (Ok r, s') \<longrightarrow> (\<exists>buffer u b. f buffer = (u, b, r)))"

lemma calls_funE:
  assumes "calls_fun op" and "op f s = (Ok r, s')"
  obtains buffer u b where "f buffer = (u, b, r)"
  using assms unfolding calls_fun_def by blast

lemma recv_part_bound:
  "recv_part bufsize data buffer = (u, b, r) \<Longrightarrow> length data \<le> bufsize \<Longrightarrow> length r \<le> bufsize"
  by (auto simp: recv_part_def Let_def split: if_splits)

lemma send_part_bound:
  "send_part buf written buffer = (u, b, r) \<Longrightarrow> written \<le> length buf \<Longrightarrow> r \<le> length buf"
  by (auto simp: send_part_def Let_def split: if_splits)

lemma local_recv_turn_Ok:
  assumes "local_recv_turn K T h bufsize [] n = Some (Ok (Some d), n')" and "calls_fun (co_recv K h)"
  shows "length d \<le> bufsize \<and> (d = [] \<longrightarrow> \<not> tcp_may_recv T h (lc_stack n'))"
proof (cases "tcp_may_recv T h (lc_stack n)")
  case True
  with assms(1) obtain s where recv: "co_recv K h (recv_part bufsize []) (lc_stack n) = (Ok d, s)"
    and "n' = n\<lparr>lc_stack := s\<rparr>" "d = [] \<longrightarrow> \<not> tcp_may_recv T h s"
    by (auto simp: local_recv_turn_def split: prod.splits outcome.splits if_splits)
  moreover have "length d \<le> bufsize"
    by (rule calls_funE [OF assms(2) recv]) (auto dest: recv_part_bound)
  ultimately show ?thesis by simp
qed (use assms(1) in \<open>auto simp: local_recv_turn_def\<close>)

lemma local_send_turn_Ok:
  assumes "local_send_turn K T h buf 0 n = Some (Ok (Some k), n')" and "calls_fun (co_send K h)"
  shows "0 < k \<and> k \<le> length buf"
proof -
  from assms(1) obtain s where send: "co_send K h (send_part buf 0) (lc_stack n) = (Ok k, s)" and "0 < k"
    by (auto simp: local_send_turn_def split: prod.splits outcome.splits if_splits)
  moreover have "k \<le> length buf"
    by (rule calls_funE [OF assms(2) send]) (auto dest: send_part_bound)
  ultimately show ?thesis by simp
qed

text \<open>A loop that comes back with a result got it from its last turn.\<close>

lemma drive_until_Ok:
  fixes turn :: "('s local_net, 'e, 'a option) prog"
  assumes ret: "drive_until S PP other turn n = Some (Ok x, n')"
  shows "\<exists>n1. turn n1 = Some (Ok (Some x), n')"
proof -
  have "\<forall>x n'. y = (Ok x, n') \<longrightarrow> (\<exists>n1. turn n1 = Some (Ok (Some x), n'))"
    if ret: "drive_until S PP other turn n = Some y" for y
  proof (rule drive_until.raw_induct [where P = "\<lambda>S PP other turn n y. \<forall>x n'. y = (Ok x, n') \<longrightarrow>
        (\<exists>n1. turn n1 = Some (Ok (Some x), n'))", OF _ ret], intro impI allI)
    fix f S PP other and turn :: "('s local_net, 'e, 'a option) prog" and n y x n'
    assume IH: "\<And>S PP other (turn :: ('s local_net, 'e, 'a option) prog) n y. f S PP other turn n = Some y \<Longrightarrow>
        \<forall>x n'. y = (Ok x, n') \<longrightarrow> (\<exists>n1. turn n1 = Some (Ok (Some x), n'))"
      and body: "pbind turn (\<lambda>r n1. case r of None \<Rightarrow> pbind (poll_wait S PP False other) (\<lambda>_. f S PP other turn) n1
          | Some x \<Rightarrow> Some (Ok x, n1)) n = Some y"
      and y: "y = (Ok x, n')"
    from body [unfolded y] obtain r n1 where turn: "turn n = Some (Ok r, n1)"
      and rest: "(case r of None \<Rightarrow> pbind (poll_wait S PP False other) (\<lambda>_. f S PP other turn) n1
          | Some x \<Rightarrow> Some (Ok x, n1)) = Some (Ok x, n')"
      by (elim pbind_OkE)
    show "\<exists>n1. turn n1 = Some (Ok (Some x), n')"
    proof (cases r)
      case None
      with rest have "pbind (poll_wait S PP False other) (\<lambda>_. f S PP other turn) n1 = Some (Ok x, n')" by simp
      then obtain n2 where "f S PP other turn n2 = Some (Ok x, n')" by (elim pbind_OkE)
      with IH show ?thesis by blast
    qed (use turn rest in auto)
  qed
  with ret show ?thesis by blast
qed

lemma connect_loop_Ok:
  assumes "connect_loop S PP T h n = Some (Ok u :: (_, 'e) outcome, n')"
  shows "conn_ready T (lc_stack n') h"
proof -
  from assms obtain n1 where "drive_until S PP None (connect_turn T h) n1 = Some (Ok u :: (_, 'e) outcome, n')"
    unfolding connect_loop_def by (elim pbind_OkE)
  from drive_until_Ok [OF this] show ?thesis by (auto simp: connect_turn_def split: if_splits)
qed

text \<open>Driving the stack never reports an error.\<close>

lemma poll_loop_no_Err: "poll_loop S PP once other ready n = Some y \<Longrightarrow> \<forall>e n'. y \<noteq> (Err e, n')"
proof (erule poll_loop.raw_induct [where P = "\<lambda>S PP once other ready n y. \<forall>e n'. y \<noteq> (Err e, n')", rotated])
qed (auto split: prod.splits if_splits option.splits)

lemma poll_wait_no_Err: "poll_wait S PP once other n \<noteq> Some (Err e, n')"
  using poll_loop_no_Err unfolding poll_wait_def by blast

text \<open>What driving the stack and waiting for the device keep holds whenever \<open>poll_wait\<close> comes back.\<close>

definition driven_inv :: "'s stack_poll \<Rightarrow> 's fd_poll \<Rightarrow> ('s \<Rightarrow> bool) \<Rightarrow> bool" where
  "driven_inv S PP Q \<longleftrightarrow>
     (\<forall>s. Q s \<longrightarrow> Q (snd (sp_poll S s))) \<and>
     (\<forall>fds t s ready s'. Q s \<longrightarrow> PP fds t s = Some (ready, s') \<longrightarrow> Q s')"

lemma poll_loop_inv:
  fixes n :: "'s local_net"
  assumes ret: "poll_loop S PP once other ready n = Some (y :: (unit, 'e) outcome \<times> 's local_net)"
    and "driven_inv S PP Q" and "Q (lc_stack n)"
  shows "Q (lc_stack (snd y))"
proof -
  have "driven_inv S PP Q \<longrightarrow> Q (lc_stack n) \<longrightarrow> Q (lc_stack (snd y))"
  proof (rule poll_loop.raw_induct [where P = "\<lambda>S PP once other ready n y.
        driven_inv S PP Q \<longrightarrow> Q (lc_stack n) \<longrightarrow> Q (lc_stack (snd y))", OF _ ret], intro impI)
    fix f S PP once other ready and n :: "'s local_net" and y :: "(unit, 'e) outcome \<times> 's local_net"
    assume IH: "\<And>S PP once other ready (n :: 's local_net) (y :: (unit, 'e) outcome \<times> 's local_net).
        f S PP once other ready n = Some y \<Longrightarrow> driven_inv S PP Q \<longrightarrow> Q (lc_stack n) \<longrightarrow> Q (lc_stack (snd y))"
      and body: "(case sp_poll S (lc_stack n) of (r, s1) \<Rightarrow>
          if poll_done other ready r \<or> once \<or> \<not> lc_waiting_poll n then Some (Ok (), n\<lparr>lc_stack := s1\<rparr>)
          else case PP (poll_fds other n) (case sp_poll_delay S s1 of None \<Rightarrow> -1 | Some ms \<Rightarrow> to_c_int ms) s1 of
                 None \<Rightarrow> None
               | Some (None, s2) \<Rightarrow> Some (Panic, n\<lparr>lc_stack := s2\<rparr>)
               | Some (Some ready', s2) \<Rightarrow> f S PP once other ready' (n\<lparr>lc_stack := s2\<rparr>)) = Some y"
      and inv: "driven_inv S PP Q" and Q: "Q (lc_stack n)"
    obtain r s1 where p: "sp_poll S (lc_stack n) = (r, s1)" by fastforce
    with inv Q have s1: "Q s1" unfolding driven_inv_def by (metis snd_conv)
    have s2: "Q s2" if "PP fds t s1 = Some (ready', s2)" for fds t ready' s2
      using inv s1 that unfolding driven_inv_def by blast
    show "Q (lc_stack (snd y))"
      using body p s1 s2 IH [of S PP once other] inv
      by (auto split: if_splits option.splits prod.splits)
  qed
  with assms(2,3) show ?thesis by blast
qed

lemma poll_wait_inv:
  "poll_wait S PP once other n = Some (out, n') \<Longrightarrow> driven_inv S PP Q \<Longrightarrow> Q (lc_stack n) \<Longrightarrow> Q (lc_stack n')"
  unfolding poll_wait_def using poll_loop_inv by fastforce

text \<open>A loop whose turn has no result in any state of the run comes back by a panic only.\<close>

lemma drive_until_stuck:
  fixes turn :: "('s local_net, 'e, 'a option) prog"
  assumes ret: "drive_until S PP other turn n = Some y" and "driven_inv S PP Q" and "Q (lc_stack n)"
    and "\<And>n1. Q (lc_stack n1) \<Longrightarrow> turn n1 = Some (Ok None, n1)"
  shows "\<exists>n'. y = (Panic, n')"
proof -
  let ?hyp = "\<lambda>S PP (turn :: ('s local_net, 'e, 'a option) prog) n. driven_inv S PP Q \<and> Q (lc_stack n) \<and>
    (\<forall>n1. Q (lc_stack n1) \<longrightarrow> turn n1 = Some (Ok None, n1))"
  have "?hyp S PP turn n \<longrightarrow> (\<exists>n'. y = (Panic, n'))"
  proof (rule drive_until.raw_induct [where P = "\<lambda>S PP other turn n y.
        ?hyp S PP turn n \<longrightarrow> (\<exists>n'. y = (Panic, n'))", OF _ ret], intro impI)
    fix f S PP other and turn :: "('s local_net, 'e, 'a option) prog" and n y
    assume IH: "\<And>S PP other (turn :: ('s local_net, 'e, 'a option) prog) n y. f S PP other turn n = Some y \<Longrightarrow>
        ?hyp S PP turn n \<longrightarrow> (\<exists>n'. y = (Panic, n'))"
      and body: "pbind turn (\<lambda>r n1. case r of None \<Rightarrow> pbind (poll_wait S PP False other) (\<lambda>_. f S PP other turn) n1
          | Some x \<Rightarrow> Some (Ok x, n1)) n = Some y"
      and hyp: "?hyp S PP turn n"
    from body hyp have run: "pbind (poll_wait S PP False other) (\<lambda>_. f S PP other turn) n = Some y"
      by (simp add: pbind_def)
    then consider "\<exists>n'. y = (Panic, n')"
      | n2 where "poll_wait S PP False other n = Some (Ok () :: (unit, 'e) outcome, n2)" "f S PP other turn n2 = Some y"
      by (auto simp: pbind_def poll_wait_no_Err split: option.splits outcome.splits)
    then show "\<exists>n'. y = (Panic, n')"
    proof cases
      case (2 n2)
      with hyp have "?hyp S PP turn n2" using poll_wait_inv by blast
      with IH 2(2) show ?thesis by blast
    qed
  qed
  with assms(2-4) show ?thesis by blast
qed

lemma local_take_conn_Ok:
  assumes "local_take_conn T ln (pre @ h # post) (length pre) h n = Some (Ok (Some ((st, addr), ln')), n')"
  shows "st = LocalStcp h \<and> (\<exists>new. ll_handles ln' = Some (pre @ post @ [new]))"
  using assms unfolding local_take_conn_def
  by (auto simp: pret_def split: outcome.splits elim!: pbind_OkE)

lemma local_take_conn_handle:
  "local_take_conn T ln hs i h n = Some (Ok (Some ((LocalStcp h', addr), ln')), n') \<Longrightarrow> h' = h"
  by (auto simp: local_take_conn_def pret_def split: outcome.splits elim!: pbind_OkE)

lemma local_accept_turn_Ok:
  fixes B :: "('l, 'y, 's) local_sys"
  assumes "local_accept_turn B T ln hs n = Some (Ok (Some ((LocalStcp h, addr), ln')), n')"
  shows "h \<in> set hs \<and> (\<exists>hs'. ll_handles ln' = Some hs' \<and> length hs' = length hs)"
proof -
  from assms obtain i h0 n1 where found: "find_conn (conn_ready T (lc_stack n1)) 0 hs = Some (i, h0)"
    and taken: "local_take_conn T ln hs i h0 n1 = Some (Ok (Some ((LocalStcp h :: 'y local_stream, addr), ln')), n')"
    unfolding local_accept_turn_def
    by (auto simp: pret_def split: option.splits outcome.splits prod.splits elim!: pbind_OkE)
  note local_take_conn_handle [OF taken, symmetric]
  with found taken have found: "find_conn (conn_ready T (lc_stack n1)) 0 hs = Some (i, h)"
    and "local_take_conn T ln hs i h n1 = Some (Ok (Some ((LocalStcp h :: 'y local_stream, addr), ln')), n')" by simp_all
  moreover from found obtain pre post where "hs = pre @ h # post" "i = 0 + length pre" by (rule find_conn_first)
  ultimately show ?thesis using local_take_conn_Ok by fastforce
qed

subsection \<open>Properties\<close>

text \<open>C37: A read over the stack gives at most the bytes asked for, and it gives none, which callers take for
  the end of the stream, only when nothing can come any more.\<close>

theorem local_read_end:
  assumes "calls_fun (co_recv K h)" and "local_read S PP K T h bufsize n = Some (Ok data, n')"
  shows "length data \<le> bufsize \<and> (data = [] \<longrightarrow> \<not> tcp_may_recv T h (lc_stack n'))"
  using drive_until_Ok [OF assms(2) [unfolded local_read_def]] local_recv_turn_Ok assms(1) by blast

text \<open>C38: A write over the stack that succeeds took at least one byte and at most the buffer. In particular a
  write of nothing never succeeds: while the connection is open it waits.\<close>

theorem local_write_progress:
  assumes "calls_fun (co_send K h)" and "local_write S PP K T h buf n = Some (Ok k, n')"
  shows "0 < k \<and> k \<le> length buf"
  using drive_until_Ok [OF assms(2) [unfolded local_write_def]] local_send_turn_Ok assms(1) by blast

text \<open>C39: Without a background thread \<open>connect\<close> waits for an established connection only. If the
  connection is refused, that is, if the stack is in a set of states in which the socket is not an
  established connection and which neither driving the stack nor waiting for the device leaves, then
  \<open>connect\<close> never gives an error: the loop does not come back, unless waiting for the device panics.\<close>

theorem refused_connect_hangs:
  fixes n :: "'s local_net"
  assumes "refused (lc_stack n)" and "\<And>s. refused s \<Longrightarrow> \<not> conn_ready T s h"
    and "\<And>s. refused s \<Longrightarrow> refused (snd (sp_poll S s))"
    and "\<And>fds t s ready s'. refused s \<Longrightarrow> PP fds t s = Some (ready, s') \<Longrightarrow> refused s'"
  shows "(connect_loop S PP T h n :: ((unit, 'e) outcome \<times> 's local_net) option) \<in> {None} \<union> {Some (Panic, n') | n'. True}"
proof (cases "connect_loop S PP T h n :: ((unit, 'e) outcome \<times> 's local_net) option")
  case (Some y)
  have inv: "driven_inv S PP refused" using assms(3,4) unfolding driven_inv_def by blast
  from Some consider "\<exists>n'. y = (Panic, n')"
    | n1 where "poll_wait S PP False None n = Some (Ok () :: (unit, 'e) outcome, n1)"
        "drive_until S PP None (connect_turn T h) n1 = Some y"
    by (auto simp: connect_loop_def pbind_def poll_wait_no_Err split: option.splits outcome.splits)
  then have "\<exists>n'. y = (Panic, n')"
  proof cases
    case (2 n1)
    have "refused (lc_stack n1)" by (rule poll_wait_inv [OF 2(1) inv assms(1)])
    from drive_until_stuck [OF 2(2) inv this] assms(2) show ?thesis by (auto simp: connect_turn_def)
  qed
  with Some show ?thesis by blast
qed simp

text \<open>Accepting a connection of the stack takes a socket of the pool and puts a new listening one there.\<close>

theorem local_accept_keeps_pool:
  assumes "ll_handles ln = Some hs" and "local_accept S PP B T ln n = Some (Ok ((LocalStcp h, addr), ln'), n')"
  shows "h \<in> set hs \<and> (\<exists>hs'. ll_handles ln' = Some hs' \<and> length hs' = length hs)"
proof -
  from assms obtain n1 where
    "drive_until S PP (Some [ls_fd B (ll_lo ln)]) (local_accept_turn B T ln hs) n1 = Some (Ok ((LocalStcp h, addr), ln'), n')"
    by (auto simp: local_accept_def local_accept_loop_def Let_def elim!: pbind_OkE)
  from drive_until_Ok [OF this] show ?thesis using local_accept_turn_Ok by blast
qed

text \<open>A connection established by the stack is ready when \<open>connect\<close> comes back.\<close>

lemma local_connect_established:
  assumes "local_connect I C Q U D B S PP T addrs n = Some (Ok (LocalStcp h), n')"
  shows "conn_ready T (lc_stack n') h"
  using assms unfolding local_connect_def
  by (elim pbind_OkE) (auto simp: pret_def split: if_splits elim!: pbind_OkE dest: connect_loop_Ok [where 'e = io_error])

subsection \<open>Runs\<close>

definition busy_stack :: "nat stack_poll" where
  "busy_stack = \<lparr>sp_poll = \<lambda>s. (Ok False, Suc s), sp_poll_delay = \<lambda>_. None\<rparr>"

definition busy_net :: "nat local_net" where
  "busy_net = local_new 3 0 False 1"

text \<open>Three bytes can be read and two can be written.\<close>

definition small_buffers :: "(nat, 'r) closure_ops" where
  "small_buffers =
     \<lparr>co_recv = \<lambda>_ f s. (Ok (snd (snd (f [1, 2, 3]))), s), co_send = \<lambda>_ f s. (Ok (snd (snd (f [0, 0]))), s)\<rparr>"

lemma small_buffers_call: "calls_fun (co_recv small_buffers h)" "calls_fun (co_send small_buffers h)"
  unfolding calls_fun_def small_buffers_def by (auto intro: prod_cases3 simp: prod_eq_iff)

theorem local_read_end_witness:
  "\<forall>PP. local_read busy_stack PP small_buffers open_tcp 7 2 busy_net = Some (Ok [1, 2], busy_net) \<and>
     length [1 :: u8, 2] \<le> 2"
proof
  fix PP :: "nat fd_poll"
  have run: "local_read busy_stack PP small_buffers open_tcp 7 2 busy_net = Some (Ok [1, 2], busy_net)"
    by (simp add: local_read_def drive_until.simps pbind_def local_recv_turn_def open_tcp_def small_buffers_def
        recv_part_def busy_net_def local_new_def)
  with local_read_end [OF small_buffers_call(1) run]
  show "local_read busy_stack PP small_buffers open_tcp 7 2 busy_net = Some (Ok [1, 2], busy_net) \<and>
     length [1 :: u8, 2] \<le> 2" by blast
qed

theorem local_write_progress_witness:
  "\<forall>PP. local_write busy_stack PP small_buffers open_tcp 7 [1, 2, 3] busy_net = Some (Ok 2, busy_net) \<and>
     (2 :: nat) \<le> length [1 :: u8, 2, 3]"
proof
  fix PP :: "nat fd_poll"
  have run: "local_write busy_stack PP small_buffers open_tcp 7 [1, 2, 3] busy_net = Some (Ok 2, busy_net)"
    by (simp add: local_write_def drive_until.simps pbind_def local_send_turn_def open_tcp_def small_buffers_def
        send_part_def busy_net_def local_new_def)
  with local_write_progress [OF small_buffers_call(2) run]
  show "local_write busy_stack PP small_buffers open_tcp 7 [1, 2, 3] busy_net = Some (Ok 2, busy_net) \<and>
     (2 :: nat) \<le> length [1 :: u8, 2, 3]" by blast
qed

text \<open>
  A stack with one connection, whose state is 0 while it is being opened, 1 when it is closed and 2
  when it is established. The peer refuses: running the stack closes a connection that is being opened.
\<close>

definition refusing_tcp :: "nat tcp_ops" where
  "refusing_tcp = open_tcp\<lparr>tcp_is_active := \<lambda>_ s. s \<noteq> 1, tcp_may_recv := \<lambda>_ s. s = 2, tcp_may_send := \<lambda>_ s. s = 2\<rparr>"

definition refusing_poll :: "nat stack_poll" where
  "refusing_poll = \<lparr>sp_poll = \<lambda>s. (Ok (s = 0), if s = 0 then 1 else s), sp_poll_delay = \<lambda>_. None\<rparr>"

theorem refused_connect_hangs_witness:
  "connect_loop refusing_poll (\<lambda>fds _ s. Some (Some (map (\<lambda>_. False) fds), s)) refusing_tcp 7 (local_new 3 0 True 1) \<in>
     {None :: ((unit, unit) outcome \<times> _) option} \<union> {Some (Panic, n') | n'. True} \<and>
   conn_ready refusing_tcp 2 7"
proof
  show "connect_loop refusing_poll (\<lambda>fds _ s. Some (Some (map (\<lambda>_. False) fds), s)) refusing_tcp 7 (local_new 3 0 True 1) \<in>
     {None :: ((unit, unit) outcome \<times> _) option} \<union> {Some (Panic, n') | n'. True}"
    by (rule refused_connect_hangs [where refused = "\<lambda>s. s < 2"])
      (auto simp: local_new_def conn_ready_def refusing_tcp_def refusing_poll_def)
  show "conn_ready refusing_tcp 2 7" by (simp add: conn_ready_def refusing_tcp_def open_tcp_def)
qed

definition quiet_local :: "(raw_fd, unit, nat) local_sys" where
  "quiet_local =
     \<lparr>ls_bind = \<lambda>_ n. Some (Ok 9, n), ls_set_nonblocking = \<lambda>_ _. pret (), ls_accept = \<lambda>_ n. Some (Err no_active, n),
      ls_fd = \<lambda>fd. fd, ls_connect = \<lambda>_. pret (), ls_stream_nonblocking = \<lambda>_ _. pret (), ls_read = \<lambda>_ _. pret [],
      ls_peek = \<lambda>_ _. pret [], ls_write = \<lambda>_ b. pret (length b), ls_write_all = \<lambda>_ _. pret (), ls_flush = \<lambda>_. pret (),
      ls_gen_range = \<lambda>n. (2000, n)\<rparr>"

theorem local_accept_keeps_pool_witness:
  "\<forall>PP. \<exists>ln' n' hs'. local_accept busy_stack PP quiet_local open_tcp \<lparr>ll_handles = Some [5, 6], ll_lo = 9, ll_port = 80\<rparr> busy_net =
       Some (Ok ((LocalStcp 5, SockV4 (Ipv4Addr 10 0 0 1) 99), ln'), n') \<and> ll_handles ln' = Some hs' \<and> length hs' = 2"
proof
  fix PP :: "nat fd_poll"
  let ?ln = "\<lparr>ll_handles = Some [5, 6], ll_lo = 9, ll_port = 80\<rparr> :: raw_fd local_listener"
  have "\<exists>ln' n'. local_accept busy_stack PP quiet_local open_tcp ?ln busy_net =
       Some (Ok ((LocalStcp 5, SockV4 (Ipv4Addr 10 0 0 1) 99), ln'), n')"
    by (simp add: local_accept_def local_accept_loop_def pbind_def poll_wait_once drive_until.simps local_accept_turn_def
        quiet_local_def conn_ready_def open_tcp_def local_take_conn_def local_peer_def new_listening_def
        local_create_socket_def local_listen_def pret_def Let_def)
  then obtain ln' n' where run: "local_accept busy_stack PP quiet_local open_tcp ?ln busy_net =
       Some (Ok ((LocalStcp 5, SockV4 (Ipv4Addr 10 0 0 1) 99), ln'), n')" by blast
  from local_accept_keeps_pool [OF _ run] run
  show "\<exists>ln' n' hs'. local_accept busy_stack PP quiet_local open_tcp ?ln busy_net =
       Some (Ok ((LocalStcp 5, SockV4 (Ipv4Addr 10 0 0 1) 99), ln'), n') \<and> ll_handles ln' = Some hs' \<and> length hs' = 2"
    by auto
qed

end
